theory Spec2Isabelle
  imports Main "HOL-Library.Word"
begin

section \<open>LIC Imaris Log Analyzer: the log-parsing core of LogData.cpp\<close>

text \<open>
  A shallow embedding of \<^verbatim>\<open>LogData.cpp\<close> / \<^verbatim>\<open>LogData.h\<close>. Member variables of the
  class \<^verbatim>\<open>LogData\<close> are fields of a record that is passed through the member functions;
  every C++ exception is a value of the type \<open>error\<close>; \<^verbatim>\<open>std::vector::at\<close> raises
  \<^verbatim>\<open>std::out_of_range\<close>, which is the error \<open>OutOfRange\<close>.
\<close>

subsection \<open>Errors and checked vector access\<close>

datatype error =
    EventDataException nat
  | InvalidFileFormatException
  | InvalidIndexException string
  | OutOfRange
  | IndeterminateRead

text \<open>Sequencing of computations that may throw: the first exception wins.\<close>

definition bindE :: "error + 'a \<Rightarrow> ('a \<Rightarrow> error + 'b) \<Rightarrow> error + 'b" where
  "bindE m f = (case m of Inl e \<Rightarrow> Inl e | Inr x \<Rightarrow> f x)"

text \<open>\<^verbatim>\<open>v.at(i)\<close>\<close>

definition vector_at :: "'a list \<Rightarrow> nat \<Rightarrow> error + 'a" where
  "vector_at v i = (if i < length v then Inr (v ! i) else Inl OutOfRange)"

text \<open>\<^verbatim>\<open>m.at(i).at(j)\<close>\<close>

definition vector_at2 :: "'a list list \<Rightarrow> nat \<Rightarrow> nat \<Rightarrow> error + 'a" where
  "vector_at2 m i j = bindE (vector_at m i) (\<lambda>v. vector_at v j)"

subsection \<open>The helpers of Utilities.h\<close>

text \<open>
  \<^verbatim>\<open>Utilities.h\<close> is not part of the sources at hand. The helpers whose result a member
  function only passes on are parameters of the model, collected in one record; \<open>atoi\<close> of
  the C library is kept with them. C++ \<^verbatim>\<open>int\<close> is a 32-bit word (read with \<open>sint\<close>),
  \<^verbatim>\<open>size_t\<close> a 64-bit word, a \<^verbatim>\<open>ptime\<close> and a \<^verbatim>\<open>time_duration\<close> are integers (a
  number of clock ticks), so that \<^verbatim>\<open>endTime - startTime\<close> is integer subtraction.
\<close>

record utilities =
  tokenizeString :: "string \<Rightarrow> string \<Rightarrow> string list"
  atoi :: "string \<Rightarrow> 32 word"
  toString_int :: "32 word \<Rightarrow> string"
  toString_size :: "64 word \<Rightarrow> string"
  toString_duration :: "int \<Rightarrow> string"
  stringToBoostTime :: "string \<Rightarrow> string \<Rightarrow> int"

text \<open>
  Modelled from the spec: \<^verbatim>\<open>getUniqueItems\<close> of Utilities.h. An Identity Registry is
  "an ordered set of distinct names; insertion order is first-seen order".
\<close>

definition getUniqueItems :: "string \<Rightarrow> string list \<Rightarrow> string list" where
  "getUniqueItems name list = (if name \<in> set list then list else list @ [name])"

text \<open>
  Modelled from the spec: \<^verbatim>\<open>setVectorToZero\<close> and \<^verbatim>\<open>setMatrixToZero\<close> of Utilities.h.
  "SHUTDOWN: reset all live counts and unique counts to zero for every product/user".
\<close>

definition setVectorToZero :: "64 word list \<Rightarrow> 64 word list" where
  "setVectorToZero v = map (\<lambda>_. 0) v"

definition setMatrixToZero :: "64 word list list \<Rightarrow> 64 word list list" where
  "setMatrixToZero m = map setVectorToZero m"

subsection \<open>LogData.h: enumerations and members\<close>

datatype fileFormat = Invalid | ReportLog | ISVLog

abbreviation (input) IndexEvent :: nat where "IndexEvent \<equiv> 0"
abbreviation (input) IndexDate :: nat where "IndexDate \<equiv> 1"
abbreviation (input) IndexTime :: nat where "IndexTime \<equiv> 2"
abbreviation (input) IndexProduct :: nat where "IndexProduct \<equiv> 3"
abbreviation (input) IndexVersion :: nat where "IndexVersion \<equiv> 4"
abbreviation (input) IndexUser :: nat where "IndexUser \<equiv> 5"
abbreviation (input) IndexHost :: nat where "IndexHost \<equiv> 6"
abbreviation (input) IndexCount :: nat where "IndexCount \<equiv> 7"
abbreviation (input) IndexHandle :: nat where "IndexHandle \<equiv> 8"

abbreviation (input) RepOUTIndexDate :: nat where "RepOUTIndexDate \<equiv> 16"
abbreviation (input) RepOUTIndexTime :: nat where "RepOUTIndexTime \<equiv> 17"
abbreviation (input) RepOUTIndexProduct :: nat where "RepOUTIndexProduct \<equiv> 1"
abbreviation (input) RepOUTIndexVersion :: nat where "RepOUTIndexVersion \<equiv> 2"
abbreviation (input) RepOUTIndexUser :: nat where "RepOUTIndexUser \<equiv> 4"
abbreviation (input) RepOUTIndexHost :: nat where "RepOUTIndexHost \<equiv> 5"
abbreviation (input) RepOUTIndexCount :: nat where "RepOUTIndexCount \<equiv> 8"
abbreviation (input) RepOUTIndexHandle :: nat where "RepOUTIndexHandle \<equiv> 10"
abbreviation (input) RepOUTIndexReserved :: nat where "RepOUTIndexReserved \<equiv> 9"

abbreviation (input) RepINIndexDate :: nat where "RepINIndexDate \<equiv> 11"
abbreviation (input) RepINIndexTime :: nat where "RepINIndexTime \<equiv> 12"
abbreviation (input) RepINIndexProduct :: nat where "RepINIndexProduct \<equiv> 2"
abbreviation (input) RepINIndexVersion :: nat where "RepINIndexVersion \<equiv> 3"
abbreviation (input) RepINIndexUser :: nat where "RepINIndexUser \<equiv> 4"
abbreviation (input) RepINIndexHost :: nat where "RepINIndexHost \<equiv> 5"
abbreviation (input) RepINIndexCount :: nat where "RepINIndexCount \<equiv> 8"
abbreviation (input) RepINIndexHandle :: nat where "RepINIndexHandle \<equiv> 10"
abbreviation (input) RepINIndexReserved :: nat where "RepINIndexReserved \<equiv> 9"

abbreviation (input) RepDENYIndexDate :: nat where "RepDENYIndexDate \<equiv> 10"
abbreviation (input) RepDENYIndexTime :: nat where "RepDENYIndexTime \<equiv> 11"
abbreviation (input) RepDENYIndexProduct :: nat where "RepDENYIndexProduct \<equiv> 1"
abbreviation (input) RepDENYIndexVersion :: nat where "RepDENYIndexVersion \<equiv> 2"
abbreviation (input) RepDENYIndexUser :: nat where "RepDENYIndexUser \<equiv> 3"
abbreviation (input) RepDENYIndexHost :: nat where "RepDENYIndexHost \<equiv> 4"
abbreviation (input) RepDENYIndexCount :: nat where "RepDENYIndexCount \<equiv> 7"
abbreviation (input) RepDENYIndexReason :: nat where "RepDENYIndexReason \<equiv> 7"

abbreviation (input) RepSTARTIndexDate :: nat where "RepSTARTIndexDate \<equiv> 2"
abbreviation (input) RepSTARTIndexTime :: nat where "RepSTARTIndexTime \<equiv> 3"
abbreviation (input) RepSTARTIndexServer :: nat where "RepSTARTIndexServer \<equiv> 1"

abbreviation (input) RepSHUTIndexDate :: nat where "RepSHUTIndexDate \<equiv> 3"
abbreviation (input) RepSHUTIndexTime :: nat where "RepSHUTIndexTime \<equiv> 4"

abbreviation (input) RepPRODUCTIndexProduct :: nat where "RepPRODUCTIndexProduct \<equiv> 1"
abbreviation (input) RepPRODUCTIndexVersion :: nat where "RepPRODUCTIndexVersion \<equiv> 2"
abbreviation (input) RepPRODUCTIndexCount :: nat where "RepPRODUCTIndexCount \<equiv> 4"
abbreviation (input) RepPRODUCTIndexRLimit :: nat where "RepPRODUCTIndexRLimit \<equiv> 5"

text \<open>
  The members of \<^verbatim>\<open>LogData\<close> that the extractor reads or writes. \<open>m_endTimeRow\<close> is not
  initialised by the constructor: it is \<open>None\<close> until its first assignment.
\<close>

record LogData =
  m_fileFormat :: fileFormat
  m_eventData :: "string list list"
  m_denialEvents :: "string list list"
  m_shutdownEvents :: "string list list"
  m_startEvents :: "string list list"
  m_uniqueProducts :: "string list"
  m_uniqueUsers :: "string list"
  m_uniqueHosts :: "string list"
  m_eventYear :: string
  m_serverName :: string
  m_eventIndex :: nat
  m_OUTindices :: "nat list"
  m_INindices :: "nat list"
  m_DENYindices :: "nat list"
  m_STARTindices :: "nat list"
  m_SHUTindices :: "nat list"
  m_PRODUCTindices :: "nat list"
  m_endTimeRow :: "nat option"

text \<open>The object as the constructor finds it once \<^verbatim>\<open>findFileFormat\<close> has returned \<open>fmt\<close>.\<close>

definition newLogData :: "fileFormat \<Rightarrow> LogData" where
  "newLogData fmt =
     \<lparr> m_fileFormat = fmt, m_eventData = [], m_denialEvents = [], m_shutdownEvents = [],
       m_startEvents = [], m_uniqueProducts = [], m_uniqueUsers = [], m_uniqueHosts = [],
       m_eventYear = [], m_serverName = [], m_eventIndex = 0,
       m_OUTindices = [], m_INindices = [], m_DENYindices = [], m_STARTindices = [],
       m_SHUTindices = [], m_PRODUCTindices = [], m_endTimeRow = None \<rparr>"

subsection \<open>findFileFormat\<close>

text \<open>\<^verbatim>\<open>s.find(t)\<close> of \<^verbatim>\<open>std::string\<close>: the first position of \<open>t\<close> in \<open>s\<close>, \<open>None\<close> for npos.\<close>

fun startsWith :: "string \<Rightarrow> string \<Rightarrow> bool" where
  "startsWith s [] = True"
| "startsWith [] (d # ds) = False"
| "startsWith (c # cs) (d # ds) = (c = d \<and> startsWith cs ds)"

fun string_find :: "string \<Rightarrow> string \<Rightarrow> nat option" where
  "string_find [] t = (if t = [] then Some 0 else None)"
| "string_find (c # cs) t =
     (if startsWith (c # cs) t then Some 0 else map_option Suc (string_find cs t))"

text \<open>
  The body of the \<^verbatim>\<open>for\<close> loop for one line: \<open>Some r\<close> when the loop is left (by
  \<^verbatim>\<open>return\<close> or \<^verbatim>\<open>throw\<close>), \<open>None\<close> when it goes on to the next line.
\<close>

definition findFileFormat_line :: "string \<Rightarrow> (error + fileFormat) option" where
  "findFileFormat_line l =
     (if string_find l ''RLM Report Log Format'' \<noteq> None then Some (Inr ReportLog)
      else if string_find l ''/'' \<noteq> None \<and> string_find l '':'' \<noteq> None
              \<and> string_find l ''('' \<noteq> None \<and> string_find l '')'' \<noteq> None
              \<and> string_find l ''(rlm)'' = None
           then Some (Inl InvalidFileFormatException)
      else None)"

text \<open>
  \<^verbatim>\<open>for (size_t line=0; line<m_rawData.size(); ++line)\<close>: the loop, from line \<open>line\<close> on.
  Falling out of the loop throws.
\<close>

function findFileFormat_loop :: "string list \<Rightarrow> nat \<Rightarrow> error + fileFormat" where
  "findFileFormat_loop m_rawData line =
     (if line < length m_rawData then
        (case findFileFormat_line (m_rawData ! line) of
           Some r \<Rightarrow> r
         | None \<Rightarrow> findFileFormat_loop m_rawData (Suc line))
      else Inl InvalidFileFormatException)"
  by pat_completeness auto
termination
  by (relation "measure (\<lambda>(m_rawData, line). length m_rawData - line)") auto

text \<open>
  \<open>linesToSearch\<close> is computed as in the source ("Don't search the whole file when the
  identifying markers are near the beginning") and, as in the source, the loop does not
  use it.
\<close>

definition findFileFormat :: "string list \<Rightarrow> error + fileFormat" where
  "findFileFormat m_rawData =
     (let linesToSearch = (if length m_rawData < 20 then length m_rawData else 20)
      in findFileFormat_loop m_rawData 0)"

subsection \<open>getEventIndices and loadEventIntoVector\<close>

definition getEventIndices :: "LogData \<Rightarrow> LogData" where
  "getEventIndices s =
     (if m_fileFormat s = ReportLog then
        s\<lparr> m_eventIndex := 0,
           m_OUTindices := m_OUTindices s @
             [0, RepOUTIndexDate, RepOUTIndexTime, RepOUTIndexProduct, RepOUTIndexVersion,
              RepOUTIndexUser, RepOUTIndexHost, RepOUTIndexCount, RepOUTIndexHandle,
              RepOUTIndexReserved],
           m_INindices := m_INindices s @
             [0, RepINIndexDate, RepINIndexTime, RepINIndexProduct, RepINIndexVersion,
              RepINIndexUser, RepINIndexHost, RepINIndexCount, RepINIndexHandle,
              RepINIndexReserved],
           m_DENYindices := m_DENYindices s @
             [0, RepDENYIndexDate, RepDENYIndexTime, RepDENYIndexProduct, RepDENYIndexVersion,
              RepDENYIndexUser, RepDENYIndexHost, RepDENYIndexCount, RepDENYIndexReason],
           m_STARTindices := m_STARTindices s @
             [0, RepSTARTIndexDate, RepSTARTIndexTime, RepSTARTIndexServer],
           m_SHUTindices := m_SHUTindices s @ [0, RepSHUTIndexDate, RepSHUTIndexTime],
           m_PRODUCTindices := m_PRODUCTindices s @
             [0, RepPRODUCTIndexProduct, RepPRODUCTIndexVersion, RepPRODUCTIndexCount,
              RepPRODUCTIndexRLimit] \<rparr>
      else s)"

text \<open>
  The \<^verbatim>\<open>for\<close> loop of \<^verbatim>\<open>loadEventIntoVector\<close>:
  \<^verbatim>\<open>eventLine.push_back(allDataRow.at(indices.at(col)))\<close> for every \<open>col\<close> in order.
\<close>

fun projectRow :: "string list \<Rightarrow> nat list \<Rightarrow> error + string list" where
  "projectRow allDataRow [] = Inr []"
| "projectRow allDataRow (i # indices) =
     bindE (vector_at allDataRow i) (\<lambda>x.
     bindE (projectRow allDataRow indices) (\<lambda>xs. Inr (x # xs)))"

definition loadEventIntoVector ::
  "string list \<Rightarrow> nat \<Rightarrow> nat list \<Rightarrow> LogData \<Rightarrow> error + LogData" where
  "loadEventIntoVector allDataRow row indices s =
     (if length allDataRow \<ge> length indices then
        bindE (projectRow allDataRow indices) (\<lambda>eventLine.
        Inr (s\<lparr> m_eventData := m_eventData s @ [eventLine] \<rparr>))
      else Inl (EventDataException (row + 1)))"

subsection \<open>addYearToDate\<close>

text \<open>
  The year that the newest record is stamped with: the ambient year, incremented first
  when the record is dated 01/01 at 00:00. \<^verbatim>\<open>&&\<close> evaluates \<^verbatim>\<open>timeVector.at(1)\<close> only
  when the hour is "00".
\<close>

definition rolloverYear ::
  "utilities \<Rightarrow> string list list \<Rightarrow> string \<Rightarrow> nat \<Rightarrow> string \<Rightarrow> error + string" where
  "rolloverYear U events eventYear eventRow currentDate =
     (if currentDate = ''01/01'' then
        bindE (vector_at2 events eventRow IndexTime) (\<lambda>time.
        let timeVector = tokenizeString U '':'' time in
        bindE (vector_at timeVector 0) (\<lambda>hh.
        if hh = ''00'' then
          bindE (vector_at timeVector 1) (\<lambda>mm.
          if mm = ''00'' then Inr (toString_int U (atoi U eventYear + 1))
          else Inr eventYear)
        else Inr eventYear))
      else Inr eventYear)"

definition addYearToDate :: "utilities \<Rightarrow> LogData \<Rightarrow> error + LogData" where
  "addYearToDate U s =
     (if m_fileFormat s = ReportLog then
        (let eventRow = length (m_eventData s) - 1 in
         bindE (vector_at2 (m_eventData s) eventRow IndexDate) (\<lambda>currentDate.
         bindE (rolloverYear U (m_eventData s) (m_eventYear s) eventRow currentDate) (\<lambda>year.
         Inr (s\<lparr> m_eventYear := year,
                 m_eventData := (m_eventData s)
                   [eventRow := (m_eventData s ! eventRow)
                      [IndexDate := currentDate @ ''/'' @ year]] \<rparr>))))
      else Inr s)"

subsection \<open>extractEvents\<close>

text \<open>
  The OUT, IN and DENY branches of \<^verbatim>\<open>extractEvents\<close> start with the same statements,
  with the index table of the kind: load the record, register its product, user and host
  name, stamp the date.
\<close>

definition loadNamedEvent ::
  "utilities \<Rightarrow> LogData \<Rightarrow> nat \<Rightarrow> string list \<Rightarrow> nat list \<Rightarrow> error + LogData" where
  "loadNamedEvent U s0 row r indices =
     bindE (loadEventIntoVector r row indices s0) (\<lambda>s1.
     let eventRow = length (m_eventData s1) - 1 in
     bindE (vector_at2 (m_eventData s1) eventRow IndexProduct) (\<lambda>productName.
     bindE (vector_at2 (m_eventData s1) eventRow IndexUser) (\<lambda>userName.
     bindE (vector_at2 (m_eventData s1) eventRow IndexHost) (\<lambda>hostName.
     addYearToDate U
       (s1\<lparr> m_uniqueProducts := getUniqueItems productName (m_uniqueProducts s1),
            m_uniqueUsers := getUniqueItems userName (m_uniqueUsers s1),
            m_uniqueHosts := getUniqueItems hostName (m_uniqueHosts s1) \<rparr>)))))"

definition extractOUT :: "utilities \<Rightarrow> LogData \<Rightarrow> nat \<Rightarrow> string list \<Rightarrow> error + LogData" where
  "extractOUT U s0 row r =
     bindE (loadNamedEvent U s0 row r (m_OUTindices s0)) (\<lambda>s.
     Inr (s\<lparr> m_endTimeRow := Some (length (m_eventData s) - 1) \<rparr>))"

definition extractIN :: "utilities \<Rightarrow> LogData \<Rightarrow> nat \<Rightarrow> string list \<Rightarrow> error + LogData" where
  "extractIN U s0 row r =
     bindE (loadNamedEvent U s0 row r (m_INindices s0)) (\<lambda>s.
     Inr (s\<lparr> m_endTimeRow := Some (length (m_eventData s) - 1) \<rparr>))"

definition extractDENY :: "utilities \<Rightarrow> LogData \<Rightarrow> nat \<Rightarrow> string list \<Rightarrow> error + LogData" where
  "extractDENY U s0 row r =
     bindE (loadNamedEvent U s0 row r (m_DENYindices s0)) (\<lambda>s.
     let eventRow = length (m_eventData s) - 1 in
     bindE (vector_at (m_eventData s) eventRow) (\<lambda>event.
     Inr (s\<lparr> m_denialEvents := m_denialEvents s @ [event],
             m_endTimeRow := Some eventRow \<rparr>)))"

definition extractSTART :: "utilities \<Rightarrow> LogData \<Rightarrow> nat \<Rightarrow> string list \<Rightarrow> error + LogData" where
  "extractSTART U s0 row r =
     bindE (loadEventIntoVector r row (m_STARTindices s0) s0) (\<lambda>s1.
     let eventRow = length (m_eventData s1) - 1 in
     bindE (vector_at2 (m_eventData s1) eventRow 3) (\<lambda>server.
     bindE (vector_at (m_eventData s1) eventRow) (\<lambda>event.
     let s2 = s1\<lparr> m_serverName := server, m_startEvents := m_startEvents s1 @ [event] \<rparr> in
     if m_fileFormat s2 = ReportLog then
       bindE (vector_at r RepSTARTIndexDate) (\<lambda>date.
       let tempVector = tokenizeString U ''/'' date in
       bindE (vector_at tempVector 2) (\<lambda>year.
       Inr (s2\<lparr> m_eventYear := year, m_endTimeRow := Some eventRow \<rparr>)))
     else Inr s2)))"

definition extractSHUTDOWN :: "utilities \<Rightarrow> LogData \<Rightarrow> nat \<Rightarrow> string list \<Rightarrow> error + LogData" where
  "extractSHUTDOWN U s0 row r =
     bindE (loadEventIntoVector r row (m_SHUTindices s0) s0) (\<lambda>s1.
     bindE (addYearToDate U s1) (\<lambda>s.
     let eventRow = length (m_eventData s) - 1 in
     bindE (vector_at (m_eventData s) eventRow) (\<lambda>event.
     Inr (s\<lparr> m_shutdownEvents := m_shutdownEvents s @ [event],
             m_endTimeRow := Some eventRow \<rparr>))))"

definition extractPRODUCT :: "utilities \<Rightarrow> LogData \<Rightarrow> nat \<Rightarrow> string list \<Rightarrow> error + LogData" where
  "extractPRODUCT U s0 row r =
     bindE (loadEventIntoVector r row (m_PRODUCTindices s0) s0) (\<lambda>s1.
     let eventRow = length (m_eventData s1) - 1 in
     bindE (vector_at2 (m_eventData s1) eventRow 1) (\<lambda>productName.
     Inr (s1\<lparr> m_uniqueProducts := getUniqueItems productName (m_uniqueProducts s1) \<rparr>)))"

text \<open>
  "Check for existence of date, and if so update the year": a row of two fields whose
  first field has three parts between slashes sets the ambient year.
\<close>

definition yearMarker :: "utilities \<Rightarrow> LogData \<Rightarrow> string list \<Rightarrow> LogData" where
  "yearMarker U s r =
     (if length r = 2 then
        (let tempVector = tokenizeString U ''/'' (r ! 0) in
         if length tempVector = 3 then s\<lparr> m_eventYear := tempVector ! 2 \<rparr> else s)
      else s)"

text \<open>The body of the \<^verbatim>\<open>for\<close> loop of \<^verbatim>\<open>extractEvents\<close> at row number \<open>row\<close>.\<close>

definition extractRow :: "utilities \<Rightarrow> LogData \<Rightarrow> nat \<Rightarrow> string list \<Rightarrow> error + LogData" where
  "extractRow U s0 row r =
     (let s = yearMarker U s0 r in
      if length r > m_eventIndex s then
        (if r ! m_eventIndex s = ''OUT'' then extractOUT U s row r
         else if r ! m_eventIndex s = ''IN'' then extractIN U s row r
         else if r ! m_eventIndex s = ''DENY'' then extractDENY U s row r
         else if r ! m_eventIndex s = ''START'' then extractSTART U s row r
         else if r ! m_eventIndex s = ''SHUTDOWN'' then extractSHUTDOWN U s row r
         else if r ! m_eventIndex s = ''PRODUCT'' then extractPRODUCT U s row r
         else Inr s)
      else Inr s)"

text \<open>The loop over the rows of \<open>m_allData\<close>, from row number \<open>row\<close> on.\<close>

fun extractRows :: "utilities \<Rightarrow> LogData \<Rightarrow> nat \<Rightarrow> string list list \<Rightarrow> error + LogData" where
  "extractRows U s row [] = Inr s"
| "extractRows U s row (r # m_allData) =
     bindE (extractRow U s row r) (\<lambda>s'. extractRows U s' (Suc row) m_allData)"

definition extractEvents :: "utilities \<Rightarrow> LogData \<Rightarrow> string list list \<Rightarrow> error + LogData" where
  "extractEvents U s m_allData = extractRows U (getEventIndices s) 0 m_allData"

subsection \<open>getIndex\<close>

fun getIndex :: "string \<Rightarrow> string list \<Rightarrow> error + nat" where
  "getIndex name [] = Inl (InvalidIndexException name)"
| "getIndex name (x # list) =
     (if x = name then Inr 0 else bindE (getIndex name list) (\<lambda>index. Inr (Suc index)))"

subsection \<open>getConcurrentUsage\<close>

text \<open>The local vectors of \<^verbatim>\<open>getConcurrentUsage\<close>, and the table \<open>m_usage\<close> it fills.\<close>

record usageState =
  reservedLicenseUsageCount :: "string list"
  licenseCountsByProduct :: "string list"
  uniqueLicenseCountsByProduct :: "64 word list"
  licenseCountByProductAndUser :: "64 word list list"
  maxLicenseCountsByProduct :: "string list"
  maxreservedLicenseCountsByProduct :: "string list"
  licenseCountNumbers :: "64 word list"
  m_usage :: "string list list"

text \<open>\<^verbatim>\<open>v.at(i) = x\<close>\<close>

definition vector_set :: "'a list \<Rightarrow> nat \<Rightarrow> 'a \<Rightarrow> error + 'a list" where
  "vector_set v i x = (if i < length v then Inr (v[i := x]) else Inl OutOfRange)"

text \<open>\<^verbatim>\<open>m.at(i).at(j) = x\<close>\<close>

definition vector_set2 :: "'a list list \<Rightarrow> nat \<Rightarrow> nat \<Rightarrow> 'a \<Rightarrow> error + 'a list list" where
  "vector_set2 m i j x =
     bindE (vector_at m i) (\<lambda>v. bindE (vector_set v j x) (\<lambda>v'. Inr (m[i := v'])))"

definition licenseCountAdjust :: "utilities \<Rightarrow> 64 word list \<Rightarrow> string list" where
  "licenseCountAdjust U numbers = map (toString_size U) numbers"

text \<open>The five (two, outside the Report Log format) columns of one product.\<close>

definition gatherProduct ::
  "utilities \<Rightarrow> fileFormat \<Rightarrow> string list \<Rightarrow> 64 word list \<Rightarrow> string list \<Rightarrow> string list
     \<Rightarrow> string list \<Rightarrow> nat \<Rightarrow> error + string list" where
  "gatherProduct U fmt licenseUsageCount uniqueCounts maxLicenseUsageCount reservedCount
       maxreservedCounts product =
     bindE (vector_at licenseUsageCount product) (\<lambda>a.
     bindE (vector_at uniqueCounts product) (\<lambda>b.
     if fmt = ReportLog then
       bindE (vector_at maxLicenseUsageCount product) (\<lambda>c.
       bindE (vector_at reservedCount product) (\<lambda>d.
       bindE (vector_at maxreservedCounts product) (\<lambda>e.
       Inr [a, toString_size U b, c, d, e])))
     else Inr [a, toString_size U b]))"

fun gatherLoop :: "(nat \<Rightarrow> error + string list) \<Rightarrow> nat list \<Rightarrow> error + string list" where
  "gatherLoop f [] = Inr []"
| "gatherLoop f (product # products) =
     bindE (f product) (\<lambda>cols. bindE (gatherLoop f products) (\<lambda>rest. Inr (cols @ rest)))"

text \<open>
  \<^verbatim>\<open>gatherConcurrentUsageData\<close> appends one row to \<open>m_usage\<close>: the time stamp of event
  \<open>row\<close>, then the columns of every product.
\<close>

definition gatherConcurrentUsageData :: "utilities \<Rightarrow> LogData \<Rightarrow> nat \<Rightarrow> usageState \<Rightarrow> error + usageState" where
  "gatherConcurrentUsageData U L row st =
     bindE (vector_at2 (m_eventData L) row IndexDate) (\<lambda>date.
     bindE (vector_at2 (m_eventData L) row IndexTime) (\<lambda>time.
     bindE (gatherLoop
              (gatherProduct U (m_fileFormat L) (licenseCountsByProduct st)
                 (uniqueLicenseCountsByProduct st) (maxLicenseCountsByProduct st)
                 (reservedLicenseUsageCount st) (maxreservedLicenseCountsByProduct st))
              [0 ..< length (licenseCountsByProduct st)]) (\<lambda>cols.
     Inr (st\<lparr> m_usage := m_usage st @ [(date @ '' '' @ time) # cols] \<rparr>))))"

text \<open>The total in use as the event reports it (only in the Report Log format).\<close>

definition setTotalUsage :: "LogData \<Rightarrow> nat \<Rightarrow> nat \<Rightarrow> usageState \<Rightarrow> error + usageState" where
  "setTotalUsage L row productCountIndex st =
     (if m_fileFormat L = ReportLog then
        bindE (vector_at2 (m_eventData L) row IndexCount) (\<lambda>count.
        bindE (vector_set (licenseCountsByProduct st) productCountIndex count) (\<lambda>v.
        Inr (st\<lparr> licenseCountsByProduct := v \<rparr>)))
      else Inr st)"

text \<open>
  "Unique usage" of the OUT branch: the live count of the user and product is
  incremented, and the unique count of the product when the live count became 1.
\<close>

definition checkoutCounts :: "nat \<Rightarrow> nat \<Rightarrow> usageState \<Rightarrow> error + usageState" where
  "checkoutCounts userCountIndex productCountIndex st =
     bindE (vector_at2 (licenseCountByProductAndUser st) userCountIndex productCountIndex) (\<lambda>c.
     bindE (vector_set2 (licenseCountByProductAndUser st) userCountIndex productCountIndex (c + 1)) (\<lambda>m.
     bindE (if c + 1 = 1 then
              bindE (vector_at (uniqueLicenseCountsByProduct st) productCountIndex) (\<lambda>n.
              vector_set (uniqueLicenseCountsByProduct st) productCountIndex (n + 1))
            else Inr (uniqueLicenseCountsByProduct st)) (\<lambda>uniq.
     Inr (st\<lparr> licenseCountByProductAndUser := m, uniqueLicenseCountsByProduct := uniq \<rparr>))))"

text \<open>\<^verbatim>\<open>reservedLicenseUsageCount.at(productCountIndex) = m_eventData.at(row).at(9)\<close>\<close>

definition setReservedUsage :: "LogData \<Rightarrow> nat \<Rightarrow> nat \<Rightarrow> usageState \<Rightarrow> error + usageState" where
  "setReservedUsage L row productCountIndex st =
     bindE (vector_at2 (m_eventData L) row 9) (\<lambda>reserved.
     bindE (vector_set (reservedLicenseUsageCount st) productCountIndex reserved) (\<lambda>res.
     Inr (st\<lparr> reservedLicenseUsageCount := res \<rparr>)))"

definition usageOUT :: "utilities \<Rightarrow> LogData \<Rightarrow> nat \<Rightarrow> usageState \<Rightarrow> error + usageState" where
  "usageOUT U L row st0 =
     bindE (vector_at2 (m_eventData L) row IndexProduct) (\<lambda>productName.
     bindE (getIndex productName (m_uniqueProducts L)) (\<lambda>productCountIndex.
     bindE (vector_at2 (m_eventData L) row IndexUser) (\<lambda>userName.
     bindE (getIndex userName (m_uniqueUsers L)) (\<lambda>userCountIndex.
     bindE (setTotalUsage L row productCountIndex st0) (\<lambda>st1.
     bindE (checkoutCounts userCountIndex productCountIndex st1) (\<lambda>st2.
     bindE (setReservedUsage L row productCountIndex st2) (\<lambda>st3.
     gatherConcurrentUsageData U L row st3)))))))"

text \<open>
  The two guarded decrements of the IN branch: the live count of the user and product
  ("Make sure we can't iterate below zero"), then the unique count of the product.
\<close>

definition checkinCounts ::
  "nat \<Rightarrow> nat \<Rightarrow> usageState \<Rightarrow> error + usageState" where
  "checkinCounts userCountIndex productCountIndex st =
     bindE (vector_at2 (licenseCountByProductAndUser st) userCountIndex productCountIndex) (\<lambda>c.
     bindE (if c > 0
            then vector_set2 (licenseCountByProductAndUser st) userCountIndex productCountIndex (c - 1)
            else Inr (licenseCountByProductAndUser st)) (\<lambda>m.
     bindE (vector_at2 m userCountIndex productCountIndex) (\<lambda>c'.
     bindE (if c' = 0 then
              bindE (vector_at (uniqueLicenseCountsByProduct st) productCountIndex) (\<lambda>n.
              if n > 0 then vector_set (uniqueLicenseCountsByProduct st) productCountIndex (n - 1)
              else Inr (uniqueLicenseCountsByProduct st))
            else Inr (uniqueLicenseCountsByProduct st)) (\<lambda>uniq.
     Inr (st\<lparr> licenseCountByProductAndUser := m, uniqueLicenseCountsByProduct := uniq \<rparr>)))))"

text \<open>
  The last \<^verbatim>\<open>if\<close> of the IN branch: when the log reports licences in use and no unique
  user is known, a unique count of 1 is posted for this row only.
\<close>

definition checkinSnapshot ::
  "utilities \<Rightarrow> LogData \<Rightarrow> nat \<Rightarrow> nat \<Rightarrow> usageState \<Rightarrow> error + usageState" where
  "checkinSnapshot U L row productCountIndex st =
     bindE (vector_at (licenseCountsByProduct st) productCountIndex) (\<lambda>total.
     bindE (if 0 <s atoi U total
            then bindE (vector_at (uniqueLicenseCountsByProduct st) productCountIndex) (\<lambda>n. Inr (n = 0))
            else Inr False) (\<lambda>special.
     if special then
       bindE (vector_set (uniqueLicenseCountsByProduct st) productCountIndex 1) (\<lambda>uniq1.
       bindE (gatherConcurrentUsageData U L row (st\<lparr> uniqueLicenseCountsByProduct := uniq1 \<rparr>)) (\<lambda>st'.
       bindE (vector_set (uniqueLicenseCountsByProduct st') productCountIndex 0) (\<lambda>uniq0.
       Inr (st'\<lparr> uniqueLicenseCountsByProduct := uniq0 \<rparr>))))
     else gatherConcurrentUsageData U L row st))"

definition usageIN :: "utilities \<Rightarrow> LogData \<Rightarrow> nat \<Rightarrow> usageState \<Rightarrow> error + usageState" where
  "usageIN U L row st0 =
     bindE (vector_at2 (m_eventData L) row IndexProduct) (\<lambda>productName.
     bindE (getIndex productName (m_uniqueProducts L)) (\<lambda>productCountIndex.
     bindE (vector_at2 (m_eventData L) row IndexUser) (\<lambda>userName.
     bindE (getIndex userName (m_uniqueUsers L)) (\<lambda>userCountIndex.
     bindE (setTotalUsage L row productCountIndex st0) (\<lambda>st1.
     bindE (checkinCounts userCountIndex productCountIndex st1) (\<lambda>st2.
     checkinSnapshot U L row productCountIndex st2))))))"

definition usageSHUTDOWN :: "utilities \<Rightarrow> LogData \<Rightarrow> nat \<Rightarrow> usageState \<Rightarrow> error + usageState" where
  "usageSHUTDOWN U L row st =
     (let numbers = setVectorToZero (licenseCountNumbers st) in
      gatherConcurrentUsageData U L row
        (st\<lparr> licenseCountNumbers := numbers,
              uniqueLicenseCountsByProduct := setVectorToZero (uniqueLicenseCountsByProduct st),
              licenseCountByProductAndUser := setMatrixToZero (licenseCountByProductAndUser st),
              licenseCountsByProduct := licenseCountAdjust U numbers \<rparr>))"

definition usagePRODUCT :: "LogData \<Rightarrow> nat \<Rightarrow> usageState \<Rightarrow> error + usageState" where
  "usagePRODUCT L row st =
     bindE (vector_at2 (m_eventData L) row 1) (\<lambda>tempProduct.
     bindE (getIndex tempProduct (m_uniqueProducts L)) (\<lambda>productCountIndex.
     if m_fileFormat L = ReportLog then
       bindE (vector_at2 (m_eventData L) row 3) (\<lambda>limit.
       bindE (vector_set (maxLicenseCountsByProduct st) productCountIndex limit) (\<lambda>mx.
       bindE (vector_at2 (m_eventData L) row 4) (\<lambda>rlimit.
       bindE (vector_set (maxreservedLicenseCountsByProduct st) productCountIndex rlimit) (\<lambda>mr.
       Inr (st\<lparr> maxLicenseCountsByProduct := mx, maxreservedLicenseCountsByProduct := mr \<rparr>)))))
     else Inr st))"

text \<open>The body of the event loop of \<^verbatim>\<open>getConcurrentUsage\<close> at event \<open>row\<close>.\<close>

definition usageRow :: "utilities \<Rightarrow> LogData \<Rightarrow> usageState \<Rightarrow> nat \<Rightarrow> error + usageState" where
  "usageRow U L st row =
     bindE (vector_at2 (m_eventData L) row IndexEvent) (\<lambda>kind.
     if kind = ''OUT'' then usageOUT U L row st
     else if kind = ''IN'' then usageIN U L row st
     else if kind = ''SHUTDOWN'' then usageSHUTDOWN U L row st
     else if kind = ''PRODUCT'' then usagePRODUCT L row st
     else Inr st)"

fun usageLoop :: "utilities \<Rightarrow> LogData \<Rightarrow> usageState \<Rightarrow> nat list \<Rightarrow> error + usageState" where
  "usageLoop U L st [] = Inr st"
| "usageLoop U L st (row # rows) = bindE (usageRow U L st row) (\<lambda>st'. usageLoop U L st' rows)"

definition usageHeader :: "LogData \<Rightarrow> string list" where
  "usageHeader L =
     ''Date/Time'' #
     concat (map (\<lambda>product.
        if m_fileFormat L = ReportLog then
          [product @ '' Floating Licenses in use'', product @ '' Total Licenses in use'',
           product @ '' Floating Licenses Limit'', product @ '' Reserved Licenses in use'',
           product @ '' Reserved Licenses Limit'']
        else []) (m_uniqueProducts L))"

text \<open>The locals as \<^verbatim>\<open>getConcurrentUsage\<close> initialises them, with the header row pushed.\<close>

definition usageInit :: "LogData \<Rightarrow> usageState" where
  "usageInit L =
     \<lparr> reservedLicenseUsageCount = replicate (length (m_uniqueProducts L)) ''0'',
       licenseCountsByProduct = replicate (length (m_uniqueProducts L)) ''0'',
       uniqueLicenseCountsByProduct = replicate (length (m_uniqueProducts L)) 0,
       licenseCountByProductAndUser =
         replicate (length (m_uniqueUsers L)) (replicate (length (m_uniqueProducts L)) 0),
       maxLicenseCountsByProduct = replicate (length (m_uniqueProducts L)) ''0'',
       maxreservedLicenseCountsByProduct = replicate (length (m_uniqueProducts L)) ''0'',
       licenseCountNumbers = replicate (length (m_uniqueProducts L)) 0,
       m_usage = [usageHeader L] \<rparr>"

definition getConcurrentUsage :: "utilities \<Rightarrow> LogData \<Rightarrow> error + usageState" where
  "getConcurrentUsage U L = usageLoop U L (usageInit L) [0 ..< length (m_eventData L)]"

subsection \<open>getUsageDurationHost and getUsageDurationUser\<close>

text \<open>\<^verbatim>\<open>stringToBoostTime(m_eventData.at(row).at(IndexDate), m_eventData.at(row).at(IndexTime))\<close>\<close>

definition eventTime :: "utilities \<Rightarrow> string list list \<Rightarrow> nat \<Rightarrow> error + int" where
  "eventTime U events row =
     bindE (vector_at2 events row IndexDate) (\<lambda>date.
     bindE (vector_at2 events row IndexTime) (\<lambda>time.
     Inr (stringToBoostTime U date time)))"

text \<open>
  The body of the inner loop at \<open>newRow\<close>: \<open>Some endTime\<close> when the loop is left by
  \<^verbatim>\<open>break\<close> (an IN with the handle, or a SHUTDOWN), \<open>None\<close> when it goes on.
\<close>

definition scanRow :: "utilities \<Rightarrow> string list list \<Rightarrow> string \<Rightarrow> nat \<Rightarrow> error + int option" where
  "scanRow U events handle newRow =
     bindE (vector_at2 events newRow IndexEvent) (\<lambda>kind.
     bindE (if kind = ''IN'' then
              bindE (vector_at2 events newRow IndexHandle) (\<lambda>h.
              if h = handle then bindE (eventTime U events newRow) (\<lambda>t. Inr (Some t))
              else Inr None)
            else Inr None) (\<lambda>checkin.
     case checkin of
       Some t \<Rightarrow> Inr (Some t)
     | None \<Rightarrow>
         if kind = ''SHUTDOWN'' then bindE (eventTime U events newRow) (\<lambda>t. Inr (Some t))
         else Inr None))"

text \<open>
  \<^verbatim>\<open>for (int newRow=row+1; newRow < m_eventData.size(); ++newRow)\<close>, from \<open>newRow\<close> on:
  the end time and \<open>checkInRow\<close>, or \<open>None\<close> when \<open>checkInRow\<close> is still -1 after the loop.
\<close>

function findCheckIn ::
  "utilities \<Rightarrow> string list list \<Rightarrow> string \<Rightarrow> nat \<Rightarrow> error + (int \<times> nat) option" where
  "findCheckIn U events handle newRow =
     (if newRow < length events then
        (case scanRow U events handle newRow of
           Inl e \<Rightarrow> Inl e
         | Inr (Some endTime) \<Rightarrow> Inr (Some (endTime, newRow))
         | Inr None \<Rightarrow> findCheckIn U events handle (Suc newRow))
      else Inr None)"
  by pat_completeness auto
termination
  by (relation "measure (\<lambda>(U, events, handle, newRow). length events - newRow)") auto

text \<open>
  The first half of the body for an OUT event at \<open>row\<close>: the names read from the
  record, the usage duration and \<open>checkInRow\<close>. Without a check-in the end time is that
  of the event \<open>m_endTimeRow\<close>.
\<close>

definition usageDurationOf ::
  "utilities \<Rightarrow> LogData \<Rightarrow> nat \<Rightarrow> error + (string \<times> string \<times> string \<times> int \<times> nat option)" where
  "usageDurationOf U L row =
     bindE (vector_at2 (m_eventData L) row IndexHandle) (\<lambda>handle.
     bindE (vector_at2 (m_eventData L) row IndexProduct) (\<lambda>product.
     bindE (vector_at2 (m_eventData L) row IndexUser) (\<lambda>userName.
     bindE (vector_at2 (m_eventData L) row IndexHost) (\<lambda>hostName.
     bindE (eventTime U (m_eventData L) row) (\<lambda>startTime.
     bindE (findCheckIn U (m_eventData L) handle (row + 1)) (\<lambda>found.
     case found of
       Some (endTime, checkInRow) \<Rightarrow>
         Inr (product, userName, hostName, endTime - startTime, Some checkInRow)
     | None \<Rightarrow>
         (case m_endTimeRow L of
            None \<Rightarrow> Inl IndeterminateRead
          | Some endRow \<Rightarrow>
              bindE (eventTime U (m_eventData L) endRow) (\<lambda>endTime.
              Inr (product, userName, hostName, endTime - startTime, None)))))))))"

text \<open>The second half: the row pushed to the duration table.\<close>

definition durationLine ::
  "utilities \<Rightarrow> LogData \<Rightarrow> nat \<Rightarrow> int \<Rightarrow> nat option \<Rightarrow> error + string list" where
  "durationLine U L row usageDuration checkInRow =
     bindE (vector_at2 (m_eventData L) row IndexDate) (\<lambda>outDate.
     bindE (vector_at2 (m_eventData L) row IndexTime) (\<lambda>outTime.
     bindE (case checkInRow of
              Some r \<Rightarrow>
                bindE (vector_at2 (m_eventData L) r IndexDate) (\<lambda>inDate.
                bindE (vector_at2 (m_eventData L) r IndexTime) (\<lambda>inTime.
                Inr (inDate @ '' '' @ inTime)))
            | None \<Rightarrow> Inr ''(Still checked out)'') (\<lambda>checkIn.
     bindE (vector_at2 (m_eventData L) row IndexProduct) (\<lambda>product.
     bindE (vector_at2 (m_eventData L) row IndexVersion) (\<lambda>version.
     bindE (vector_at2 (m_eventData L) row IndexUser) (\<lambda>user.
     bindE (vector_at2 (m_eventData L) row IndexHost) (\<lambda>host.
     Inr [outDate @ '' '' @ outTime, checkIn, product, version, user, host,
          toString_duration U usageDuration])))))))"

text \<open>\<^verbatim>\<open>m_totalDuration.at(i).at(j) += usageDuration\<close>\<close>

definition addDuration :: "int list list \<Rightarrow> nat \<Rightarrow> nat \<Rightarrow> int \<Rightarrow> error + int list list" where
  "addDuration totals i j usageDuration =
     bindE (vector_at2 totals i j) (\<lambda>d. vector_set2 totals i j (d + usageDuration))"

definition durationHeader :: "string list" where
  "durationHeader =
     [''Checkout Date/Time'', ''Checkin Date/Time'', ''Product'', ''Version'', ''User'', ''Host'',
      ''Duration (HH:MM:SS)'']"

text \<open>
  The body of the outer loop of \<^verbatim>\<open>getUsageDurationHost\<close> at event \<open>row\<close>, on the pair
  (\<open>m_totalDurationh\<close>, \<open>m_usageDurationh\<close>).
\<close>

definition durationHostRow ::
  "utilities \<Rightarrow> LogData \<Rightarrow> int list list \<times> string list list \<Rightarrow> nat
     \<Rightarrow> error + int list list \<times> string list list" where
  "durationHostRow U L acc row =
     bindE (vector_at2 (m_eventData L) row IndexEvent) (\<lambda>kind.
     if kind = ''OUT'' then
       bindE (usageDurationOf U L row) (\<lambda>(product, userName, hostName, usageDuration, checkInRow).
       bindE (getIndex hostName (m_uniqueHosts L)) (\<lambda>i.
       bindE (getIndex product (m_uniqueProducts L)) (\<lambda>j.
       bindE (addDuration (fst acc) i j usageDuration) (\<lambda>totals.
       bindE (durationLine U L row usageDuration checkInRow) (\<lambda>line.
       Inr (totals, snd acc @ [line]))))))
     else Inr acc)"

text \<open>The same for \<^verbatim>\<open>getUsageDurationUser\<close>: the totals are keyed by the user.\<close>

definition durationUserRow ::
  "utilities \<Rightarrow> LogData \<Rightarrow> int list list \<times> string list list \<Rightarrow> nat
     \<Rightarrow> error + int list list \<times> string list list" where
  "durationUserRow U L acc row =
     bindE (vector_at2 (m_eventData L) row IndexEvent) (\<lambda>kind.
     if kind = ''OUT'' then
       bindE (usageDurationOf U L row) (\<lambda>(product, userName, hostName, usageDuration, checkInRow).
       bindE (getIndex userName (m_uniqueUsers L)) (\<lambda>i.
       bindE (getIndex product (m_uniqueProducts L)) (\<lambda>j.
       bindE (addDuration (fst acc) i j usageDuration) (\<lambda>totals.
       bindE (durationLine U L row usageDuration checkInRow) (\<lambda>line.
       Inr (totals, snd acc @ [line]))))))
     else Inr acc)"

fun durationLoop ::
  "('acc \<Rightarrow> nat \<Rightarrow> error + 'acc) \<Rightarrow> 'acc \<Rightarrow> nat list \<Rightarrow> error + 'acc" where
  "durationLoop body acc [] = Inr acc"
| "durationLoop body acc (row # rows) =
     bindE (body acc row) (\<lambda>acc'. durationLoop body acc' rows)"

definition getUsageDurationHost ::
  "utilities \<Rightarrow> LogData \<Rightarrow> error + int list list \<times> string list list" where
  "getUsageDurationHost U L =
     durationLoop (durationHostRow U L)
       (replicate (length (m_uniqueHosts L)) (replicate (length (m_uniqueProducts L)) 0),
        [durationHeader])
       [0 ..< length (m_eventData L)]"

definition getUsageDurationUser ::
  "utilities \<Rightarrow> LogData \<Rightarrow> error + int list list \<times> string list list" where
  "getUsageDurationUser U L =
     durationLoop (durationUserRow U L)
       (replicate (length (m_uniqueUsers L)) (replicate (length (m_uniqueProducts L)) 0),
        [durationHeader])
       [0 ..< length (m_eventData L)]"

subsection \<open>An instance of the helpers\<close>

text \<open>
  One concrete choice of the helpers, for running the model on concrete logs: tokens are
  the maximal runs of characters outside the delimiters, numbers are read and printed in
  decimal, a duration is printed as HH:MM:SS, and the clock counts seconds in a
  simplified calendar of twelve months of 31 days. The theorems below hold for every
  choice of the helpers; this one only serves to evaluate them.
\<close>

fun splitAcc :: "string \<Rightarrow> string \<Rightarrow> string \<Rightarrow> string list" where
  "splitAcc delimiters acc [] = (if acc = [] then [] else [acc])"
| "splitAcc delimiters acc (c # cs) =
     (if c \<in> set delimiters
      then (if acc = [] then splitAcc delimiters [] cs else acc # splitAcc delimiters [] cs)
      else splitAcc delimiters (acc @ [c]) cs)"

definition sampleTokenize :: "string \<Rightarrow> string \<Rightarrow> string list" where
  "sampleTokenize delimiters str = splitAcc delimiters [] str"

fun positionIn :: "char \<Rightarrow> string \<Rightarrow> nat option" where
  "positionIn c [] = None"
| "positionIn c (d # ds) = (if c = d then Some 0 else map_option Suc (positionIn c ds))"

definition digitOf :: "char \<Rightarrow> nat option" where
  "digitOf c = positionIn c ''0123456789''"

fun readDigits :: "nat \<Rightarrow> string \<Rightarrow> nat" where
  "readDigits n [] = n"
| "readDigits n (c # cs) =
     (case digitOf c of Some d \<Rightarrow> readDigits (10 * n + d) cs | None \<Rightarrow> n)"

definition sampleAtoi :: "string \<Rightarrow> 32 word" where
  "sampleAtoi str = word_of_nat (readDigits 0 str)"

definition digitChar :: "nat \<Rightarrow> char" where
  "digitChar d = ''0123456789'' ! d"

function showNat :: "nat \<Rightarrow> string" where
  "showNat n = (if n < 10 then [digitChar n] else showNat (n div 10) @ [digitChar (n mod 10)])"
  by pat_completeness auto
termination
  by (relation "measure (\<lambda>n. n)") auto

definition sampleToStringInt :: "32 word \<Rightarrow> string" where
  "sampleToStringInt w =
     (if sint w < 0 then CHR ''-'' # showNat (nat (- sint w)) else showNat (nat (sint w)))"

definition sampleToStringSize :: "64 word \<Rightarrow> string" where
  "sampleToStringSize w = showNat (unat w)"

definition pad2 :: "nat \<Rightarrow> string" where
  "pad2 n = (if n < 10 then CHR ''0'' # showNat n else showNat n)"

definition sampleToStringDuration :: "int \<Rightarrow> string" where
  "sampleToStringDuration d =
     (let n = nat \<bar>d\<bar> in
      (if d < 0 then ''-'' else []) @
      pad2 (n div 3600) @ '':'' @ pad2 (n div 60 mod 60) @ '':'' @ pad2 (n mod 60))"

definition numberAt :: "string list \<Rightarrow> nat \<Rightarrow> nat" where
  "numberAt toks i = (if i < length toks then readDigits 0 (toks ! i) else 0)"

definition sampleStringToBoostTime :: "string \<Rightarrow> string \<Rightarrow> int" where
  "sampleStringToBoostTime date time =
     (let d = sampleTokenize ''/'' date; t = sampleTokenize '':'' time in
      int (((numberAt d 2 * 12 + numberAt d 0) * 31 + numberAt d 1) * 86400
           + numberAt t 0 * 3600 + numberAt t 1 * 60 + numberAt t 2))"

definition sampleUtilities :: utilities where
  "sampleUtilities =
     \<lparr> tokenizeString = sampleTokenize, atoi = sampleAtoi, toString_int = sampleToStringInt,
       toString_size = sampleToStringSize, toString_duration = sampleToStringDuration,
       stringToBoostTime = sampleStringToBoostTime \<rparr>"

text \<open>
  Tokenised rows of a small Report Log, in the column layout of LogData.h: a START and a
  PRODUCT line, a check-in whose check-out lies before the start of the log, two check-outs,
  the check-in of the first of them just after the turn of the year (the second is
  never returned), and a denial.
\<close>

definition rowSTART :: "string list" where
  "rowSTART = [''START'', ''licsrv'', ''12/31/2022'', ''23:50'']"

definition rowPRODUCT :: "string list" where
  "rowPRODUCT = [''PRODUCT'', ''imaris'', ''9.8'', ''1'', ''5'', ''2'']"

definition rowIN_early :: "string list" where
  "rowIN_early = [''IN'', ''1'', ''imaris'', ''9.8'', ''alice'', ''ws01'', ''isv'', ''1'', ''2'', ''0'',
                  ''40'', ''12/31'', ''23:55'']"

definition rowOUT :: "string list" where
  "rowOUT = [''OUT'', ''imaris'', ''9.8'', ''1'', ''alice'', ''ws01'', ''isv'', ''1'', ''3'', ''1'',
             ''41'', ''41'', ''77'', ''prj'', ''imaris'', ''9.8'', ''12/31'', ''23:59'']"

definition rowIN :: "string list" where
  "rowIN = [''IN'', ''1'', ''imaris'', ''9.8'', ''alice'', ''ws01'', ''isv'', ''1'', ''3'', ''0'',
            ''41'', ''01/01'', ''00:00'']"

definition rowOUT_open :: "string list" where
  "rowOUT_open = [''OUT'', ''imaris'', ''9.8'', ''1'', ''bob'', ''ws02'', ''isv'', ''1'', ''4'', ''0'',
                  ''42'', ''42'', ''78'', ''prj'', ''imaris'', ''9.8'', ''12/31'', ''23:59'']"

definition rowDENY :: "string list" where
  "rowDENY = [''DENY'', ''imaris'', ''9.8'', ''carol'', ''ws03'', ''isv'', ''1'', ''-22'', ''0'', ''79'',
              ''01/01'', ''10:00'']"

definition rowSHUTDOWN :: "string list" where
  "rowSHUTDOWN = [''SHUTDOWN'', ''root'', ''licsrv'', ''01/02'', ''08:00'']"

definition sampleRows :: "string list list" where
  "sampleRows = [rowSTART, rowPRODUCT, rowIN_early, rowOUT, rowOUT_open, rowIN, rowDENY]"

text \<open>The members of \<^verbatim>\<open>LogData\<close> after the extraction of these rows.\<close>

definition sampleLog :: LogData where
  "sampleLog = (getEventIndices (newLogData ReportLog))
     \<lparr> m_eventData :=
         [[''START'', ''12/31/2022'', ''23:50'', ''licsrv''],
          [''PRODUCT'', ''imaris'', ''9.8'', ''5'', ''2''],
          [''IN'', ''12/31/2022'', ''23:55'', ''imaris'', ''9.8'', ''alice'', ''ws01'', ''2'', ''40'', ''0''],
          [''OUT'', ''12/31/2022'', ''23:59'', ''imaris'', ''9.8'', ''alice'', ''ws01'', ''3'', ''41'', ''1''],
          [''OUT'', ''12/31/2022'', ''23:59'', ''imaris'', ''9.8'', ''bob'', ''ws02'', ''4'', ''42'', ''0''],
          [''IN'', ''01/01/2023'', ''00:00'', ''imaris'', ''9.8'', ''alice'', ''ws01'', ''3'', ''41'', ''0''],
          [''DENY'', ''01/01/2023'', ''10:00'', ''imaris'', ''9.8'', ''carol'', ''ws03'', ''-22'', ''-22'']],
       m_startEvents := [[''START'', ''12/31/2022'', ''23:50'', ''licsrv'']],
       m_denialEvents :=
         [[''DENY'', ''01/01/2023'', ''10:00'', ''imaris'', ''9.8'', ''carol'', ''ws03'', ''-22'', ''-22'']],
       m_uniqueProducts := [''imaris''],
       m_uniqueUsers := [''alice'', ''bob'', ''carol''],
       m_uniqueHosts := [''ws01'', ''ws02'', ''ws03''],
       m_eventYear := ''2023'',
       m_serverName := ''licsrv'',
       m_endTimeRow := Some 6 \<rparr>"

text \<open>The same after the extraction of one more row, a SHUTDOWN.\<close>

definition shutdownLog :: LogData where
  "shutdownLog = sampleLog
     \<lparr> m_eventData := m_eventData sampleLog @ [[''SHUTDOWN'', ''01/02/2023'', ''08:00'']],
       m_shutdownEvents := [[''SHUTDOWN'', ''01/02/2023'', ''08:00'']],
       m_endTimeRow := Some 7 \<rparr>"

subsection \<open>Notions used in the statements about extraction\<close>

text \<open>
  \<open>tablesLoaded\<close>: the index tables are as \<open>getEventIndices\<close> fills them for a
  Report Log. \<open>kindIndices\<close> is the table of an event kind, \<open>stampedKind\<close> holds of
  the kinds whose branch calls \<open>addYearToDate\<close>, \<open>isYearMarker\<close> is the test of the
  extraction loop for a row that sets the year, and \<open>isEventRow\<close> holds of the rows
  whose first field is one of the six event kinds.
\<close>

definition tablesLoaded :: "LogData \<Rightarrow> bool" where
  "tablesLoaded s \<longleftrightarrow>
     m_fileFormat s = ReportLog \<and> m_eventIndex s = 0 \<and>
     m_OUTindices s = [0, 16, 17, 1, 2, 4, 5, 8, 10, 9] \<and>
     m_INindices s = [0, 11, 12, 2, 3, 4, 5, 8, 10, 9] \<and>
     m_DENYindices s = [0, 10, 11, 1, 2, 3, 4, 7, 7] \<and>
     m_STARTindices s = [0, 2, 3, 1] \<and>
     m_SHUTindices s = [0, 3, 4] \<and>
     m_PRODUCTindices s = [0, 1, 2, 4, 5]"

definition stampedKind :: "string \<Rightarrow> bool" where
  "stampedKind kind \<longleftrightarrow> kind = ''OUT'' \<or> kind = ''IN'' \<or> kind = ''DENY'' \<or> kind = ''SHUTDOWN''"

definition kindIndices :: "string \<Rightarrow> nat list" where
  "kindIndices kind =
     (if kind = ''OUT'' then [0, 16, 17, 1, 2, 4, 5, 8, 10, 9]
      else if kind = ''IN'' then [0, 11, 12, 2, 3, 4, 5, 8, 10, 9]
      else if kind = ''DENY'' then [0, 10, 11, 1, 2, 3, 4, 7, 7]
      else if kind = ''START'' then [0, 2, 3, 1]
      else if kind = ''SHUTDOWN'' then [0, 3, 4]
      else if kind = ''PRODUCT'' then [0, 1, 2, 4, 5]
      else [])"

definition isYearMarker :: "utilities \<Rightarrow> string list \<Rightarrow> bool" where
  "isYearMarker U r \<longleftrightarrow> length r = 2 \<and> length (tokenizeString U ''/'' (r ! 0)) = 3"

definition isEventRow :: "string list \<Rightarrow> bool" where
  "isEventRow r \<longleftrightarrow> r \<noteq> [] \<and> kindIndices (r ! 0) \<noteq> []"

subsection \<open>The event table as the specification describes it\<close>

text \<open>
  The Event Extractor in the words of the specification, to be compared with
  \<open>extractEvents\<close>. \<open>specYearAfter U y r\<close> is the ambient year once row \<open>r\<close> is read, \<open>y\<close>
  being the ambient year before it: "a row with exactly 2 fields separated by / into 3
  parts is treated as a bare year-marker line; it updates the ambient current year";
  for an OUT, IN, DENY or SHUTDOWN record, "if the date reads 01/01 and the time reads
  00:00, increment the ambient year before stamping" (the time reads 00:00 when its
  first two parts at ":" are "00" and "00"); "START events extract the year directly
  from the START record's own date field and reset ambient year state from it".
  \<open>specRecord r y\<close> is the record of an event row: the row projected onto the columns
  of its kind, the date of an OUT, IN, DENY or SHUTDOWN record followed by "/" and the
  year \<open>y\<close>. \<open>specRecords U y rows\<close> is the table of the records of the event rows of
  \<open>rows\<close>, each stamped with the ambient year that its own row leaves.
\<close>

definition specYearAfter :: "utilities \<Rightarrow> string \<Rightarrow> string list \<Rightarrow> string" where
  "specYearAfter U y r =
     (if isYearMarker U r then tokenizeString U ''/'' (r ! 0) ! 2
      else if r = [] then y
      else if stampedKind (r ! 0) then
        (if r ! (kindIndices (r ! 0) ! IndexDate) = ''01/01'' \<and>
            take 2 (tokenizeString U '':'' (r ! (kindIndices (r ! 0) ! IndexTime))) = [''00'', ''00'']
         then toString_int U (atoi U y + 1) else y)
      else if r ! 0 = ''START'' then tokenizeString U ''/'' (r ! 2) ! 2
      else y)"

definition specRecord :: "string list \<Rightarrow> string \<Rightarrow> string list" where
  "specRecord r y =
     (if stampedKind (r ! 0)
      then (map ((!) r) (kindIndices (r ! 0)))
             [IndexDate := r ! (kindIndices (r ! 0) ! IndexDate) @ ''/'' @ y]
      else map ((!) r) (kindIndices (r ! 0)))"

fun specRecords :: "utilities \<Rightarrow> string \<Rightarrow> string list list \<Rightarrow> string list list" where
  "specRecords U y [] = []"
| "specRecords U y (r # rows) =
     (if isEventRow r then [specRecord r (specYearAfter U y r)] else []) @
     specRecords U (specYearAfter U y r) rows"

text \<open>
  \<open>fourDigitYear\<close>: a string of four decimal digits. \<open>endsWithYear d\<close>: the date \<open>d\<close> ends
  with "/" and a 4-digit year. \<open>validReportLog U y rows\<close>, for rows read from the
  ambient year \<open>y\<close>: the year in force at each OUT, IN, DENY and SHUTDOWN row (the one
  of the last START row or year marker, advanced by the rollover rule) is a 4-digit
  year, and the date of each START row is a full date, ending with its year. A log whose
  first event comes before any START row and year marker is not valid: the year in
  force there is still the empty string.
\<close>

definition fourDigitYear :: "string \<Rightarrow> bool" where
  "fourDigitYear y \<longleftrightarrow> length y = 4 \<and> list_all (\<lambda>c. c \<in> set ''0123456789'') y"

definition endsWithYear :: "string \<Rightarrow> bool" where
  "endsWithYear d \<longleftrightarrow>
     5 \<le> length d \<and> d ! (length d - 5) = CHR ''/'' \<and> fourDigitYear (drop (length d - 4) d)"

fun validReportLog :: "utilities \<Rightarrow> string \<Rightarrow> string list list \<Rightarrow> bool" where
  "validReportLog U y [] = True"
| "validReportLog U y (r # rows) =
     ((r = [] \<or> \<not> stampedKind (r ! 0) \<or> fourDigitYear (specYearAfter U y r)) \<and>
      (r = [] \<or> r ! 0 \<noteq> ''START'' \<or> endsWithYear (r ! 2)) \<and>
      validReportLog U (specYearAfter U y r) rows)"

subsection \<open>Observations on the usage table\<close>

text \<open>
  \<open>usageShape\<close>: the local vectors have one entry per product, and the matrix of live
  counts one row per user. \<open>productBlock\<close>: the five columns of a product in a
  snapshot row, after the time stamp. \<open>blockOf\<close> and \<open>snapshotRow\<close>: these columns
  and the whole row as \<open>gatherConcurrentUsageData\<close> builds them from a state.
  \<open>productIndexOf\<close> and \<open>userIndexOf\<close>: the registry index of the product and of the
  user of an event, as the OUT and IN branches compute them.
\<close>

definition usageShape :: "LogData \<Rightarrow> usageState \<Rightarrow> bool" where
  "usageShape L st \<longleftrightarrow>
     length (reservedLicenseUsageCount st) = length (m_uniqueProducts L) \<and>
     length (licenseCountsByProduct st) = length (m_uniqueProducts L) \<and>
     length (uniqueLicenseCountsByProduct st) = length (m_uniqueProducts L) \<and>
     length (maxLicenseCountsByProduct st) = length (m_uniqueProducts L) \<and>
     length (maxreservedLicenseCountsByProduct st) = length (m_uniqueProducts L) \<and>
     length (licenseCountNumbers st) = length (m_uniqueProducts L) \<and>
     length (licenseCountByProductAndUser st) = length (m_uniqueUsers L) \<and>
     (\<forall>u < length (m_uniqueUsers L).
        length (licenseCountByProductAndUser st ! u) = length (m_uniqueProducts L))"

definition productBlock :: "string list \<Rightarrow> nat \<Rightarrow> string list" where
  "productBlock snapshot p = take 5 (drop (1 + 5 * p) snapshot)"

definition blockOf :: "utilities \<Rightarrow> usageState \<Rightarrow> nat \<Rightarrow> string list" where
  "blockOf U st p =
     [licenseCountsByProduct st ! p, toString_size U (uniqueLicenseCountsByProduct st ! p),
      maxLicenseCountsByProduct st ! p, reservedLicenseUsageCount st ! p,
      maxreservedLicenseCountsByProduct st ! p]"

definition snapshotRow :: "utilities \<Rightarrow> LogData \<Rightarrow> nat \<Rightarrow> usageState \<Rightarrow> string list" where
  "snapshotRow U L row st =
     (m_eventData L ! row ! IndexDate @ '' '' @ m_eventData L ! row ! IndexTime) #
     concat (map (blockOf U st) [0 ..< length (m_uniqueProducts L)])"

definition productIndexOf :: "LogData \<Rightarrow> nat \<Rightarrow> error + nat" where
  "productIndexOf L row =
     bindE (vector_at2 (m_eventData L) row IndexProduct) (\<lambda>name. getIndex name (m_uniqueProducts L))"

definition userIndexOf :: "LogData \<Rightarrow> nat \<Rightarrow> error + nat" where
  "userIndexOf L row =
     bindE (vector_at2 (m_eventData L) row IndexUser) (\<lambda>name. getIndex name (m_uniqueUsers L))"

subsection \<open>Notions used in the statements about durations\<close>

text \<open>
  \<open>closes events handle k\<close>: event \<open>k\<close> ends the inner loop for a check-out with this
  handle (an IN with the handle, or a SHUTDOWN). \<open>isOUT\<close>: the event is a check-out.
  \<open>timeOf\<close> and \<open>stampOf\<close>: the time of an event as \<open>stringToBoostTime\<close> reads it,
  and its date and time as the tables print them. \<open>durationEntry\<close>: the line is the
  one the loop body pushes for the check-out at \<open>row\<close>. \<open>lastTimestamped events e\<close>:
  \<open>e\<close> is the last event that is not a PRODUCT event, the only kind without a date
  and time (\<open>None\<close> when there is none).
\<close>

definition closes :: "string list list \<Rightarrow> string \<Rightarrow> nat \<Rightarrow> bool" where
  "closes events handle k \<longleftrightarrow>
     vector_at2 events k IndexEvent = Inr ''IN'' \<and> vector_at2 events k IndexHandle = Inr handle
     \<or> vector_at2 events k IndexEvent = Inr ''SHUTDOWN''"

definition isOUT :: "LogData \<Rightarrow> nat \<Rightarrow> bool" where
  "isOUT L row \<longleftrightarrow> vector_at2 (m_eventData L) row IndexEvent = Inr ''OUT''"

definition timeOf :: "utilities \<Rightarrow> LogData \<Rightarrow> nat \<Rightarrow> int" where
  "timeOf U L row =
     stringToBoostTime U (m_eventData L ! row ! IndexDate) (m_eventData L ! row ! IndexTime)"

definition stampOf :: "LogData \<Rightarrow> nat \<Rightarrow> string" where
  "stampOf L row = m_eventData L ! row ! IndexDate @ '' '' @ m_eventData L ! row ! IndexTime"

definition durationEntry :: "utilities \<Rightarrow> LogData \<Rightarrow> nat \<Rightarrow> string list \<Rightarrow> bool" where
  "durationEntry U L row line \<longleftrightarrow>
     (\<exists>product userName hostName usageDuration checkInRow.
        usageDurationOf U L row = Inr (product, userName, hostName, usageDuration, checkInRow) \<and>
        durationLine U L row usageDuration checkInRow = Inr line)"

definition lastTimestamped :: "string list list \<Rightarrow> nat option \<Rightarrow> bool" where
  "lastTimestamped events endRow \<longleftrightarrow>
     (case endRow of
        None \<Rightarrow> (\<forall>k < length events. events ! k ! IndexEvent = ''PRODUCT'')
      | Some e \<Rightarrow> e < length events \<and> events ! e ! IndexEvent \<noteq> ''PRODUCT'' \<and>
          (\<forall>k. e < k \<and> k < length events \<longrightarrow> events ! k ! IndexEvent = ''PRODUCT''))"

section \<open>Properties\<close>

subsection \<open>Sequencing and vector access\<close>

lemma bindE_Inr [simp]: "bindE (Inr x) f = f x"
  by (simp add: bindE_def)

lemma bindE_Inl [simp]: "bindE (Inl e) f = Inl e"
  by (simp add: bindE_def)

lemma bindE_eq_Inr: "bindE m f = Inr y \<longleftrightarrow> (\<exists>x. m = Inr x \<and> f x = Inr y)"
  by (cases m) simp_all

lemma vector_at_eq_Inr: "vector_at v i = Inr x \<longleftrightarrow> i < length v \<and> x = v ! i"
  by (auto simp: vector_at_def)

lemma vector_at2_eq_Inr:
  "vector_at2 m i j = Inr x \<longleftrightarrow> i < length m \<and> j < length (m ! i) \<and> x = m ! i ! j"
  by (auto simp: vector_at2_def bindE_eq_Inr vector_at_eq_Inr)

lemma vector_set_eq_Inr: "vector_set v i x = Inr v' \<longleftrightarrow> i < length v \<and> v' = v[i := x]"
  by (auto simp: vector_set_def)

lemma vector_set2_eq_Inr:
  "vector_set2 m i j x = Inr m' \<longleftrightarrow>
     i < length m \<and> j < length (m ! i) \<and> m' = m[i := (m ! i)[j := x]]"
  by (auto simp: vector_set2_def bindE_eq_Inr vector_at_eq_Inr vector_set_eq_Inr)

subsection \<open>Format detection\<close>

text \<open>
  The loop returns what the first line with a marker says, wherever that line is.
\<close>

lemma findFileFormat_loop_first:
  assumes "line \<le> k" and "k < length raw"
    and "\<forall>i. line \<le> i \<and> i < k \<longrightarrow> findFileFormat_line (raw ! i) = None"
    and "findFileFormat_line (raw ! k) = Some r"
  shows "findFileFormat_loop raw line = r"
  using assms
proof (induction "k - line" arbitrary: line)
  case 0
  then have "line = k" by simp
  with "0.prems" show ?case by simp
next
  case (Suc n)
  then have lt: "line < k" by simp
  with Suc.prems have here: "findFileFormat_line (raw ! line) = None" by simp
  from Suc.hyps(2) lt have "n = k - Suc line" by simp
  from Suc.hyps(1) [OF this] Suc.prems lt
  have "findFileFormat_loop raw (Suc line) = r" by simp
  with here lt Suc.prems(2) show ?case by simp
qed

text \<open>
  C2. The claim: the detector inspects only the first 20 raw lines, so a file without a
  marker in that prefix is rejected with InvalidFormat whatever comes after line 20.
  The loop of \<open>findFileFormat\<close> runs over all of \<open>m_rawData\<close>: a file whose first 20
  lines carry no marker and whose 21st line is the Report Log marker is accepted as a
  Report Log.
\<close>

theorem findFileFormat_marker_after_line_20:
  "findFileFormat (replicate 20 ''# no marker on this line'' @ [''RLM Report Log Format, version 1.0''])
     = Inr ReportLog"
  by (simp add: findFileFormat_def findFileFormat_line_def nth_append)

subsection \<open>Rows with too few fields\<close>

text \<open>
  The three outcomes of \<open>loadEventIntoVector\<close>: EventDataException for a row with
  fewer fields than the table has entries, \<^verbatim>\<open>std::out_of_range\<close> for a longer row that
  lacks one of the columns, the record otherwise.
\<close>

lemma projectRow_outcome:
  "projectRow r indices =
     (if \<forall>i \<in> set indices. i < length r then Inr (map ((!) r) indices) else Inl OutOfRange)"
  by (induction indices) (auto simp: vector_at_def)

lemma loadEventIntoVector_outcome:
  "loadEventIntoVector r row indices s =
     (if length r < length indices then Inl (EventDataException (row + 1))
      else if \<forall>i \<in> set indices. i < length r
           then Inr (s\<lparr> m_eventData := m_eventData s @ [map ((!) r) indices] \<rparr>)
           else Inl OutOfRange)"
  by (simp add: loadEventIntoVector_def projectRow_outcome)

text \<open>
  C1. The claim: a row of a known kind fails with EventDataException (carrying the 1-based
  row number) exactly when it has fewer fields than the columns of its kind require, for
  OUT every column up to 17. \<open>loadEventIntoVector\<close> compares the row's size with the
  number of mapped columns (10 for OUT), not with the largest source column: an OUT row
  of 12 fields passes the test and \<^verbatim>\<open>allDataRow.at(16)\<close> throws \<^verbatim>\<open>std::out_of_range\<close>.
\<close>

theorem extractEvents_short_OUT_row:
  "extractEvents U (newLogData ReportLog)
     [[''OUT'', ''imaris'', ''9.8'', ''1'', ''alice'', ''ws01'', ''isv'', ''1'', ''1'', ''0'',
       ''41'', ''41'']] = Inl OutOfRange"
  by (simp add: extractEvents_def getEventIndices_def newLogData_def extractRow_def
        yearMarker_def extractOUT_def loadNamedEvent_def loadEventIntoVector_def
        vector_at_def)

subsection \<open>The concurrency replay\<close>

lemmas usage_eval =
  usageRow_def usageOUT_def usageIN_def usageSHUTDOWN_def usagePRODUCT_def
  setTotalUsage_def checkoutCounts_def setReservedUsage_def checkinCounts_def
  checkinSnapshot_def gatherConcurrentUsageData_def gatherProduct_def licenseCountAdjust_def
  setVectorToZero_def setMatrixToZero_def usageInit_def usageHeader_def
  vector_at_def vector_at2_def vector_set_def vector_set2_def
  sampleLog_def shutdownLog_def getEventIndices_def newLogData_def
  sampleUtilities_def sampleAtoi_def sampleToStringSize_def digitOf_def digitChar_def
  productIndexOf_def userIndexOf_def word_sless_alt

lemma gatherLoop_all:
  "(\<forall>p \<in> set ps. f p = Inr (g p)) \<Longrightarrow> gatherLoop f ps = Inr (concat (map g ps))"
  by (induction ps) simp_all

lemma gatherProduct_shape:
  assumes "usageShape L st" and "m_fileFormat L = ReportLog" and "p < length (m_uniqueProducts L)"
  shows "gatherProduct U (m_fileFormat L) (licenseCountsByProduct st)
           (uniqueLicenseCountsByProduct st) (maxLicenseCountsByProduct st)
           (reservedLicenseUsageCount st) (maxreservedLicenseCountsByProduct st) p
         = Inr (blockOf U st p)"
  using assms by (simp add: gatherProduct_def usageShape_def vector_at_def blockOf_def)

lemma gatherConcurrentUsageData_result:
  assumes shape: "usageShape L st" and fmt: "m_fileFormat L = ReportLog"
    and run: "gatherConcurrentUsageData U L row st = Inr st'"
  shows "st' = st\<lparr> m_usage := m_usage st @ [snapshotRow U L row st] \<rparr>"
proof -
  have n: "length (licenseCountsByProduct st) = length (m_uniqueProducts L)"
    using shape by (simp add: usageShape_def)
  have loop: "gatherLoop
          (gatherProduct U (m_fileFormat L) (licenseCountsByProduct st)
             (uniqueLicenseCountsByProduct st) (maxLicenseCountsByProduct st)
             (reservedLicenseUsageCount st) (maxreservedLicenseCountsByProduct st))
          [0 ..< length (licenseCountsByProduct st)]
        = Inr (concat (map (blockOf U st) [0 ..< length (m_uniqueProducts L)]))"
    unfolding n by (rule gatherLoop_all) (simp add: gatherProduct_shape [OF shape fmt])
  from run show ?thesis
    unfolding gatherConcurrentUsageData_def loop
    by (auto simp: bindE_eq_Inr vector_at2_eq_Inr snapshotRow_def)
qed

lemma length_concat_blocks:
  "(\<forall>p < n. length (g p) = 5) \<Longrightarrow> length (concat (map g [0 ..< n])) = 5 * n"
  by (induction n) simp_all

lemma block_of_concat:
  "(\<forall>q < n. length (g q) = 5) \<Longrightarrow> p < n \<Longrightarrow> take 5 (drop (5 * p) (concat (map g [0 ..< n]))) = g p"
proof (induction n)
  case 0
  then show ?case by simp
next
  case (Suc n)
  have len: "length (concat (map g [0 ..< n])) = 5 * n"
    using Suc.prems(1) by (simp add: length_concat_blocks)
  show ?case
  proof (cases "p < n")
    case True
    then have "take 5 (drop (5 * p) (concat (map g [0 ..< n]))) = g p"
      using Suc by simp
    with True show ?thesis by (simp add: len)
  next
    case False
    with Suc.prems have "p = n" by simp
    with Suc.prems show ?thesis by (simp add: len)
  qed
qed

lemma productBlock_snapshotRow:
  "p < length (m_uniqueProducts L) \<Longrightarrow> productBlock (snapshotRow U L row st) p = blockOf U st p"
  unfolding productBlock_def snapshotRow_def
  by (simp add: block_of_concat blockOf_def)

lemma getIndex_Inr: "getIndex name list = Inr i \<Longrightarrow> i < length list \<and> list ! i = name"
  by (induction list arbitrary: i) (auto simp: bindE_eq_Inr split: if_splits)

lemma productIndexOf_less: "productIndexOf L row = Inr p \<Longrightarrow> p < length (m_uniqueProducts L)"
  by (auto simp: productIndexOf_def bindE_eq_Inr dest: getIndex_Inr)

lemma userIndexOf_less: "userIndexOf L row = Inr u \<Longrightarrow> u < length (m_uniqueUsers L)"
  by (auto simp: userIndexOf_def bindE_eq_Inr dest: getIndex_Inr)

lemma setTotalUsage_result:
  assumes "m_fileFormat L = ReportLog" and "setTotalUsage L row p st = Inr st1"
  shows "\<exists>count. vector_at2 (m_eventData L) row IndexCount = Inr count \<and>
           st1 = st\<lparr> licenseCountsByProduct := (licenseCountsByProduct st)[p := count] \<rparr>"
  using assms by (auto simp: setTotalUsage_def bindE_eq_Inr vector_set_eq_Inr)

lemma checkinCounts_result:
  assumes "checkinCounts u p st = Inr st2"
  shows "u < length (licenseCountByProductAndUser st) \<and>
         p < length (licenseCountByProductAndUser st ! u) \<and>
         st2 = st\<lparr> licenseCountByProductAndUser :=
                    (if 0 < licenseCountByProductAndUser st ! u ! p
                     then (licenseCountByProductAndUser st)
                            [u := (licenseCountByProductAndUser st ! u)
                               [p := licenseCountByProductAndUser st ! u ! p - 1]]
                     else licenseCountByProductAndUser st),
                  uniqueLicenseCountsByProduct :=
                    (if (if 0 < licenseCountByProductAndUser st ! u ! p
                         then licenseCountByProductAndUser st ! u ! p - 1
                         else licenseCountByProductAndUser st ! u ! p) = 0
                        \<and> 0 < uniqueLicenseCountsByProduct st ! p
                     then (uniqueLicenseCountsByProduct st)
                            [p := uniqueLicenseCountsByProduct st ! p - 1]
                     else uniqueLicenseCountsByProduct st) \<rparr>"
  using assms
  apply (simp add: checkinCounts_def bindE_eq_Inr vector_at2_eq_Inr vector_set2_eq_Inr vector_at_eq_Inr vector_set_eq_Inr split: if_splits)
  done

lemma checkinSnapshot_result:
  assumes shape: "usageShape L st" and fmt: "m_fileFormat L = ReportLog"
    and p: "p < length (m_uniqueProducts L)"
    and run: "checkinSnapshot U L row p st = Inr st'"
  shows "st' =
     (if 0 <s atoi U (licenseCountsByProduct st ! p) \<and> uniqueLicenseCountsByProduct st ! p = 0
      then st\<lparr> uniqueLicenseCountsByProduct := (uniqueLicenseCountsByProduct st)[p := 0],
               m_usage := m_usage st @
                 [snapshotRow U L row
                    (st\<lparr> uniqueLicenseCountsByProduct := (uniqueLicenseCountsByProduct st)[p := 1] \<rparr>)] \<rparr>
      else st\<lparr> m_usage := m_usage st @ [snapshotRow U L row st] \<rparr>)"
proof -
  let ?st1 = "st\<lparr> uniqueLicenseCountsByProduct := (uniqueLicenseCountsByProduct st)[p := 1] \<rparr>"
  have shape1: "usageShape L ?st1"
    using shape by (simp add: usageShape_def)
  have lens: "p < length (licenseCountsByProduct st)" "p < length (uniqueLicenseCountsByProduct st)"
    using shape p by (simp_all add: usageShape_def)
  show ?thesis
  proof (cases "0 <s atoi U (licenseCountsByProduct st ! p) \<and> uniqueLicenseCountsByProduct st ! p = 0")
    case True
    with run lens obtain st1' where
      g: "gatherConcurrentUsageData U L row ?st1 = Inr st1'" and
      r: "st' = st1'\<lparr> uniqueLicenseCountsByProduct := (uniqueLicenseCountsByProduct st1')[p := 0] \<rparr>"
      by (auto simp: checkinSnapshot_def bindE_eq_Inr vector_at_def vector_set_def split: if_splits)
    from gatherConcurrentUsageData_result [OF shape1 fmt g] r True show ?thesis
      by simp
  next
    case False
    with run lens have g: "gatherConcurrentUsageData U L row st = Inr st'"
      by (auto simp: checkinSnapshot_def bindE_eq_Inr vector_at_def vector_set_def split: if_splits)
    from gatherConcurrentUsageData_result [OF shape fmt g] False show ?thesis
      by auto
  qed
qed

lemma usageIN_result:
  assumes shape: "usageShape L st" and fmt: "m_fileFormat L = ReportLog"
    and run: "usageIN U L row st = Inr st'"
  shows "\<exists>p u count st2.
           productIndexOf L row = Inr p \<and> userIndexOf L row = Inr u \<and>
           vector_at2 (m_eventData L) row IndexCount = Inr count \<and>
           checkinCounts u p (st\<lparr> licenseCountsByProduct := (licenseCountsByProduct st)[p := count] \<rparr>)
             = Inr st2 \<and>
           checkinSnapshot U L row p st2 = Inr st'"
  using run
  by (auto simp: usageIN_def productIndexOf_def userIndexOf_def bindE_eq_Inr
           dest!: setTotalUsage_result [OF fmt])

lemma usageSHUTDOWN_result:
  assumes shape: "usageShape L st" and fmt: "m_fileFormat L = ReportLog"
    and run: "usageSHUTDOWN U L row st = Inr st'"
  shows "st' =
     (let st2 = st\<lparr> licenseCountNumbers := map (\<lambda>_. 0) (licenseCountNumbers st),
                     uniqueLicenseCountsByProduct := map (\<lambda>_. 0) (uniqueLicenseCountsByProduct st),
                     licenseCountByProductAndUser :=
                       map (map (\<lambda>_. 0)) (licenseCountByProductAndUser st),
                     licenseCountsByProduct :=
                       map (\<lambda>_. toString_size U 0) (licenseCountNumbers st) \<rparr>
      in st2\<lparr> m_usage := m_usage st @ [snapshotRow U L row st2] \<rparr>)"
proof -
  let ?st2 = "st\<lparr> licenseCountNumbers := map (\<lambda>_. 0) (licenseCountNumbers st),
                     uniqueLicenseCountsByProduct := map (\<lambda>_. 0) (uniqueLicenseCountsByProduct st),
                     licenseCountByProductAndUser :=
                       map (map (\<lambda>_. 0)) (licenseCountByProductAndUser st),
                     licenseCountsByProduct :=
                       map (\<lambda>_. toString_size U 0) (licenseCountNumbers st) \<rparr>"
  have g: "gatherConcurrentUsageData U L row ?st2 = Inr st'"
    using run
    by (simp add: usageSHUTDOWN_def Let_def setVectorToZero_def [abs_def] setMatrixToZero_def
          licenseCountAdjust_def comp_def)
  have "usageShape L ?st2"
    using shape by (simp add: usageShape_def)
  from gatherConcurrentUsageData_result [OF this fmt g] show ?thesis
    by (simp add: Let_def)
qed

lemma usagePRODUCT_result:
  assumes fmt: "m_fileFormat L = ReportLog" and run: "usagePRODUCT L row st = Inr st'"
  shows "\<exists>p limit rlimit.
           st' = st\<lparr> maxLicenseCountsByProduct := (maxLicenseCountsByProduct st)[p := limit],
                      maxreservedLicenseCountsByProduct :=
                        (maxreservedLicenseCountsByProduct st)[p := rlimit] \<rparr>"
  using run fmt
  by (auto simp: usagePRODUCT_def bindE_eq_Inr vector_set_eq_Inr)

lemma checkoutCounts_result:
  assumes "checkoutCounts u p st = Inr st2"
  shows "u < length (licenseCountByProductAndUser st) \<and>
         p < length (licenseCountByProductAndUser st ! u) \<and>
         st2 = st\<lparr> licenseCountByProductAndUser :=
                    (licenseCountByProductAndUser st)
                      [u := (licenseCountByProductAndUser st ! u)
                         [p := licenseCountByProductAndUser st ! u ! p + 1]],
                  uniqueLicenseCountsByProduct :=
                    (if licenseCountByProductAndUser st ! u ! p + 1 = 1
                     then (uniqueLicenseCountsByProduct st)
                            [p := uniqueLicenseCountsByProduct st ! p + 1]
                     else uniqueLicenseCountsByProduct st) \<rparr>"
  using assms
  by (simp add: checkoutCounts_def bindE_eq_Inr vector_at2_eq_Inr vector_set2_eq_Inr
        vector_at_eq_Inr vector_set_eq_Inr split: if_splits)

lemma setReservedUsage_result:
  assumes "setReservedUsage L row p st = Inr st3"
  shows "\<exists>reserved. vector_at2 (m_eventData L) row 9 = Inr reserved \<and>
           st3 = st\<lparr> reservedLicenseUsageCount := (reservedLicenseUsageCount st)[p := reserved] \<rparr>"
  using assms by (auto simp: setReservedUsage_def bindE_eq_Inr vector_set_eq_Inr)

lemma usageOUT_steps:
  assumes fmt: "m_fileFormat L = ReportLog"
    and run: "usageOUT U L row st = Inr st'"
  shows "\<exists>p u count reserved st2.
           productIndexOf L row = Inr p \<and> userIndexOf L row = Inr u \<and>
           vector_at2 (m_eventData L) row IndexCount = Inr count \<and>
           vector_at2 (m_eventData L) row 9 = Inr reserved \<and>
           checkoutCounts u p (st\<lparr> licenseCountsByProduct := (licenseCountsByProduct st)[p := count] \<rparr>)
             = Inr st2 \<and>
           gatherConcurrentUsageData U L row
             (st2\<lparr> reservedLicenseUsageCount := (reservedLicenseUsageCount st2)[p := reserved] \<rparr>)
             = Inr st'"
  using run
  by (auto simp: usageOUT_def productIndexOf_def userIndexOf_def bindE_eq_Inr
           dest!: setTotalUsage_result [OF fmt] setReservedUsage_result)

lemma usageOUT_result:
  assumes shape: "usageShape L st" and fmt: "m_fileFormat L = ReportLog"
    and run: "usageOUT U L row st = Inr st'"
  shows "\<exists>p u count reserved.
           productIndexOf L row = Inr p \<and> userIndexOf L row = Inr u \<and>
           vector_at2 (m_eventData L) row IndexCount = Inr count \<and>
           vector_at2 (m_eventData L) row 9 = Inr reserved \<and>
           (let c = licenseCountByProductAndUser st ! u ! p;
                st2 = st\<lparr> licenseCountsByProduct := (licenseCountsByProduct st)[p := count],
                         licenseCountByProductAndUser :=
                           (licenseCountByProductAndUser st)
                             [u := (licenseCountByProductAndUser st ! u)[p := c + 1]],
                         uniqueLicenseCountsByProduct :=
                           (if c + 1 = 1
                            then (uniqueLicenseCountsByProduct st)
                                   [p := uniqueLicenseCountsByProduct st ! p + 1]
                            else uniqueLicenseCountsByProduct st),
                         reservedLicenseUsageCount := (reservedLicenseUsageCount st)[p := reserved] \<rparr>
            in st' = st2\<lparr> m_usage := m_usage st @ [snapshotRow U L row st2] \<rparr>)"
proof -
  from usageOUT_steps [OF fmt run] obtain p u count reserved st2 where
    p: "productIndexOf L row = Inr p" and u: "userIndexOf L row = Inr u" and
    count: "vector_at2 (m_eventData L) row IndexCount = Inr count" and
    reserved: "vector_at2 (m_eventData L) row 9 = Inr reserved" and
    c: "checkoutCounts u p (st\<lparr> licenseCountsByProduct := (licenseCountsByProduct st)[p := count] \<rparr>)
          = Inr st2" and
    g: "gatherConcurrentUsageData U L row
          (st2\<lparr> reservedLicenseUsageCount := (reservedLicenseUsageCount st2)[p := reserved] \<rparr>)
          = Inr st'"
    by blast
  note st2 = checkoutCounts_result [OF c, THEN conjunct2, THEN conjunct2]
  have "usageShape L (st2\<lparr> reservedLicenseUsageCount := (reservedLicenseUsageCount st2)[p := reserved] \<rparr>)"
    using shape productIndexOf_less [OF p] userIndexOf_less [OF u]
    by (simp add: st2 usageShape_def nth_list_update)
  from gatherConcurrentUsageData_result [OF this fmt g] p u count reserved
  show ?thesis by (simp add: Let_def st2)
qed

lemma usageIN_shape:
  assumes shape: "usageShape L st" and fmt: "m_fileFormat L = ReportLog"
    and run: "usageIN U L row st = Inr st'"
  shows "usageShape L st'"
proof -
  from usageIN_result [OF shape fmt run] obtain p u count st2 where
    p: "productIndexOf L row = Inr p" and u: "userIndexOf L row = Inr u" and
    c: "checkinCounts u p (st\<lparr> licenseCountsByProduct := (licenseCountsByProduct st)[p := count] \<rparr>)
             = Inr st2" and
    s: "checkinSnapshot U L row p st2 = Inr st'"
    by blast
  have shape2: "usageShape L st2"
    using checkinCounts_result [OF c] shape productIndexOf_less [OF p] userIndexOf_less [OF u]
    by (simp add: usageShape_def nth_list_update)
  from checkinSnapshot_result [OF shape2 fmt productIndexOf_less [OF p] s] shape2
  show ?thesis by (simp add: usageShape_def split: if_splits)
qed

lemma usageShape_m_usage [simp]: "usageShape L (st\<lparr> m_usage := x \<rparr>) = usageShape L st"
  by (simp add: usageShape_def)

lemma usageOUT_shape:
  assumes shape: "usageShape L st" and fmt: "m_fileFormat L = ReportLog"
    and run: "usageOUT U L row st = Inr st'"
  shows "usageShape L st'"
proof -
  from usageOUT_steps [OF fmt run] obtain p u count reserved st2 where
    p: "productIndexOf L row = Inr p" and u: "userIndexOf L row = Inr u" and
    c: "checkoutCounts u p (st\<lparr> licenseCountsByProduct := (licenseCountsByProduct st)[p := count] \<rparr>)
          = Inr st2" and
    g: "gatherConcurrentUsageData U L row
          (st2\<lparr> reservedLicenseUsageCount := (reservedLicenseUsageCount st2)[p := reserved] \<rparr>)
          = Inr st'"
    by blast
  note st2 = checkoutCounts_result [OF c, THEN conjunct2, THEN conjunct2]
  have sh: "usageShape L (st2\<lparr> reservedLicenseUsageCount := (reservedLicenseUsageCount st2)[p := reserved] \<rparr>)"
    using shape productIndexOf_less [OF p] userIndexOf_less [OF u]
    by (simp add: st2 usageShape_def nth_list_update)
  from gatherConcurrentUsageData_result [OF sh fmt g] sh
  show ?thesis by simp
qed

lemma usageSHUTDOWN_shape:
  assumes shape: "usageShape L st" and fmt: "m_fileFormat L = ReportLog"
    and run: "usageSHUTDOWN U L row st = Inr st'"
  shows "usageShape L st'"
  using usageSHUTDOWN_result [OF shape fmt run] shape
  by (simp add: usageShape_def Let_def)

lemma usagePRODUCT_shape:
  assumes shape: "usageShape L st" and fmt: "m_fileFormat L = ReportLog"
    and run: "usagePRODUCT L row st = Inr st'"
  shows "usageShape L st'"
proof -
  from usagePRODUCT_result [OF fmt run] obtain p limit rlimit where
    "st' = st\<lparr> maxLicenseCountsByProduct := (maxLicenseCountsByProduct st)[p := limit],
                maxreservedLicenseCountsByProduct :=
                  (maxreservedLicenseCountsByProduct st)[p := rlimit] \<rparr>"
    by blast
  with shape show ?thesis by (simp add: usageShape_def)
qed

lemma usageRow_cases:
  assumes run: "usageRow U L st row = Inr st'"
  shows "vector_at2 (m_eventData L) row IndexEvent = Inr ''OUT'' \<and> usageOUT U L row st = Inr st'
       \<or> vector_at2 (m_eventData L) row IndexEvent = Inr ''IN'' \<and> usageIN U L row st = Inr st'
       \<or> vector_at2 (m_eventData L) row IndexEvent = Inr ''SHUTDOWN'' \<and> usageSHUTDOWN U L row st = Inr st'
       \<or> vector_at2 (m_eventData L) row IndexEvent = Inr ''PRODUCT'' \<and> usagePRODUCT L row st = Inr st'
       \<or> st' = st"
proof -
  from run obtain kind where
    k: "vector_at2 (m_eventData L) row IndexEvent = Inr kind" and
    r: "(if kind = ''OUT'' then usageOUT U L row st
         else if kind = ''IN'' then usageIN U L row st
         else if kind = ''SHUTDOWN'' then usageSHUTDOWN U L row st
         else if kind = ''PRODUCT'' then usagePRODUCT L row st
         else Inr st) = Inr st'"
    unfolding usageRow_def bindE_eq_Inr by blast
  show ?thesis
  proof (cases "kind = ''OUT''")
    case True
    with k r show ?thesis by simp
  next
    case nOUT: False
    show ?thesis
    proof (cases "kind = ''IN''")
      case True
      with k r show ?thesis by simp
    next
      case nIN: False
      show ?thesis
      proof (cases "kind = ''SHUTDOWN''")
        case True
        with k r show ?thesis by simp
      next
        case nSHUT: False
        show ?thesis
        proof (cases "kind = ''PRODUCT''")
          case True
          with k r show ?thesis by simp
        next
          case False
          with nOUT nIN nSHUT r show ?thesis by simp
        qed
      qed
    qed
  qed
qed

lemma usageRow_shape:
  assumes shape: "usageShape L st" and fmt: "m_fileFormat L = ReportLog"
    and run: "usageRow U L st row = Inr st'"
  shows "usageShape L st'"
  using usageRow_cases [OF run] shape
    usageOUT_shape [OF shape fmt] usageIN_shape [OF shape fmt]
    usageSHUTDOWN_shape [OF shape fmt] usagePRODUCT_shape [OF shape fmt]
  by blast

lemma usageInit_shape: "usageShape L (usageInit L)"
  by (simp add: usageShape_def usageInit_def)

lemma usageLoop_shape:
  "usageShape L st \<Longrightarrow> m_fileFormat L = ReportLog \<Longrightarrow> usageLoop U L st rows = Inr st'
     \<Longrightarrow> usageShape L st'"
proof (induction rows arbitrary: st)
  case Nil
  then show ?case by simp
next
  case (Cons row rows)
  from Cons.prems(3) obtain st1 where
    step: "usageRow U L st row = Inr st1" and rest: "usageLoop U L st1 rows = Inr st'"
    by (auto simp: bindE_eq_Inr)
  from usageRow_shape [OF Cons.prems(1,2) step] have "usageShape L st1" .
  from Cons.IH [OF this Cons.prems(2) rest] show ?case .
qed

lemma reachable_shape:
  "m_fileFormat L = ReportLog \<Longrightarrow> usageLoop U L (usageInit L) rows = Inr st \<Longrightarrow> usageShape L st"
  by (rule usageLoop_shape [OF usageInit_shape])

lemma usageRow_SHUTDOWN:
  assumes kind: "vector_at2 (m_eventData L) row IndexEvent = Inr ''SHUTDOWN''"
    and run: "usageRow U L st row = Inr st'"
  shows "usageSHUTDOWN U L row st = Inr st'"
  using run kind by (simp add: usageRow_def)

lemma usageRow_IN:
  assumes kind: "vector_at2 (m_eventData L) row IndexEvent = Inr ''IN''"
    and run: "usageRow U L st row = Inr st'"
  shows "usageIN U L row st = Inr st'"
  using run kind by (simp add: usageRow_def)

lemma usageRow_OUT:
  assumes kind: "vector_at2 (m_eventData L) row IndexEvent = Inr ''OUT''"
    and run: "usageRow U L st row = Inr st'"
  shows "usageOUT U L row st = Inr st'"
  using run kind by (simp add: usageRow_def)

text \<open>
  C8. For every SHUTDOWN event the accumulator resets every live count per user and
  product and every unique-user count per product to zero and appends exactly one
  snapshot row, and that row shows total-in-use 0 and unique-user count 0 (the first two
  columns of the block of each product) for every product. The state is any state the
  replay reaches.
\<close>

theorem shutdown_resets_counts:
  assumes fmt: "m_fileFormat L = ReportLog"
    and reach: "usageLoop U L (usageInit L) rows = Inr st"
    and kind: "vector_at2 (m_eventData L) row IndexEvent = Inr ''SHUTDOWN''"
    and run: "usageRow U L st row = Inr st'"
  shows "(\<forall>u < length (m_uniqueUsers L). \<forall>p < length (m_uniqueProducts L).
            licenseCountByProductAndUser st' ! u ! p = 0) \<and>
         (\<forall>p < length (m_uniqueProducts L). uniqueLicenseCountsByProduct st' ! p = 0) \<and>
         (\<exists>snapshot. m_usage st' = m_usage st @ [snapshot] \<and>
            (\<forall>p < length (m_uniqueProducts L).
               take 2 (productBlock snapshot p) = [toString_size U 0, toString_size U 0]))"
proof -
  have shape: "usageShape L st" by (rule reachable_shape [OF fmt reach])
  note r = usageSHUTDOWN_result [OF shape fmt usageRow_SHUTDOWN [OF kind run]]
  have live: "\<forall>u < length (m_uniqueUsers L). \<forall>p < length (m_uniqueProducts L).
            licenseCountByProductAndUser st' ! u ! p = 0"
    using shape by (simp add: r Let_def usageShape_def)
  have uniq: "\<forall>p < length (m_uniqueProducts L). uniqueLicenseCountsByProduct st' ! p = 0"
    using shape by (simp add: r Let_def usageShape_def)
  have snap: "\<exists>snapshot. m_usage st' = m_usage st @ [snapshot] \<and>
            (\<forall>p < length (m_uniqueProducts L).
               take 2 (productBlock snapshot p) = [toString_size U 0, toString_size U 0])"
    using shape
    by (simp add: r Let_def productBlock_snapshotRow blockOf_def usageShape_def)
  from live uniq snap show ?thesis by blast
qed

theorem shutdown_resets_counts_witness:
  "\<exists>st st'.
     m_fileFormat shutdownLog = ReportLog \<and>
     usageLoop sampleUtilities shutdownLog (usageInit shutdownLog) [3] = Inr st \<and>
     vector_at2 (m_eventData shutdownLog) 7 IndexEvent = Inr ''SHUTDOWN'' \<and>
     usageRow sampleUtilities shutdownLog st 7 = Inr st' \<and>
     (\<forall>u < length (m_uniqueUsers shutdownLog). \<forall>p < length (m_uniqueProducts shutdownLog).
        licenseCountByProductAndUser st' ! u ! p = 0) \<and>
     (\<forall>p < length (m_uniqueProducts shutdownLog). uniqueLicenseCountsByProduct st' ! p = 0) \<and>
     (\<exists>snapshot. m_usage st' = m_usage st @ [snapshot] \<and>
        (\<forall>p < length (m_uniqueProducts shutdownLog).
           take 2 (productBlock snapshot p) =
             [toString_size sampleUtilities 0, toString_size sampleUtilities 0]))"
proof -
  have fmt: "m_fileFormat shutdownLog = ReportLog"
    by (simp add: usage_eval)
  have kind: "vector_at2 (m_eventData shutdownLog) 7 IndexEvent = Inr ''SHUTDOWN''"
    by (simp add: usage_eval)
  have "\<exists>st st'. usageLoop sampleUtilities shutdownLog (usageInit shutdownLog) [3] = Inr st \<and>
          usageRow sampleUtilities shutdownLog st 7 = Inr st'"
    by (simp add: usage_eval)
  then obtain st st' where
    reach: "usageLoop sampleUtilities shutdownLog (usageInit shutdownLog) [3] = Inr st" and
    run: "usageRow sampleUtilities shutdownLog st 7 = Inr st'"
    by blast
  from shutdown_resets_counts [OF fmt reach kind run] fmt reach kind run
  show ?thesis by blast
qed


text \<open>
  C10. For every SHUTDOWN event the reserved-in-use, configured-limit and reserved-limit
  values of every product are the same after the event as before it, and the snapshot
  row carries them (the last three columns of the block of each product) as they were
  before the shutdown: the reset does not touch them.
\<close>

theorem shutdown_keeps_reserved_and_limits:
  assumes fmt: "m_fileFormat L = ReportLog"
    and reach: "usageLoop U L (usageInit L) rows = Inr st"
    and kind: "vector_at2 (m_eventData L) row IndexEvent = Inr ''SHUTDOWN''"
    and run: "usageRow U L st row = Inr st'"
  shows "reservedLicenseUsageCount st' = reservedLicenseUsageCount st \<and>
         maxLicenseCountsByProduct st' = maxLicenseCountsByProduct st \<and>
         maxreservedLicenseCountsByProduct st' = maxreservedLicenseCountsByProduct st \<and>
         (\<exists>snapshot. m_usage st' = m_usage st @ [snapshot] \<and>
            (\<forall>p < length (m_uniqueProducts L).
               drop 2 (productBlock snapshot p) =
                 [maxLicenseCountsByProduct st ! p, reservedLicenseUsageCount st ! p,
                  maxreservedLicenseCountsByProduct st ! p]))"
proof -
  have shape: "usageShape L st" by (rule reachable_shape [OF fmt reach])
  note r = usageSHUTDOWN_result [OF shape fmt usageRow_SHUTDOWN [OF kind run]]
  show ?thesis
    by (simp add: r Let_def productBlock_snapshotRow blockOf_def)
qed

theorem shutdown_keeps_reserved_and_limits_witness:
  "\<exists>st st'.
     m_fileFormat shutdownLog = ReportLog \<and>
     usageLoop sampleUtilities shutdownLog (usageInit shutdownLog) [3] = Inr st \<and>
     vector_at2 (m_eventData shutdownLog) 7 IndexEvent = Inr ''SHUTDOWN'' \<and>
     usageRow sampleUtilities shutdownLog st 7 = Inr st' \<and>
     reservedLicenseUsageCount st' = reservedLicenseUsageCount st \<and>
     maxLicenseCountsByProduct st' = maxLicenseCountsByProduct st \<and>
     maxreservedLicenseCountsByProduct st' = maxreservedLicenseCountsByProduct st \<and>
     (\<exists>snapshot. m_usage st' = m_usage st @ [snapshot] \<and>
        (\<forall>p < length (m_uniqueProducts shutdownLog).
           drop 2 (productBlock snapshot p) =
             [maxLicenseCountsByProduct st ! p, reservedLicenseUsageCount st ! p,
              maxreservedLicenseCountsByProduct st ! p]))"
proof -
  have fmt: "m_fileFormat shutdownLog = ReportLog"
    by (simp add: usage_eval)
  have kind: "vector_at2 (m_eventData shutdownLog) 7 IndexEvent = Inr ''SHUTDOWN''"
    by (simp add: usage_eval)
  have "\<exists>st st'. usageLoop sampleUtilities shutdownLog (usageInit shutdownLog) [3] = Inr st \<and>
          usageRow sampleUtilities shutdownLog st 7 = Inr st'"
    by (simp add: usage_eval)
  then obtain st st' where
    reach: "usageLoop sampleUtilities shutdownLog (usageInit shutdownLog) [3] = Inr st" and
    run: "usageRow sampleUtilities shutdownLog st 7 = Inr st'"
    by blast
  from shutdown_keeps_reserved_and_limits [OF fmt reach kind run] fmt reach kind run
  show ?thesis by blast
qed


lemma usageIN_explicit:
  assumes shape: "usageShape L st" and fmt: "m_fileFormat L = ReportLog"
    and run: "usageIN U L row st = Inr st'"
  shows "\<exists>p u count st2.
           productIndexOf L row = Inr p \<and> userIndexOf L row = Inr u \<and>
           vector_at2 (m_eventData L) row IndexCount = Inr count \<and>
           usageShape L st2 \<and>
           licenseCountsByProduct st2 = (licenseCountsByProduct st)[p := count] \<and>
           licenseCountByProductAndUser st2 =
             (if 0 < licenseCountByProductAndUser st ! u ! p
              then (licenseCountByProductAndUser st)
                     [u := (licenseCountByProductAndUser st ! u)
                        [p := licenseCountByProductAndUser st ! u ! p - 1]]
              else licenseCountByProductAndUser st) \<and>
           uniqueLicenseCountsByProduct st2 =
             (if (if 0 < licenseCountByProductAndUser st ! u ! p
                  then licenseCountByProductAndUser st ! u ! p - 1
                  else licenseCountByProductAndUser st ! u ! p) = 0
                 \<and> 0 < uniqueLicenseCountsByProduct st ! p
              then (uniqueLicenseCountsByProduct st)[p := uniqueLicenseCountsByProduct st ! p - 1]
              else uniqueLicenseCountsByProduct st) \<and>
           reservedLicenseUsageCount st2 = reservedLicenseUsageCount st \<and>
           maxLicenseCountsByProduct st2 = maxLicenseCountsByProduct st \<and>
           maxreservedLicenseCountsByProduct st2 = maxreservedLicenseCountsByProduct st \<and>
           m_usage st2 = m_usage st \<and>
           st' =
             (if 0 <s atoi U (licenseCountsByProduct st2 ! p) \<and> uniqueLicenseCountsByProduct st2 ! p = 0
              then st2\<lparr> uniqueLicenseCountsByProduct := (uniqueLicenseCountsByProduct st2)[p := 0],
                        m_usage := m_usage st2 @
                          [snapshotRow U L row
                             (st2\<lparr> uniqueLicenseCountsByProduct :=
                                     (uniqueLicenseCountsByProduct st2)[p := 1] \<rparr>)] \<rparr>
              else st2\<lparr> m_usage := m_usage st2 @ [snapshotRow U L row st2] \<rparr>)"
proof -
  from usageIN_result [OF shape fmt run] obtain p u count st2 where
    p: "productIndexOf L row = Inr p" and u: "userIndexOf L row = Inr u" and
    count: "vector_at2 (m_eventData L) row IndexCount = Inr count" and
    c: "checkinCounts u p (st\<lparr> licenseCountsByProduct := (licenseCountsByProduct st)[p := count] \<rparr>)
             = Inr st2" and
    s: "checkinSnapshot U L row p st2 = Inr st'"
    by blast
  note st2 = checkinCounts_result [OF c, THEN conjunct2, THEN conjunct2]
  have shape2: "usageShape L st2"
    using shape productIndexOf_less [OF p] userIndexOf_less [OF u]
    by (simp add: st2 usageShape_def nth_list_update)
  note r = checkinSnapshot_result [OF shape2 fmt productIndexOf_less [OF p] s]
  have fields: "licenseCountsByProduct st2 = (licenseCountsByProduct st)[p := count]"
    "licenseCountByProductAndUser st2 =
             (if 0 < licenseCountByProductAndUser st ! u ! p
              then (licenseCountByProductAndUser st)
                     [u := (licenseCountByProductAndUser st ! u)
                        [p := licenseCountByProductAndUser st ! u ! p - 1]]
              else licenseCountByProductAndUser st)"
    "uniqueLicenseCountsByProduct st2 =
             (if (if 0 < licenseCountByProductAndUser st ! u ! p
                  then licenseCountByProductAndUser st ! u ! p - 1
                  else licenseCountByProductAndUser st ! u ! p) = 0
                 \<and> 0 < uniqueLicenseCountsByProduct st ! p
              then (uniqueLicenseCountsByProduct st)[p := uniqueLicenseCountsByProduct st ! p - 1]
              else uniqueLicenseCountsByProduct st)"
    "reservedLicenseUsageCount st2 = reservedLicenseUsageCount st"
    "maxLicenseCountsByProduct st2 = maxLicenseCountsByProduct st"
    "maxreservedLicenseCountsByProduct st2 = maxreservedLicenseCountsByProduct st"
    "m_usage st2 = m_usage st"
    by (simp_all add: st2)
  from p u count shape2 fields r show ?thesis by blast
qed

lemma nth_update2:
  "u < length m \<Longrightarrow> p < length (m ! u) \<Longrightarrow>
     m[u0 := (m ! u0)[p0 := x]] ! u ! p = (if u = u0 \<and> p = p0 then x else m ! u ! p)"
  by (cases "u = u0") (simp_all add: nth_list_update)

text \<open>
  C7. Throughout the replay no live count per user and product goes below zero: an event
  leaves a count as it is, increments it, decrements it from a value other than zero, or
  resets it to zero; and an IN event leaves every count that is 0 at 0 (the counts are
  unsigned, so "-1" would be the wrap-around to the largest value). The state is any
  state the replay reaches.
\<close>

theorem live_counts_never_below_zero:
  assumes fmt: "m_fileFormat L = ReportLog"
    and reach: "usageLoop U L (usageInit L) rows = Inr st"
    and run: "usageRow U L st row = Inr st'"
  shows "(\<forall>u < length (m_uniqueUsers L). \<forall>p < length (m_uniqueProducts L).
            licenseCountByProductAndUser st' ! u ! p = licenseCountByProductAndUser st ! u ! p
          \<or> licenseCountByProductAndUser st' ! u ! p = licenseCountByProductAndUser st ! u ! p + 1
          \<or> (licenseCountByProductAndUser st ! u ! p \<noteq> 0 \<and>
              licenseCountByProductAndUser st' ! u ! p = licenseCountByProductAndUser st ! u ! p - 1)
          \<or> licenseCountByProductAndUser st' ! u ! p = 0) \<and>
         (vector_at2 (m_eventData L) row IndexEvent = Inr ''IN'' \<longrightarrow>
            (\<forall>u < length (m_uniqueUsers L). \<forall>p < length (m_uniqueProducts L).
               licenseCountByProductAndUser st ! u ! p = 0 \<longrightarrow>
               licenseCountByProductAndUser st' ! u ! p = 0))"
proof -
  have shape: "usageShape L st" by (rule reachable_shape [OF fmt reach])
  then have len: "length (licenseCountByProductAndUser st) = length (m_uniqueUsers L)"
    and lens: "\<forall>u < length (m_uniqueUsers L).
        length (licenseCountByProductAndUser st ! u) = length (m_uniqueProducts L)"
    by (simp_all add: usageShape_def)
  from usageRow_cases [OF run]
  consider (OUT) "vector_at2 (m_eventData L) row IndexEvent = Inr ''OUT''" "usageOUT U L row st = Inr st'"
    | (IN) "vector_at2 (m_eventData L) row IndexEvent = Inr ''IN''" "usageIN U L row st = Inr st'"
    | (SHUT) "vector_at2 (m_eventData L) row IndexEvent = Inr ''SHUTDOWN''" "usageSHUTDOWN U L row st = Inr st'"
    | (PROD) "vector_at2 (m_eventData L) row IndexEvent = Inr ''PRODUCT''" "usagePRODUCT L row st = Inr st'"
    | (other) "st' = st"
    by blast
  then show ?thesis
  proof cases
    case OUT
    from usageOUT_result [OF shape fmt OUT(2)] obtain p0 u0 where
      live': "licenseCountByProductAndUser st' =
                (licenseCountByProductAndUser st)
                  [u0 := (licenseCountByProductAndUser st ! u0)
                     [p0 := licenseCountByProductAndUser st ! u0 ! p0 + 1]]"
      by (auto simp: Let_def)
    have "\<forall>u < length (m_uniqueUsers L). \<forall>p < length (m_uniqueProducts L).
            licenseCountByProductAndUser st' ! u ! p =
              (if u = u0 \<and> p = p0 then licenseCountByProductAndUser st ! u0 ! p0 + 1
               else licenseCountByProductAndUser st ! u ! p)"
      using len lens by (simp add: live' nth_update2)
    with OUT(1) show ?thesis by auto
  next
    case IN
    from usageIN_explicit [OF shape fmt IN(2)] obtain p0 u0 st2 where
      live2: "licenseCountByProductAndUser st2 =
             (if 0 < licenseCountByProductAndUser st ! u0 ! p0
              then (licenseCountByProductAndUser st)
                     [u0 := (licenseCountByProductAndUser st ! u0)
                        [p0 := licenseCountByProductAndUser st ! u0 ! p0 - 1]]
              else licenseCountByProductAndUser st)" and
      r: "st' =
             (if 0 <s atoi U (licenseCountsByProduct st2 ! p0) \<and> uniqueLicenseCountsByProduct st2 ! p0 = 0
              then st2\<lparr> uniqueLicenseCountsByProduct := (uniqueLicenseCountsByProduct st2)[p0 := 0],
                        m_usage := m_usage st2 @
                          [snapshotRow U L row
                             (st2\<lparr> uniqueLicenseCountsByProduct :=
                                     (uniqueLicenseCountsByProduct st2)[p0 := 1] \<rparr>)] \<rparr>
              else st2\<lparr> m_usage := m_usage st2 @ [snapshotRow U L row st2] \<rparr>)"
      by blast
    have st': "licenseCountByProductAndUser st' = licenseCountByProductAndUser st2"
      by (simp add: r)
    have "\<forall>u < length (m_uniqueUsers L). \<forall>p < length (m_uniqueProducts L).
            licenseCountByProductAndUser st' ! u ! p =
              (if u = u0 \<and> p = p0 \<and> licenseCountByProductAndUser st ! u0 ! p0 \<noteq> 0
               then licenseCountByProductAndUser st ! u0 ! p0 - 1
               else licenseCountByProductAndUser st ! u ! p)"
      using len lens by (simp add: st' live2 nth_update2 word_greater_zero_iff)
    then show ?thesis by auto
  next
    case SHUT
    note r = usageSHUTDOWN_result [OF shape fmt SHUT(2)]
    show ?thesis
      using SHUT(1) len lens by (simp add: r Let_def)
  next
    case PROD
    from usagePRODUCT_result [OF fmt PROD(2)] have
      "licenseCountByProductAndUser st' = licenseCountByProductAndUser st"
      by auto
    then show ?thesis by simp
  next
    case other
    then show ?thesis by simp
  qed
qed

theorem live_counts_never_below_zero_witness:
  "\<exists>st'.
     m_fileFormat sampleLog = ReportLog \<and>
     usageLoop sampleUtilities sampleLog (usageInit sampleLog) [] = Inr (usageInit sampleLog) \<and>
     usageRow sampleUtilities sampleLog (usageInit sampleLog) 2 = Inr st' \<and>
     (\<forall>u < length (m_uniqueUsers sampleLog). \<forall>p < length (m_uniqueProducts sampleLog).
          licenseCountByProductAndUser st' ! u ! p =
            licenseCountByProductAndUser (usageInit sampleLog) ! u ! p
        \<or> licenseCountByProductAndUser st' ! u ! p =
            licenseCountByProductAndUser (usageInit sampleLog) ! u ! p + 1
        \<or> (licenseCountByProductAndUser (usageInit sampleLog) ! u ! p \<noteq> 0 \<and>
            licenseCountByProductAndUser st' ! u ! p =
              licenseCountByProductAndUser (usageInit sampleLog) ! u ! p - 1)
        \<or> licenseCountByProductAndUser st' ! u ! p = 0) \<and>
     (vector_at2 (m_eventData sampleLog) 2 IndexEvent = Inr ''IN'' \<longrightarrow>
        (\<forall>u < length (m_uniqueUsers sampleLog). \<forall>p < length (m_uniqueProducts sampleLog).
           licenseCountByProductAndUser (usageInit sampleLog) ! u ! p = 0 \<longrightarrow>
           licenseCountByProductAndUser st' ! u ! p = 0)) \<and>
     vector_at2 (m_eventData sampleLog) 2 IndexEvent = Inr ''IN'' \<and>
     licenseCountByProductAndUser (usageInit sampleLog) ! 0 ! 0 = 0"
proof -
  have fmt: "m_fileFormat sampleLog = ReportLog"
    by (simp add: usage_eval)
  have reach: "usageLoop sampleUtilities sampleLog (usageInit sampleLog) [] = Inr (usageInit sampleLog)"
    by simp
  have kind: "vector_at2 (m_eventData sampleLog) 2 IndexEvent = Inr ''IN''"
    by (simp add: usage_eval)
  have zero: "licenseCountByProductAndUser (usageInit sampleLog) ! 0 ! 0 = 0"
    by (simp add: usage_eval)
  have "\<exists>st'. usageRow sampleUtilities sampleLog (usageInit sampleLog) 2 = Inr st'"
    by (simp add: usage_eval)
  then obtain st' where run: "usageRow sampleUtilities sampleLog (usageInit sampleLog) 2 = Inr st'"
    by blast
  from live_counts_never_below_zero [OF fmt reach run] fmt reach run kind zero
  show ?thesis by blast
qed


text \<open>
  C6. When an IN event arrives for a product whose unique-user count is 0 (no OUT was
  seen before it) and the total in use that the event reports is > 0, the accumulator
  appends exactly one snapshot row, which shows that total and the unique-user count 1
  for the product, and leaves the unique counts as they were (0 for the product). The
  next OUT for the product, by a user holding none of it, then shows the unique-user
  count 1, counted from 0, not 2.
\<close>

theorem checkin_without_checkout_posts_one:
  assumes fmt: "m_fileFormat L = ReportLog"
    and reach: "usageLoop U L (usageInit L) rows = Inr st"
    and kind: "vector_at2 (m_eventData L) row IndexEvent = Inr ''IN''"
    and p: "productIndexOf L row = Inr p"
    and zero: "uniqueLicenseCountsByProduct st ! p = 0"
    and count: "vector_at2 (m_eventData L) row IndexCount = Inr count"
    and pos: "0 <s atoi U count"
    and run: "usageRow U L st row = Inr st'"
  shows "(\<exists>snapshot. m_usage st' = m_usage st @ [snapshot] \<and>
            productBlock snapshot p ! 0 = count \<and>
            productBlock snapshot p ! 1 = toString_size U 1) \<and>
         uniqueLicenseCountsByProduct st' = uniqueLicenseCountsByProduct st \<and>
         (\<forall>row2 u2 st''.
            vector_at2 (m_eventData L) row2 IndexEvent = Inr ''OUT'' \<and>
            productIndexOf L row2 = Inr p \<and> userIndexOf L row2 = Inr u2 \<and>
            licenseCountByProductAndUser st' ! u2 ! p = 0 \<and>
            usageRow U L st' row2 = Inr st'' \<longrightarrow>
            (\<exists>snapshot2. m_usage st'' = m_usage st' @ [snapshot2] \<and>
               productBlock snapshot2 p ! 1 = toString_size U 1))"
proof -
  have shape: "usageShape L st" by (rule reachable_shape [OF fmt reach])
  have pn: "p < length (m_uniqueProducts L)" by (rule productIndexOf_less [OF p])
  from usageIN_explicit [OF shape fmt usageRow_IN [OF kind run]] p count
  obtain u st2 where
    shape2: "usageShape L st2" and
    lic2: "licenseCountsByProduct st2 = (licenseCountsByProduct st)[p := count]" and
    uniq2: "uniqueLicenseCountsByProduct st2 =
             (if (if 0 < licenseCountByProductAndUser st ! u ! p
                  then licenseCountByProductAndUser st ! u ! p - 1
                  else licenseCountByProductAndUser st ! u ! p) = 0
                 \<and> 0 < uniqueLicenseCountsByProduct st ! p
              then (uniqueLicenseCountsByProduct st)[p := uniqueLicenseCountsByProduct st ! p - 1]
              else uniqueLicenseCountsByProduct st)" and
    usage2: "m_usage st2 = m_usage st" and
    r: "st' =
             (if 0 <s atoi U (licenseCountsByProduct st2 ! p) \<and> uniqueLicenseCountsByProduct st2 ! p = 0
              then st2\<lparr> uniqueLicenseCountsByProduct := (uniqueLicenseCountsByProduct st2)[p := 0],
                        m_usage := m_usage st2 @
                          [snapshotRow U L row
                             (st2\<lparr> uniqueLicenseCountsByProduct :=
                                     (uniqueLicenseCountsByProduct st2)[p := 1] \<rparr>)] \<rparr>
              else st2\<lparr> m_usage := m_usage st2 @ [snapshotRow U L row st2] \<rparr>)"
    by auto
  have lens: "p < length (licenseCountsByProduct st)" "p < length (uniqueLicenseCountsByProduct st)"
    using shape pn by (simp_all add: usageShape_def)
  have uniq2': "uniqueLicenseCountsByProduct st2 = uniqueLicenseCountsByProduct st"
    using zero by (simp add: uniq2)
  have total: "licenseCountsByProduct st2 ! p = count"
    using lens by (simp add: lic2)
  have st': "st' = st2\<lparr> uniqueLicenseCountsByProduct := (uniqueLicenseCountsByProduct st)[p := 0],
                        m_usage := m_usage st @
                          [snapshotRow U L row
                             (st2\<lparr> uniqueLicenseCountsByProduct :=
                                     (uniqueLicenseCountsByProduct st)[p := 1] \<rparr>)] \<rparr>"
    using pos zero by (simp add: r total uniq2' usage2)
  have first: "\<exists>snapshot. m_usage st' = m_usage st @ [snapshot] \<and>
            productBlock snapshot p ! 0 = count \<and>
            productBlock snapshot p ! 1 = toString_size U 1"
    using pn lens total by (simp add: st' productBlock_snapshotRow blockOf_def)
  have "(uniqueLicenseCountsByProduct st)[p := 0] = uniqueLicenseCountsByProduct st"
    using zero by (metis list_update_id)
  then have second: "uniqueLicenseCountsByProduct st' = uniqueLicenseCountsByProduct st"
    by (simp add: st')
  have shape': "usageShape L st'"
    by (rule usageRow_shape [OF shape fmt run])
  have third: "\<exists>snapshot2. m_usage st'' = m_usage st' @ [snapshot2] \<and>
               productBlock snapshot2 p ! 1 = toString_size U 1"
    if out: "vector_at2 (m_eventData L) row2 IndexEvent = Inr ''OUT''"
      and p2: "productIndexOf L row2 = Inr p" and u2: "userIndexOf L row2 = Inr u2"
      and live: "licenseCountByProductAndUser st' ! u2 ! p = 0"
      and run2: "usageRow U L st' row2 = Inr st''"
    for row2 u2 st''
  proof -
    from usageOUT_result [OF shape' fmt usageRow_OUT [OF out run2]] p2 u2
    obtain count2 reserved2 where
      "(let c = licenseCountByProductAndUser st' ! u2 ! p;
            st2 = st'\<lparr> licenseCountsByProduct := (licenseCountsByProduct st')[p := count2],
                     licenseCountByProductAndUser :=
                       (licenseCountByProductAndUser st')
                         [u2 := (licenseCountByProductAndUser st' ! u2)[p := c + 1]],
                     uniqueLicenseCountsByProduct :=
                       (if c + 1 = 1
                        then (uniqueLicenseCountsByProduct st')
                               [p := uniqueLicenseCountsByProduct st' ! p + 1]
                        else uniqueLicenseCountsByProduct st'),
                     reservedLicenseUsageCount := (reservedLicenseUsageCount st')[p := reserved2] \<rparr>
        in st'' = st2\<lparr> m_usage := m_usage st' @ [snapshotRow U L row2 st2] \<rparr>)"
      by auto
    then show ?thesis
      using pn lens live zero
      by (simp add: Let_def productBlock_snapshotRow blockOf_def second)
  qed
  from first second third show ?thesis by blast
qed

theorem checkin_without_checkout_posts_one_witness:
  "\<exists>st'.
     m_fileFormat sampleLog = ReportLog \<and>
     usageLoop sampleUtilities sampleLog (usageInit sampleLog) [] = Inr (usageInit sampleLog) \<and>
     vector_at2 (m_eventData sampleLog) 2 IndexEvent = Inr ''IN'' \<and>
     productIndexOf sampleLog 2 = Inr 0 \<and>
     uniqueLicenseCountsByProduct (usageInit sampleLog) ! 0 = 0 \<and>
     vector_at2 (m_eventData sampleLog) 2 IndexCount = Inr ''2'' \<and>
     0 <s atoi sampleUtilities ''2'' \<and>
     usageRow sampleUtilities sampleLog (usageInit sampleLog) 2 = Inr st' \<and>
     (\<exists>snapshot. m_usage st' = m_usage (usageInit sampleLog) @ [snapshot] \<and>
        productBlock snapshot 0 ! 0 = ''2'' \<and>
        productBlock snapshot 0 ! 1 = toString_size sampleUtilities 1) \<and>
     uniqueLicenseCountsByProduct st' = uniqueLicenseCountsByProduct (usageInit sampleLog) \<and>
     (\<exists>st''.
        vector_at2 (m_eventData sampleLog) 3 IndexEvent = Inr ''OUT'' \<and>
        productIndexOf sampleLog 3 = Inr 0 \<and> userIndexOf sampleLog 3 = Inr 0 \<and>
        licenseCountByProductAndUser st' ! 0 ! 0 = 0 \<and>
        usageRow sampleUtilities sampleLog st' 3 = Inr st'' \<and>
        (\<exists>snapshot2. m_usage st'' = m_usage st' @ [snapshot2] \<and>
           productBlock snapshot2 0 ! 1 = toString_size sampleUtilities 1))"
proof -
  have fmt: "m_fileFormat sampleLog = ReportLog"
    by (simp add: usage_eval)
  have reach: "usageLoop sampleUtilities sampleLog (usageInit sampleLog) [] = Inr (usageInit sampleLog)"
    by simp
  have kind: "vector_at2 (m_eventData sampleLog) 2 IndexEvent = Inr ''IN''"
    by (simp add: usage_eval)
  have p: "productIndexOf sampleLog 2 = Inr 0"
    by (simp add: usage_eval)
  have zero: "uniqueLicenseCountsByProduct (usageInit sampleLog) ! 0 = 0"
    by (simp add: usage_eval)
  have count: "vector_at2 (m_eventData sampleLog) 2 IndexCount = Inr ''2''"
    by (simp add: usage_eval)
  have pos: "0 <s atoi sampleUtilities ''2''"
    by (simp add: usage_eval)
  have out: "vector_at2 (m_eventData sampleLog) 3 IndexEvent = Inr ''OUT'' \<and>
        productIndexOf sampleLog 3 = Inr 0 \<and> userIndexOf sampleLog 3 = Inr 0"
    by (simp add: usage_eval)
  have "\<exists>st' st''. usageRow sampleUtilities sampleLog (usageInit sampleLog) 2 = Inr st' \<and>
          licenseCountByProductAndUser st' ! 0 ! 0 = 0 \<and>
          usageRow sampleUtilities sampleLog st' 3 = Inr st''"
    by (simp add: usage_eval)
  then obtain st' st'' where
    run: "usageRow sampleUtilities sampleLog (usageInit sampleLog) 2 = Inr st'" and
    live: "licenseCountByProductAndUser st' ! 0 ! 0 = 0" and
    run2: "usageRow sampleUtilities sampleLog st' 3 = Inr st''"
    by blast
  note c = checkin_without_checkout_posts_one [OF fmt reach kind p zero count pos run]
  from c out live run2 have
    "\<exists>snapshot2. m_usage st'' = m_usage st' @ [snapshot2] \<and>
       productBlock snapshot2 0 ! 1 = toString_size sampleUtilities 1"
    by blast
  with c fmt reach kind p zero count pos run out live run2
  show ?thesis by blast
qed


subsection \<open>Extraction of the events\<close>

lemma tablesLoaded_getEventIndices: "tablesLoaded (getEventIndices (newLogData ReportLog))"
  by (simp add: tablesLoaded_def getEventIndices_def newLogData_def)

lemma projectRow_eq_Inr:
  "projectRow r indices = Inr xs \<longleftrightarrow> (\<forall>i \<in> set indices. i < length r) \<and> xs = map ((!) r) indices"
  by (induction indices arbitrary: xs) (auto simp: bindE_eq_Inr vector_at_eq_Inr)

lemma loadEventIntoVector_eq_Inr:
  "loadEventIntoVector r row indices s = Inr s' \<longleftrightarrow>
     length indices \<le> length r \<and> (\<forall>i \<in> set indices. i < length r) \<and>
     s' = s\<lparr> m_eventData := m_eventData s @ [map ((!) r) indices] \<rparr>"
  by (auto simp: loadEventIntoVector_def bindE_eq_Inr projectRow_eq_Inr)

lemma addYearToDate_result:
  assumes fmt: "m_fileFormat s = ReportLog" and evs: "m_eventData s = evs @ [rec]"
    and run: "addYearToDate U s = Inr s'"
  shows "1 < length rec \<and>
         (\<exists>year. rolloverYear U (evs @ [rec]) (m_eventYear s) (length evs) (rec ! 1) = Inr year \<and>
            s' = s\<lparr> m_eventYear := year,
                     m_eventData := evs @ [rec[1 := rec ! 1 @ ''/'' @ year]] \<rparr>)"
  using run fmt
  by (auto simp: addYearToDate_def evs bindE_eq_Inr vector_at2_eq_Inr Let_def)

lemma loadNamedEvent_result:
  assumes fmt: "m_fileFormat s = ReportLog"
    and run: "loadNamedEvent U s row r indices = Inr s'"
  shows "(\<forall>i \<in> set indices. i < length r) \<and> 6 < length indices \<and>
         (\<exists>year. rolloverYear U (m_eventData s @ [map ((!) r) indices]) (m_eventYear s)
                    (length (m_eventData s)) (r ! (indices ! 1)) = Inr year \<and>
            s' = s\<lparr> m_eventData := m_eventData s @
                       [(map ((!) r) indices)[1 := r ! (indices ! 1) @ ''/'' @ year]],
                     m_uniqueProducts := getUniqueItems (r ! (indices ! 3)) (m_uniqueProducts s),
                     m_uniqueUsers := getUniqueItems (r ! (indices ! 5)) (m_uniqueUsers s),
                     m_uniqueHosts := getUniqueItems (r ! (indices ! 6)) (m_uniqueHosts s),
                     m_eventYear := year \<rparr>)"
proof -
  from run obtain s1 where
    load: "loadEventIntoVector r row indices s = Inr s1" and
    rest: "bindE (vector_at2 (m_eventData s1) (length (m_eventData s1) - 1) IndexProduct) (\<lambda>productName.
           bindE (vector_at2 (m_eventData s1) (length (m_eventData s1) - 1) IndexUser) (\<lambda>userName.
           bindE (vector_at2 (m_eventData s1) (length (m_eventData s1) - 1) IndexHost) (\<lambda>hostName.
           addYearToDate U
             (s1\<lparr> m_uniqueProducts := getUniqueItems productName (m_uniqueProducts s1),
                  m_uniqueUsers := getUniqueItems userName (m_uniqueUsers s1),
                  m_uniqueHosts := getUniqueItems hostName (m_uniqueHosts s1) \<rparr>)))) = Inr s'"
    unfolding loadNamedEvent_def bindE_eq_Inr Let_def by blast
  from load have idx: "\<forall>i \<in> set indices. i < length r"
    and s1: "s1 = s\<lparr> m_eventData := m_eventData s @ [map ((!) r) indices] \<rparr>"
    by (simp_all add: loadEventIntoVector_eq_Inr)
  let ?rec = "map ((!) r) indices"
  let ?s2 = "s\<lparr> m_eventData := m_eventData s @ [?rec],
                m_uniqueProducts := getUniqueItems (?rec ! 3) (m_uniqueProducts s),
                m_uniqueUsers := getUniqueItems (?rec ! 5) (m_uniqueUsers s),
                m_uniqueHosts := getUniqueItems (?rec ! 6) (m_uniqueHosts s) \<rparr>"
  from rest have len: "6 < length indices" and add: "addYearToDate U ?s2 = Inr s'"
    by (auto simp: s1 bindE_eq_Inr vector_at2_eq_Inr nth_append)
  have fmt2: "m_fileFormat ?s2 = ReportLog" using fmt by simp
  have evs2: "m_eventData ?s2 = m_eventData s @ [?rec]" by simp
  from addYearToDate_result [OF fmt2 evs2 add] len idx show ?thesis
    by auto
qed

lemma yearMarker_long: "length r \<noteq> 2 \<Longrightarrow> yearMarker U s r = s"
  by (simp add: yearMarker_def)

lemma yearMarker_year: "\<exists>y. yearMarker U s r = s\<lparr> m_eventYear := y \<rparr>"
proof (cases "length r = 2 \<and> length (tokenizeString U ''/'' (r ! 0)) = 3")
  case True
  then show ?thesis by (auto simp: yearMarker_def Let_def)
next
  case False
  then have "yearMarker U s r = s\<lparr> m_eventYear := m_eventYear s \<rparr>"
    by (auto simp: yearMarker_def Let_def)
  then show ?thesis by blast
qed

lemma extractOUT_result:
  assumes tl: "tablesLoaded s" and run: "extractOUT U s row r = Inr s'"
  shows "17 < length r \<and>
         (\<exists>year. rolloverYear U (m_eventData s @ [map ((!) r) (m_OUTindices s)]) (m_eventYear s)
                    (length (m_eventData s)) (r ! 16) = Inr year \<and>
            s' = s\<lparr> m_eventData := m_eventData s @
                       [(map ((!) r) (m_OUTindices s))[1 := r ! 16 @ ''/'' @ year]],
                     m_uniqueProducts := getUniqueItems (r ! 1) (m_uniqueProducts s),
                     m_uniqueUsers := getUniqueItems (r ! 4) (m_uniqueUsers s),
                     m_uniqueHosts := getUniqueItems (r ! 5) (m_uniqueHosts s),
                     m_eventYear := year,
                     m_endTimeRow := Some (length (m_eventData s)) \<rparr>)"
proof -
  from tl have fmt: "m_fileFormat s = ReportLog"
    and idx: "m_OUTindices s = [0, 16, 17, 1, 2, 4, 5, 8, 10, 9]"
    by (simp_all add: tablesLoaded_def)
  from run obtain s1 where
    l: "loadNamedEvent U s row r (m_OUTindices s) = Inr s1" and
    s': "s' = s1\<lparr> m_endTimeRow := Some (length (m_eventData s1) - 1) \<rparr>"
    unfolding extractOUT_def bindE_eq_Inr by auto
  from loadNamedEvent_result [OF fmt l] s' show ?thesis
    by (auto simp: idx)
qed

lemma extractIN_result:
  assumes tl: "tablesLoaded s" and run: "extractIN U s row r = Inr s'"
  shows "12 < length r \<and>
         (\<exists>year. rolloverYear U (m_eventData s @ [map ((!) r) (m_INindices s)]) (m_eventYear s)
                    (length (m_eventData s)) (r ! 11) = Inr year \<and>
            s' = s\<lparr> m_eventData := m_eventData s @
                       [(map ((!) r) (m_INindices s))[1 := r ! 11 @ ''/'' @ year]],
                     m_uniqueProducts := getUniqueItems (r ! 2) (m_uniqueProducts s),
                     m_uniqueUsers := getUniqueItems (r ! 4) (m_uniqueUsers s),
                     m_uniqueHosts := getUniqueItems (r ! 5) (m_uniqueHosts s),
                     m_eventYear := year,
                     m_endTimeRow := Some (length (m_eventData s)) \<rparr>)"
proof -
  from tl have fmt: "m_fileFormat s = ReportLog"
    and idx: "m_INindices s = [0, 11, 12, 2, 3, 4, 5, 8, 10, 9]"
    by (simp_all add: tablesLoaded_def)
  from run obtain s1 where
    l: "loadNamedEvent U s row r (m_INindices s) = Inr s1" and
    s': "s' = s1\<lparr> m_endTimeRow := Some (length (m_eventData s1) - 1) \<rparr>"
    unfolding extractIN_def bindE_eq_Inr by auto
  from loadNamedEvent_result [OF fmt l] s' show ?thesis
    by (auto simp: idx)
qed

lemma extractDENY_result:
  assumes tl: "tablesLoaded s" and run: "extractDENY U s row r = Inr s'"
  shows "11 < length r \<and>
         (\<exists>year. rolloverYear U (m_eventData s @ [map ((!) r) (m_DENYindices s)]) (m_eventYear s)
                    (length (m_eventData s)) (r ! 10) = Inr year \<and>
            s' = s\<lparr> m_eventData := m_eventData s @
                       [(map ((!) r) (m_DENYindices s))[1 := r ! 10 @ ''/'' @ year]],
                     m_uniqueProducts := getUniqueItems (r ! 1) (m_uniqueProducts s),
                     m_uniqueUsers := getUniqueItems (r ! 3) (m_uniqueUsers s),
                     m_uniqueHosts := getUniqueItems (r ! 4) (m_uniqueHosts s),
                     m_eventYear := year,
                     m_denialEvents := m_denialEvents s @
                       [(map ((!) r) (m_DENYindices s))[1 := r ! 10 @ ''/'' @ year]],
                     m_endTimeRow := Some (length (m_eventData s)) \<rparr>)"
proof -
  from tl have fmt: "m_fileFormat s = ReportLog"
    and idx: "m_DENYindices s = [0, 10, 11, 1, 2, 3, 4, 7, 7]"
    by (simp_all add: tablesLoaded_def)
  from run obtain s1 where
    l: "loadNamedEvent U s row r (m_DENYindices s) = Inr s1" and
    s': "bindE (vector_at (m_eventData s1) (length (m_eventData s1) - 1)) (\<lambda>event.
           Inr (s1\<lparr> m_denialEvents := m_denialEvents s1 @ [event],
                   m_endTimeRow := Some (length (m_eventData s1) - 1) \<rparr>)) = Inr s'"
    unfolding extractDENY_def bindE_eq_Inr Let_def by auto
  from loadNamedEvent_result [OF fmt l] s' show ?thesis
    by (auto simp: idx bindE_eq_Inr vector_at_eq_Inr)
qed

lemma extractSHUTDOWN_result:
  assumes tl: "tablesLoaded s" and run: "extractSHUTDOWN U s row r = Inr s'"
  shows "4 < length r \<and>
         (\<exists>year. rolloverYear U (m_eventData s @ [map ((!) r) (m_SHUTindices s)]) (m_eventYear s)
                    (length (m_eventData s)) (r ! 3) = Inr year \<and>
            s' = s\<lparr> m_eventData := m_eventData s @
                       [(map ((!) r) (m_SHUTindices s))[1 := r ! 3 @ ''/'' @ year]],
                     m_eventYear := year,
                     m_shutdownEvents := m_shutdownEvents s @
                       [(map ((!) r) (m_SHUTindices s))[1 := r ! 3 @ ''/'' @ year]],
                     m_endTimeRow := Some (length (m_eventData s)) \<rparr>)"
proof -
  from tl have fmt: "m_fileFormat s = ReportLog"
    and idx: "m_SHUTindices s = [0, 3, 4]"
    by (simp_all add: tablesLoaded_def)
  let ?s1 = "s\<lparr> m_eventData := m_eventData s @ [map ((!) r) (m_SHUTindices s)] \<rparr>"
  from run obtain s2 where
    len: "\<forall>i \<in> set (m_SHUTindices s). i < length r" and
    add: "addYearToDate U ?s1 = Inr s2" and
    s': "bindE (vector_at (m_eventData s2) (length (m_eventData s2) - 1)) (\<lambda>event.
           Inr (s2\<lparr> m_shutdownEvents := m_shutdownEvents s2 @ [event],
                   m_endTimeRow := Some (length (m_eventData s2) - 1) \<rparr>)) = Inr s'"
    unfolding extractSHUTDOWN_def bindE_eq_Inr Let_def loadEventIntoVector_eq_Inr by auto
  have fmt1: "m_fileFormat ?s1 = ReportLog" using fmt by simp
  have evs1: "m_eventData ?s1 = m_eventData s @ [map ((!) r) (m_SHUTindices s)]" by simp
  from addYearToDate_result [OF fmt1 evs1 add] s' len show ?thesis
    by (auto simp: idx bindE_eq_Inr vector_at_eq_Inr)
qed

lemma extractSTART_result:
  assumes tl: "tablesLoaded s" and run: "extractSTART U s row r = Inr s'"
  shows "3 < length r \<and> 2 < length (tokenizeString U ''/'' (r ! 2)) \<and>
         s' = s\<lparr> m_eventData := m_eventData s @ [map ((!) r) (m_STARTindices s)],
                  m_serverName := r ! 1,
                  m_startEvents := m_startEvents s @ [map ((!) r) (m_STARTindices s)],
                  m_eventYear := tokenizeString U ''/'' (r ! 2) ! 2,
                  m_endTimeRow := Some (length (m_eventData s)) \<rparr>"
proof -
  from tl have fmt: "m_fileFormat s = ReportLog"
    and idx: "m_STARTindices s = [0, 2, 3, 1]"
    by (simp_all add: tablesLoaded_def)
  from run fmt show ?thesis
    unfolding extractSTART_def
    by (auto simp: idx bindE_eq_Inr vector_at_eq_Inr vector_at2_eq_Inr
          loadEventIntoVector_eq_Inr Let_def)
qed

lemma extractPRODUCT_result:
  assumes tl: "tablesLoaded s" and run: "extractPRODUCT U s row r = Inr s'"
  shows "5 < length r \<and>
         s' = s\<lparr> m_eventData := m_eventData s @ [map ((!) r) (m_PRODUCTindices s)],
                  m_uniqueProducts := getUniqueItems (r ! 1) (m_uniqueProducts s) \<rparr>"
proof -
  from tl have idx: "m_PRODUCTindices s = [0, 1, 2, 4, 5]"
    by (simp add: tablesLoaded_def)
  from run show ?thesis
    unfolding extractPRODUCT_def
    by (auto simp: idx bindE_eq_Inr vector_at_eq_Inr vector_at2_eq_Inr
          loadEventIntoVector_eq_Inr Let_def)
qed

lemma tablesLoaded_yearMarker: "tablesLoaded (yearMarker U s r) = tablesLoaded s"
proof -
  from yearMarker_year obtain y where "yearMarker U s r = s\<lparr> m_eventYear := y \<rparr>" by blast
  then show ?thesis by (simp add: tablesLoaded_def)
qed

lemma extractRow_cases:
  assumes tl: "tablesLoaded s" and run: "extractRow U s row r = Inr s'"
  shows "r \<noteq> [] \<and> r ! 0 = ''OUT'' \<and> extractOUT U s row r = Inr s'
       \<or> r \<noteq> [] \<and> r ! 0 = ''IN'' \<and> extractIN U s row r = Inr s'
       \<or> r \<noteq> [] \<and> r ! 0 = ''DENY'' \<and> extractDENY U s row r = Inr s'
       \<or> r \<noteq> [] \<and> r ! 0 = ''START'' \<and> extractSTART U s row r = Inr s'
       \<or> r \<noteq> [] \<and> r ! 0 = ''SHUTDOWN'' \<and> extractSHUTDOWN U s row r = Inr s'
       \<or> r \<noteq> [] \<and> r ! 0 = ''PRODUCT'' \<and> extractPRODUCT U s row r = Inr s'
       \<or> (r = [] \<or> kindIndices (r ! 0) = []) \<and> s' = yearMarker U s r"
proof -
  let ?s = "yearMarker U s r"
  have tl': "tablesLoaded ?s" using tl by (simp add: tablesLoaded_yearMarker)
  then have ei: "m_eventIndex ?s = 0" by (simp add: tablesLoaded_def)
  show ?thesis
  proof (cases "r = []")
    case True
    with run ei show ?thesis by (simp add: extractRow_def Let_def)
  next
    case ne: False
    then have pos: "0 < length r" by simp
    note body = run [unfolded extractRow_def Let_def ei, simplified pos if_True]
    show ?thesis
    proof (cases "r ! 0 = ''OUT''")
      case True
      with body have e: "extractOUT U ?s row r = Inr s'" by simp
      from extractOUT_result [OF tl' e] have "?s = s" by (simp add: yearMarker_long)
      with e True ne show ?thesis by simp
    next
      case nOUT: False
      show ?thesis
      proof (cases "r ! 0 = ''IN''")
        case True
        with body have e: "extractIN U ?s row r = Inr s'" by simp
        from extractIN_result [OF tl' e] have "?s = s" by (simp add: yearMarker_long)
        with e True ne show ?thesis by simp
      next
        case nIN: False
        show ?thesis
        proof (cases "r ! 0 = ''DENY''")
          case True
          with body have e: "extractDENY U ?s row r = Inr s'" by simp
          from extractDENY_result [OF tl' e] have "?s = s" by (simp add: yearMarker_long)
          with e True ne show ?thesis by simp
        next
          case nDENY: False
          show ?thesis
          proof (cases "r ! 0 = ''START''")
            case True
            with body have e: "extractSTART U ?s row r = Inr s'" by simp
            from extractSTART_result [OF tl' e] have "?s = s" by (simp add: yearMarker_long)
            with e True ne show ?thesis by simp
          next
            case nSTART: False
            show ?thesis
            proof (cases "r ! 0 = ''SHUTDOWN''")
              case True
              with body have e: "extractSHUTDOWN U ?s row r = Inr s'" by simp
              from extractSHUTDOWN_result [OF tl' e] have "?s = s" by (simp add: yearMarker_long)
              with e True ne show ?thesis by simp
            next
              case nSHUT: False
              show ?thesis
              proof (cases "r ! 0 = ''PRODUCT''")
                case True
                with body have e: "extractPRODUCT U ?s row r = Inr s'" by simp
                from extractPRODUCT_result [OF tl' e] have "?s = s" by (simp add: yearMarker_long)
                with e True ne show ?thesis by simp
              next
                case False
                with nOUT nIN nDENY nSTART nSHUT body show ?thesis
                  by (simp add: kindIndices_def)
              qed
            qed
          qed
        qed
      qed
    qed
  qed
qed

lemma extractRow_effect:
  assumes tl: "tablesLoaded s" and run: "extractRow U s row r = Inr s'"
  shows "tablesLoaded s' \<and>
    (if r \<noteq> [] \<and> kindIndices (r ! 0) \<noteq> [] then
       m_eventData s' = m_eventData s @
         [if stampedKind (r ! 0)
          then (map ((!) r) (kindIndices (r ! 0)))
                 [IndexDate := r ! (kindIndices (r ! 0) ! IndexDate) @ ''/'' @ m_eventYear s']
          else map ((!) r) (kindIndices (r ! 0))] \<and>
       (\<forall>i \<in> set (kindIndices (r ! 0)). i < length r) \<and>
       m_endTimeRow s' =
         (if r ! 0 = ''PRODUCT'' then m_endTimeRow s else Some (length (m_eventData s)))
     else m_eventData s' = m_eventData s \<and> m_endTimeRow s' = m_endTimeRow s)"
proof -
  from extractRow_cases [OF tl run]
  consider (OUT) "r \<noteq> []" "r ! 0 = ''OUT''" "extractOUT U s row r = Inr s'"
    | (IN) "r \<noteq> []" "r ! 0 = ''IN''" "extractIN U s row r = Inr s'"
    | (DENY) "r \<noteq> []" "r ! 0 = ''DENY''" "extractDENY U s row r = Inr s'"
    | (START) "r \<noteq> []" "r ! 0 = ''START''" "extractSTART U s row r = Inr s'"
    | (SHUT) "r \<noteq> []" "r ! 0 = ''SHUTDOWN''" "extractSHUTDOWN U s row r = Inr s'"
    | (PROD) "r \<noteq> []" "r ! 0 = ''PRODUCT''" "extractPRODUCT U s row r = Inr s'"
    | (other) "r = [] \<or> kindIndices (r ! 0) = []" "s' = yearMarker U s r"
    by blast
  then show ?thesis
  proof cases
    case OUT
    from extractOUT_result [OF tl OUT(3)] tl OUT(1,2) show ?thesis
      by (auto simp: tablesLoaded_def kindIndices_def stampedKind_def)
  next
    case IN
    from extractIN_result [OF tl IN(3)] tl IN(1,2) show ?thesis
      by (auto simp: tablesLoaded_def kindIndices_def stampedKind_def)
  next
    case DENY
    from extractDENY_result [OF tl DENY(3)] tl DENY(1,2) show ?thesis
      by (auto simp: tablesLoaded_def kindIndices_def stampedKind_def)
  next
    case START
    from extractSTART_result [OF tl START(3)] tl START(1,2) show ?thesis
      by (auto simp: tablesLoaded_def kindIndices_def stampedKind_def)
  next
    case SHUT
    from extractSHUTDOWN_result [OF tl SHUT(3)] tl SHUT(1,2) show ?thesis
      by (auto simp: tablesLoaded_def kindIndices_def stampedKind_def)
  next
    case PROD
    from extractPRODUCT_result [OF tl PROD(3)] tl PROD(1,2) show ?thesis
      by (auto simp: tablesLoaded_def kindIndices_def stampedKind_def)
  next
    case other
    from yearMarker_year obtain y where "yearMarker U s r = s\<lparr> m_eventYear := y \<rparr>" by blast
    with other tl show ?thesis
      by (auto simp: tablesLoaded_def)
  qed
qed

lemma extractRow_prefix:
  assumes tl: "tablesLoaded s" and run: "extractRow U s row r = Inr s'"
  shows "tablesLoaded s' \<and> (\<exists>more. m_eventData s' = m_eventData s @ more)"
  using extractRow_effect [OF tl run] by (auto split: if_splits)

lemma extractRows_prefix:
  "tablesLoaded s \<Longrightarrow> extractRows U s row rows = Inr s'
     \<Longrightarrow> tablesLoaded s' \<and> (\<exists>more. m_eventData s' = m_eventData s @ more)"
proof (induction rows arbitrary: s row)
  case Nil
  then show ?case by simp
next
  case (Cons r rows)
  from Cons.prems(2) obtain s1 where
    step: "extractRow U s row r = Inr s1" and rest: "extractRows U s1 (Suc row) rows = Inr s'"
    by (auto simp: bindE_eq_Inr)
  from extractRow_prefix [OF Cons.prems(1) step] obtain more1 where
    tl1: "tablesLoaded s1" and m1: "m_eventData s1 = m_eventData s @ more1" by blast
  from Cons.IH [OF tl1 rest] obtain more2 where
    "tablesLoaded s'" and "m_eventData s' = m_eventData s1 @ more2" by blast
  with m1 show ?case by simp
qed

lemma extractRows_append:
  "extractRows U s row (xs @ ys) =
     bindE (extractRows U s row xs) (\<lambda>s'. extractRows U s' (row + length xs) ys)"
proof (induction xs arbitrary: s row)
  case Nil
  then show ?case by simp
next
  case (Cons x xs)
  show ?case
  proof (cases "extractRow U s row x")
    case (Inl e)
    then show ?thesis by simp
  next
    case (Inr s1)
    then show ?thesis by (simp add: Cons.IH)
  qed
qed

lemma endsWithYear_stamp: "fourDigitYear y \<Longrightarrow> endsWithYear (raw @ ''/'' @ y)"
  by (simp add: endsWithYear_def fourDigitYear_def nth_append)

lemma take2_eq:
  "take 2 tv = [a, b] \<longleftrightarrow> 1 < length tv \<and> tv ! 0 = a \<and> tv ! 1 = b"
proof (cases tv)
  case Nil
  then show ?thesis by simp
next
  case (Cons x xs)
  then show ?thesis by (cases xs) auto
qed

lemma rolloverYear_result:
  assumes run: "rolloverYear U (evs @ [rec]) y (length evs) d = Inr year"
  shows "year = (if d = ''01/01'' \<and> take 2 (tokenizeString U '':'' (rec ! 2)) = [''00'', ''00'']
                 then toString_int U (atoi U y + 1) else y)"
proof (cases "d = ''01/01''")
  case False
  with run show ?thesis by (simp add: rolloverYear_def)
next
  case True
  let ?tv = "tokenizeString U '':'' (rec ! 2)"
  from run True have body:
    "bindE (vector_at ?tv 0) (\<lambda>hh.
       if hh = ''00'' then
         bindE (vector_at ?tv 1) (\<lambda>mm.
           if mm = ''00'' then Inr (toString_int U (atoi U y + 1)) else Inr y)
       else Inr y) = Inr year"
    by (auto simp: rolloverYear_def bindE_eq_Inr vector_at2_eq_Inr Let_def)
  show ?thesis
  proof (cases "?tv ! 0 = ''00''")
    case False
    with body True show ?thesis
      by (auto simp: bindE_eq_Inr vector_at_eq_Inr take2_eq)
  next
    case hh: True
    with body have "1 < length ?tv \<and>
        year = (if ?tv ! 1 = ''00'' then toString_int U (atoi U y + 1) else y)"
      by (auto simp: bindE_eq_Inr vector_at_eq_Inr split: if_splits)
    with hh True show ?thesis by (simp add: take2_eq)
  qed
qed

lemma extractRow_year:
  assumes tl: "tablesLoaded s" and run: "extractRow U s row r = Inr s'"
  shows "m_eventYear s' = specYearAfter U (m_eventYear s) r"
proof -
  from extractRow_cases [OF tl run]
  consider (OUT) "r \<noteq> []" "r ! 0 = ''OUT''" "extractOUT U s row r = Inr s'"
    | (IN) "r \<noteq> []" "r ! 0 = ''IN''" "extractIN U s row r = Inr s'"
    | (DENY) "r \<noteq> []" "r ! 0 = ''DENY''" "extractDENY U s row r = Inr s'"
    | (START) "r \<noteq> []" "r ! 0 = ''START''" "extractSTART U s row r = Inr s'"
    | (SHUT) "r \<noteq> []" "r ! 0 = ''SHUTDOWN''" "extractSHUTDOWN U s row r = Inr s'"
    | (PROD) "r \<noteq> []" "r ! 0 = ''PRODUCT''" "extractPRODUCT U s row r = Inr s'"
    | (other) "r = [] \<or> kindIndices (r ! 0) = []" "s' = yearMarker U s r"
    by blast
  then show ?thesis
  proof cases
    case OUT
    from tl have idx: "m_OUTindices s = [0, 16, 17, 1, 2, 4, 5, 8, 10, 9]"
      by (simp add: tablesLoaded_def)
    from extractOUT_result [OF tl OUT(3)] obtain year where
      len: "17 < length r" and
      roll: "rolloverYear U (m_eventData s @ [map ((!) r) (m_OUTindices s)]) (m_eventYear s)
               (length (m_eventData s)) (r ! 16) = Inr year" and
      y: "m_eventYear s' = year"
      by auto
    from rolloverYear_result [OF roll] len y OUT(1,2) show ?thesis
      by (simp add: idx specYearAfter_def isYearMarker_def stampedKind_def kindIndices_def)
  next
    case IN
    from tl have idx: "m_INindices s = [0, 11, 12, 2, 3, 4, 5, 8, 10, 9]"
      by (simp add: tablesLoaded_def)
    from extractIN_result [OF tl IN(3)] obtain year where
      len: "12 < length r" and
      roll: "rolloverYear U (m_eventData s @ [map ((!) r) (m_INindices s)]) (m_eventYear s)
               (length (m_eventData s)) (r ! 11) = Inr year" and
      y: "m_eventYear s' = year"
      by auto
    from rolloverYear_result [OF roll] len y IN(1,2) show ?thesis
      by (simp add: idx specYearAfter_def isYearMarker_def stampedKind_def kindIndices_def)
  next
    case DENY
    from tl have idx: "m_DENYindices s = [0, 10, 11, 1, 2, 3, 4, 7, 7]"
      by (simp add: tablesLoaded_def)
    from extractDENY_result [OF tl DENY(3)] obtain year where
      len: "11 < length r" and
      roll: "rolloverYear U (m_eventData s @ [map ((!) r) (m_DENYindices s)]) (m_eventYear s)
               (length (m_eventData s)) (r ! 10) = Inr year" and
      y: "m_eventYear s' = year"
      by auto
    from rolloverYear_result [OF roll] len y DENY(1,2) show ?thesis
      by (simp add: idx specYearAfter_def isYearMarker_def stampedKind_def kindIndices_def)
  next
    case SHUT
    from tl have idx: "m_SHUTindices s = [0, 3, 4]"
      by (simp add: tablesLoaded_def)
    from extractSHUTDOWN_result [OF tl SHUT(3)] obtain year where
      len: "4 < length r" and
      roll: "rolloverYear U (m_eventData s @ [map ((!) r) (m_SHUTindices s)]) (m_eventYear s)
               (length (m_eventData s)) (r ! 3) = Inr year" and
      y: "m_eventYear s' = year"
      by auto
    from rolloverYear_result [OF roll] len y SHUT(1,2) show ?thesis
      by (simp add: idx specYearAfter_def isYearMarker_def stampedKind_def kindIndices_def)
  next
    case START
    from extractSTART_result [OF tl START(3)] START(1,2) show ?thesis
      by (simp add: specYearAfter_def isYearMarker_def stampedKind_def)
  next
    case PROD
    from extractPRODUCT_result [OF tl PROD(3)] PROD(1,2) show ?thesis
      by (simp add: specYearAfter_def isYearMarker_def stampedKind_def)
  next
    case other
    then have ns: "r = [] \<or> \<not> stampedKind (r ! 0) \<and> r ! 0 \<noteq> ''START''"
      by (auto simp: kindIndices_def stampedKind_def split: if_splits)
    from other(2) ns show ?thesis
      by (auto simp: specYearAfter_def yearMarker_def isYearMarker_def Let_def)
  qed
qed

lemma extractRow_spec:
  assumes tl: "tablesLoaded s" and run: "extractRow U s row r = Inr s'"
  shows "tablesLoaded s' \<and> m_eventYear s' = specYearAfter U (m_eventYear s) r \<and>
         m_eventData s' = m_eventData s @
           (if isEventRow r then [specRecord r (specYearAfter U (m_eventYear s) r)] else [])"
  using extractRow_effect [OF tl run] extractRow_year [OF tl run]
  by (simp add: isEventRow_def specRecord_def)

lemma extractRows_spec:
  "tablesLoaded s \<Longrightarrow> extractRows U s row rows = Inr s'
     \<Longrightarrow> m_eventData s' = m_eventData s @ specRecords U (m_eventYear s) rows"
proof (induction rows arbitrary: s row)
  case Nil
  then show ?case by simp
next
  case (Cons r rows)
  from Cons.prems(2) obtain s1 where
    step: "extractRow U s row r = Inr s1" and rest: "extractRows U s1 (Suc row) rows = Inr s'"
    by (auto simp: bindE_eq_Inr)
  from extractRow_spec [OF Cons.prems(1) step] have
    tl1: "tablesLoaded s1" and y1: "m_eventYear s1 = specYearAfter U (m_eventYear s) r" and
    d1: "m_eventData s1 = m_eventData s @
           (if isEventRow r then [specRecord r (specYearAfter U (m_eventYear s) r)] else [])"
    by simp_all
  from Cons.IH [OF tl1 rest] show ?case
    by (simp add: y1 d1)
qed

lemma specRecord_dated:
  assumes ev: "isEventRow r"
    and stamped: "stampedKind (r ! 0) \<Longrightarrow> fourDigitYear y"
    and start: "r ! 0 = ''START'' \<Longrightarrow> endsWithYear (r ! 2)"
    and np: "specRecord r y ! IndexEvent \<noteq> ''PRODUCT''"
  shows "endsWithYear (specRecord r y ! IndexDate)"
proof (cases "stampedKind (r ! 0)")
  case True
  then have "1 < length (kindIndices (r ! 0))"
    by (auto simp: stampedKind_def kindIndices_def)
  with True stamped endsWithYear_stamp [of y "r ! (kindIndices (r ! 0) ! IndexDate)"]
  show ?thesis
    by (simp add: specRecord_def)
next
  case False
  with ev have "r ! 0 = ''START'' \<or> r ! 0 = ''PRODUCT''"
    by (auto simp: isEventRow_def kindIndices_def stampedKind_def split: if_splits)
  then show ?thesis
  proof
    assume st: "r ! 0 = ''START''"
    with start show ?thesis by (simp add: specRecord_def stampedKind_def kindIndices_def)
  next
    assume "r ! 0 = ''PRODUCT''"
    with np show ?thesis by (simp add: specRecord_def stampedKind_def kindIndices_def)
  qed
qed

lemma specRecords_dated:
  "validReportLog U y rows \<Longrightarrow> rec \<in> set (specRecords U y rows)
     \<Longrightarrow> rec ! IndexEvent \<noteq> ''PRODUCT'' \<Longrightarrow> endsWithYear (rec ! IndexDate)"
proof (induction rows arbitrary: y)
  case Nil
  then show ?case by simp
next
  case (Cons r rows)
  let ?y = "specYearAfter U y r"
  from Cons.prems(1) have
    v1: "r = [] \<or> \<not> stampedKind (r ! 0) \<or> fourDigitYear ?y" and
    v2: "r = [] \<or> r ! 0 \<noteq> ''START'' \<or> endsWithYear (r ! 2)" and
    v3: "validReportLog U ?y rows"
    by simp_all
  from Cons.prems(2) consider
    (here) "isEventRow r" "rec = specRecord r ?y" | (later) "rec \<in> set (specRecords U ?y rows)"
    by (auto split: if_splits)
  then show ?case
  proof cases
    case here
    from here(1) have ne: "r \<noteq> []" by (simp add: isEventRow_def)
    from specRecord_dated [OF here(1), of ?y] v1 v2 ne Cons.prems(3) show ?thesis
      by (auto simp: here(2))
  next
    case later
    from Cons.IH [OF v3 later Cons.prems(3)] show ?thesis .
  qed
qed

text \<open>
  C9. Take a Report Log that is extracted without error and is valid: each START row
  carries a full date, which ends with "/" and a 4-digit year, and at each OUT, IN, DENY
  and SHUTDOWN row the year in force is a 4-digit year, the year in force being the one
  of the last START row or year marker, advanced by one at each OUT, IN, DENY or SHUTDOWN
  row dated "01/01" whose time splits at ":" into "00", "00" and possibly more. Then the
  event table holds, in the order of the rows, one record for each event row and nothing
  else; the record of an OUT, IN, DENY or SHUTDOWN row is the row projected onto the
  columns of its kind with, as its date, the row's date column followed once by "/" and
  the year in force; the record of a START or PRODUCT row is the projection of the row,
  nothing appended. So the date of every record that has one ends with "/" and a 4-digit
  year, appended once to the date of an OUT, IN, DENY or SHUTDOWN row and part of a
  START row's own date. A PRODUCT record has no date field: the product name stands in
  that position.
\<close>

theorem dated_records_end_with_the_year_once:
  assumes run: "extractEvents U (newLogData ReportLog) rows = Inr sF"
    and valid: "validReportLog U [] rows"
  shows "m_eventData sF = specRecords U [] rows \<and>
         (\<forall>rec \<in> set (m_eventData sF).
            rec ! IndexEvent \<noteq> ''PRODUCT'' \<longrightarrow> endsWithYear (rec ! IndexDate))"
proof -
  let ?s0 = "getEventIndices (newLogData ReportLog)"
  have tl0: "tablesLoaded ?s0" by (rule tablesLoaded_getEventIndices)
  have y0: "m_eventYear ?s0 = []" and d0: "m_eventData ?s0 = []"
    by (simp_all add: getEventIndices_def newLogData_def)
  from run have rows: "extractRows U ?s0 0 rows = Inr sF"
    by (simp add: extractEvents_def)
  from extractRows_spec [OF tl0 rows] have table: "m_eventData sF = specRecords U [] rows"
    by (simp add: y0 d0)
  from specRecords_dated [OF valid] have
    "\<forall>rec \<in> set (specRecords U [] rows).
       rec ! IndexEvent \<noteq> ''PRODUCT'' \<longrightarrow> endsWithYear (rec ! IndexDate)"
    by blast
  with table show ?thesis by simp
qed

lemmas extract_eval =
  extractEvents_def getEventIndices_def newLogData_def extractRow_def yearMarker_def
  extractOUT_def extractIN_def extractSTART_def extractSHUTDOWN_def extractPRODUCT_def
  extractDENY_def loadNamedEvent_def loadEventIntoVector_def vector_at_def vector_at2_def
  addYearToDate_def rolloverYear_def getUniqueItems_def
  rowSTART_def rowPRODUCT_def rowIN_early_def rowOUT_def rowIN_def rowOUT_open_def rowDENY_def
  rowSHUTDOWN_def sampleRows_def sampleLog_def shutdownLog_def
  sampleUtilities_def sampleTokenize_def sampleAtoi_def sampleToStringInt_def
  digitOf_def digitChar_def

lemma extractEvents_sampleRows:
  "extractEvents sampleUtilities (newLogData ReportLog) sampleRows = Inr sampleLog"
  by (simp add: extract_eval)

lemma extractEvents_sampleRows_SHUTDOWN:
  "extractEvents sampleUtilities (newLogData ReportLog) (sampleRows @ [rowSHUTDOWN]) = Inr shutdownLog"
  by (simp add: extract_eval)

lemmas spec_eval =
  validReportLog.simps specRecords.simps specRecord_def specYearAfter_def isYearMarker_def
  isEventRow_def stampedKind_def kindIndices_def fourDigitYear_def endsWithYear_def

lemma validReportLog_sampleRows: "validReportLog sampleUtilities [] sampleRows"
  by (simp add: spec_eval extract_eval)

theorem dated_records_end_with_the_year_once_witness:
  "extractEvents sampleUtilities (newLogData ReportLog) sampleRows = Inr sampleLog \<and>
   validReportLog sampleUtilities [] sampleRows \<and>
   m_eventData sampleLog = specRecords sampleUtilities [] sampleRows \<and>
   m_eventData sampleLog ! 0 \<in> set (m_eventData sampleLog) \<and>
   m_eventData sampleLog ! 0 ! IndexEvent \<noteq> ''PRODUCT'' \<and>
   m_eventData sampleLog ! 0 ! IndexDate = ''12/31/2022'' \<and>
   endsWithYear (m_eventData sampleLog ! 0 ! IndexDate) \<and>
   m_eventData sampleLog ! 4 \<in> set (m_eventData sampleLog) \<and>
   m_eventData sampleLog ! 4 ! IndexEvent \<noteq> ''PRODUCT'' \<and>
   m_eventData sampleLog ! 4 ! IndexDate = ''12/31/2022'' \<and>
   endsWithYear (m_eventData sampleLog ! 4 ! IndexDate) \<and>
   m_eventData sampleLog ! 5 \<in> set (m_eventData sampleLog) \<and>
   m_eventData sampleLog ! 5 ! IndexEvent \<noteq> ''PRODUCT'' \<and>
   m_eventData sampleLog ! 5 ! IndexDate = ''01/01/2023'' \<and>
   endsWithYear (m_eventData sampleLog ! 5 ! IndexDate)"
proof -
  note run = extractEvents_sampleRows
  note valid = validReportLog_sampleRows
  have r0: "m_eventData sampleLog ! 0 \<in> set (m_eventData sampleLog)"
    and k0: "m_eventData sampleLog ! 0 ! IndexEvent \<noteq> ''PRODUCT''"
    and d0: "m_eventData sampleLog ! 0 ! IndexDate = ''12/31/2022''"
    and r4: "m_eventData sampleLog ! 4 \<in> set (m_eventData sampleLog)"
    and k4: "m_eventData sampleLog ! 4 ! IndexEvent \<noteq> ''PRODUCT''"
    and d4: "m_eventData sampleLog ! 4 ! IndexDate = ''12/31/2022''"
    and r5: "m_eventData sampleLog ! 5 \<in> set (m_eventData sampleLog)"
    and k5: "m_eventData sampleLog ! 5 ! IndexEvent \<noteq> ''PRODUCT''"
    and d5: "m_eventData sampleLog ! 5 ! IndexDate = ''01/01/2023''"
    by (simp_all add: sampleLog_def)
  from dated_records_end_with_the_year_once [OF run valid] have
    table: "m_eventData sampleLog = specRecords sampleUtilities [] sampleRows" and
    dated: "\<And>rec. rec \<in> set (m_eventData sampleLog) \<Longrightarrow> rec ! IndexEvent \<noteq> ''PRODUCT''
              \<Longrightarrow> endsWithYear (rec ! IndexDate)"
    by blast+
  from run valid table r0 k0 d0 dated [OF r0 k0] r4 k4 d4 dated [OF r4 k4] r5 k5 d5 dated [OF r5 k5]
  show ?thesis by blast
qed

text \<open>
  A year marker sets the year in force as a START row does: the check-out behind the
  marker of 06/30/2024 is stamped with 2024.
\<close>

lemma extractEvents_after_year_marker:
  "map_sum id m_eventData
     (extractEvents sampleUtilities (newLogData ReportLog) [[''06/30/2024'', ''12:00''], rowOUT]) =
   Inr [[''OUT'', ''12/31/2024'', ''23:59'', ''imaris'', ''9.8'', ''alice'', ''ws01'', ''3'', ''41'', ''1'']] \<and>
   validReportLog sampleUtilities [] [[''06/30/2024'', ''12:00''], rowOUT]"
  by (simp add: spec_eval extract_eval)

text \<open>
  The ambient year is the empty string until a START row or a year marker sets it: an OUT
  row before both is stamped with "/" alone, and such a log is not a valid one.
\<close>

lemma OUT_before_START_gets_empty_year:
  "map_sum id m_eventData (extractEvents sampleUtilities (newLogData ReportLog) [rowOUT]) =
   Inr [[''OUT'', ''12/31/'', ''23:59'', ''imaris'', ''9.8'', ''alice'', ''ws01'', ''3'', ''41'', ''1'']] \<and>
   \<not> validReportLog sampleUtilities [] [rowOUT]"
  by (simp add: spec_eval extract_eval)


lemma rolloverYear_new_year:
  "2 < length rec \<Longrightarrow> tokenizeString U '':'' (rec ! 2) = ''00'' # ''00'' # rest \<Longrightarrow>
     rolloverYear U (evs @ [rec]) Y (length evs) ''01/01'' = Inr (toString_int U (atoi U Y + 1))"
  by (simp add: rolloverYear_def vector_at2_def vector_at_def nth_append Let_def)

lemma loadNamedEvent_total:
  assumes fmt: "m_fileFormat s = ReportLog"
    and idx: "\<forall>i \<in> set indices. i < length r" and le: "length indices \<le> length r"
    and l6: "6 < length indices"
    and roll: "rolloverYear U (m_eventData s @ [map ((!) r) indices]) (m_eventYear s)
                 (length (m_eventData s)) (r ! (indices ! 1)) = Inr year"
  shows "loadNamedEvent U s row r indices =
           Inr (s\<lparr> m_eventData := m_eventData s @
                       [(map ((!) r) indices)[1 := r ! (indices ! 1) @ ''/'' @ year]],
                     m_uniqueProducts := getUniqueItems (r ! (indices ! 3)) (m_uniqueProducts s),
                     m_uniqueUsers := getUniqueItems (r ! (indices ! 5)) (m_uniqueUsers s),
                     m_uniqueHosts := getUniqueItems (r ! (indices ! 6)) (m_uniqueHosts s),
                     m_eventYear := year \<rparr>)"
proof -
  have load: "loadEventIntoVector r row indices s =
                Inr (s\<lparr> m_eventData := m_eventData s @ [map ((!) r) indices] \<rparr>)"
    using idx le by (simp add: loadEventIntoVector_eq_Inr)
  show ?thesis
    using l6 fmt roll
    by (simp add: loadNamedEvent_def load vector_at2_def vector_at_def nth_append Let_def
          addYearToDate_def)
qed

lemma extractRow_stamped_total:
  assumes tl: "tablesLoaded s" and kind: "stampedKind (r ! 0)"
    and len: "\<forall>i \<in> set (kindIndices (r ! 0)). i < length r"
    and roll: "rolloverYear U (m_eventData s @ [map ((!) r) (kindIndices (r ! 0))]) (m_eventYear s)
                 (length (m_eventData s)) (r ! (kindIndices (r ! 0) ! 1)) = Inr year"
  shows "\<exists>s'. extractRow U s row r = Inr s' \<and> m_eventYear s' = year \<and>
           m_eventData s' = m_eventData s @
             [(map ((!) r) (kindIndices (r ! 0)))
                [1 := r ! (kindIndices (r ! 0) ! 1) @ ''/'' @ year]]"
proof -
  from tl have fmt: "m_fileFormat s = ReportLog" and ei: "m_eventIndex s = 0"
    and tabs: "m_OUTindices s = kindIndices ''OUT''" "m_INindices s = kindIndices ''IN''"
      "m_DENYindices s = kindIndices ''DENY''" "m_SHUTindices s = kindIndices ''SHUTDOWN''"
    by (simp_all add: tablesLoaded_def kindIndices_def)
  from kind consider (OUT) "r ! 0 = ''OUT''" | (IN) "r ! 0 = ''IN''" | (DENY) "r ! 0 = ''DENY''"
    | (SHUT) "r ! 0 = ''SHUTDOWN''"
    by (auto simp: stampedKind_def)
  then show ?thesis
  proof cases
    case OUT
    from len OUT have l: "17 < length r" by (simp add: kindIndices_def)
    then have ym: "yearMarker U s r = s" by (simp add: yearMarker_long)
    from l have ne: "r \<noteq> []" by (cases r) simp_all
    have "loadNamedEvent U s row r (kindIndices ''OUT'') = Inr
           (s\<lparr> m_eventData := m_eventData s @
                       [(map ((!) r) (kindIndices ''OUT''))[1 := r ! (kindIndices ''OUT'' ! 1) @ ''/'' @ year]],
                     m_uniqueProducts := getUniqueItems (r ! (kindIndices ''OUT'' ! 3)) (m_uniqueProducts s),
                     m_uniqueUsers := getUniqueItems (r ! (kindIndices ''OUT'' ! 5)) (m_uniqueUsers s),
                     m_uniqueHosts := getUniqueItems (r ! (kindIndices ''OUT'' ! 6)) (m_uniqueHosts s),
                     m_eventYear := year \<rparr>)"
      using l len roll OUT by (intro loadNamedEvent_total [OF fmt]) (simp_all add: kindIndices_def)
    then show ?thesis
      using l ne OUT by (simp add: extractRow_def ym ei extractOUT_def tabs)
  next
    case IN
    from len IN have l: "12 < length r" by (simp add: kindIndices_def)
    then have ym: "yearMarker U s r = s" by (simp add: yearMarker_long)
    from l have ne: "r \<noteq> []" by (cases r) simp_all
    have "loadNamedEvent U s row r (kindIndices ''IN'') = Inr
           (s\<lparr> m_eventData := m_eventData s @
                       [(map ((!) r) (kindIndices ''IN''))[1 := r ! (kindIndices ''IN'' ! 1) @ ''/'' @ year]],
                     m_uniqueProducts := getUniqueItems (r ! (kindIndices ''IN'' ! 3)) (m_uniqueProducts s),
                     m_uniqueUsers := getUniqueItems (r ! (kindIndices ''IN'' ! 5)) (m_uniqueUsers s),
                     m_uniqueHosts := getUniqueItems (r ! (kindIndices ''IN'' ! 6)) (m_uniqueHosts s),
                     m_eventYear := year \<rparr>)"
      using l len roll IN by (intro loadNamedEvent_total [OF fmt]) (simp_all add: kindIndices_def)
    then show ?thesis
      using l ne IN by (simp add: extractRow_def ym ei extractIN_def tabs)
  next
    case DENY
    from len DENY have l: "11 < length r" by (simp add: kindIndices_def)
    then have ym: "yearMarker U s r = s" by (simp add: yearMarker_long)
    from l have ne: "r \<noteq> []" by (cases r) simp_all
    have "loadNamedEvent U s row r (kindIndices ''DENY'') = Inr
           (s\<lparr> m_eventData := m_eventData s @
                       [(map ((!) r) (kindIndices ''DENY''))[1 := r ! (kindIndices ''DENY'' ! 1) @ ''/'' @ year]],
                     m_uniqueProducts := getUniqueItems (r ! (kindIndices ''DENY'' ! 3)) (m_uniqueProducts s),
                     m_uniqueUsers := getUniqueItems (r ! (kindIndices ''DENY'' ! 5)) (m_uniqueUsers s),
                     m_uniqueHosts := getUniqueItems (r ! (kindIndices ''DENY'' ! 6)) (m_uniqueHosts s),
                     m_eventYear := year \<rparr>)"
      using l len roll DENY by (intro loadNamedEvent_total [OF fmt]) (simp_all add: kindIndices_def)
    then show ?thesis
      using l ne DENY by (simp add: extractRow_def ym ei extractDENY_def tabs vector_at_def)
  next
    case SHUT
    from len SHUT have l: "4 < length r" by (simp add: kindIndices_def)
    then have ym: "yearMarker U s r = s" by (simp add: yearMarker_long)
    from l have ne: "r \<noteq> []" by (cases r) simp_all
    have load: "loadEventIntoVector r row [0, 3, 4] s =
                Inr (s\<lparr> m_eventData := m_eventData s @ [[r ! 0, r ! 3, r ! 4]] \<rparr>)"
      using l ne by (simp add: loadEventIntoVector_eq_Inr)
    show ?thesis
      using l ne SHUT fmt roll
      by (simp add: extractRow_def ym ei extractSHUTDOWN_def tabs load addYearToDate_def
            vector_at2_def vector_at_def nth_append Let_def kindIndices_def)
  qed
qed

lemma extractRow_skip:
  assumes tl: "tablesLoaded s" and ny: "\<not> isYearMarker U m" and ne: "\<not> isEventRow m"
  shows "extractRow U s row m = Inr s"
proof -
  from ny have ym: "yearMarker U s m = s"
    by (auto simp: yearMarker_def isYearMarker_def Let_def)
  from tl have ei: "m_eventIndex s = 0" by (simp add: tablesLoaded_def)
  from ne show ?thesis
    by (auto simp: extractRow_def ym ei isEventRow_def kindIndices_def split: if_splits)
qed

lemma extractRows_skip:
  assumes tl: "tablesLoaded s" and mid: "\<forall>m \<in> set mid. \<not> isYearMarker U m \<and> \<not> isEventRow m"
  shows "extractRows U s row mid = Inr s"
  using mid by (induction mid arbitrary: row) (simp_all add: extractRow_skip [OF tl])

text \<open>
  C5. From a state with ambient year Y (the state in which the previous event was
  stamped), after any rows \<open>mid\<close> that are neither events nor year markers, an OUT, IN,
  DENY or SHUTDOWN row that has the columns of its kind, is dated "01/01" and whose time
  splits at ":" into "00", "00" and possibly more, is extracted without error, its
  record is dated "01/01/" followed by Y + 1, and the ambient year is Y + 1 afterwards.
  Y + 1 is \<^verbatim>\<open>toString(atoi(Y) + 1)\<close>, computed in a C++ \<^verbatim>\<open>int\<close>.
\<close>

theorem new_year_rollover:
  assumes tl: "tablesLoaded s"
    and mid: "\<forall>m \<in> set mid. \<not> isYearMarker U m \<and> \<not> isEventRow m"
    and kind: "stampedKind (r ! 0)"
    and len: "\<forall>i \<in> set (kindIndices (r ! 0)). i < length r"
    and date: "r ! (kindIndices (r ! 0) ! IndexDate) = ''01/01''"
    and time: "tokenizeString U '':'' (r ! (kindIndices (r ! 0) ! IndexTime)) = ''00'' # ''00'' # rest"
  shows "\<exists>s'. extractRows U s row (mid @ [r]) = Inr s' \<and>
           m_eventYear s' = toString_int U (atoi U (m_eventYear s) + 1) \<and>
           last (m_eventData s') ! IndexDate =
             ''01/01/'' @ toString_int U (atoi U (m_eventYear s) + 1)"
proof -
  let ?rec = "map ((!) r) (kindIndices (r ! 0))"
  from kind have l3: "2 < length (kindIndices (r ! 0))"
    by (auto simp: stampedKind_def kindIndices_def)
  with len have t: "?rec ! 2 = r ! (kindIndices (r ! 0) ! 2)" by simp
  have roll: "rolloverYear U (m_eventData s @ [?rec]) (m_eventYear s)
                 (length (m_eventData s)) (r ! (kindIndices (r ! 0) ! 1))
              = Inr (toString_int U (atoi U (m_eventYear s) + 1))"
    unfolding date using l3 time by (intro rolloverYear_new_year) (simp_all add: t)
  from extractRow_stamped_total [OF tl kind len roll] obtain s' where
    step: "extractRow U s (row + length mid) r = Inr s'" and
    year: "m_eventYear s' = toString_int U (atoi U (m_eventYear s) + 1)" and
    evs: "m_eventData s' = m_eventData s @
             [?rec[1 := r ! (kindIndices (r ! 0) ! 1) @ ''/'' @
                   toString_int U (atoi U (m_eventYear s) + 1)]]"
    by blast
  have run: "extractRows U s row (mid @ [r]) = Inr s'"
    by (simp add: extractRows_append extractRows_skip [OF tl mid] step)
  from l3 date have "last (m_eventData s') ! IndexDate =
             ''01/01/'' @ toString_int U (atoi U (m_eventYear s) + 1)"
    by (simp add: evs)
  with run year show ?thesis by blast
qed

theorem new_year_rollover_witness:
  "\<exists>s. extractEvents sampleUtilities (newLogData ReportLog)
          [rowSTART, rowPRODUCT, rowIN_early, rowOUT] = Inr s \<and>
        tablesLoaded s \<and> m_eventYear s = ''2022'' \<and>
        (\<forall>m \<in> set [[''#'', ''license'', ''usage'']].
           \<not> isYearMarker sampleUtilities m \<and> \<not> isEventRow m) \<and>
        stampedKind (rowIN ! 0) \<and>
        (\<forall>i \<in> set (kindIndices (rowIN ! 0)). i < length rowIN) \<and>
        rowIN ! (kindIndices (rowIN ! 0) ! IndexDate) = ''01/01'' \<and>
        tokenizeString sampleUtilities '':'' (rowIN ! (kindIndices (rowIN ! 0) ! IndexTime))
          = ''00'' # ''00'' # [] \<and>
        toString_int sampleUtilities (atoi sampleUtilities (m_eventYear s) + 1) = ''2023'' \<and>
        (\<exists>s'. extractRows sampleUtilities s 4 ([[''#'', ''license'', ''usage'']] @ [rowIN]) = Inr s' \<and>
           m_eventYear s' = toString_int sampleUtilities (atoi sampleUtilities (m_eventYear s) + 1) \<and>
           last (m_eventData s') ! IndexDate =
             ''01/01/'' @ toString_int sampleUtilities (atoi sampleUtilities (m_eventYear s) + 1))"
proof -
  have "\<exists>s. extractEvents sampleUtilities (newLogData ReportLog)
          [rowSTART, rowPRODUCT, rowIN_early, rowOUT] = Inr s \<and> m_eventYear s = ''2022''"
    by (simp add: extract_eval)
  then obtain s where
    pre: "extractEvents sampleUtilities (newLogData ReportLog)
          [rowSTART, rowPRODUCT, rowIN_early, rowOUT] = Inr s" and
    y: "m_eventYear s = ''2022''"
    by blast
  have tl: "tablesLoaded s"
    using extractRows_prefix [OF tablesLoaded_getEventIndices pre [unfolded extractEvents_def]]
    by blast
  have mid: "\<forall>m \<in> set [[''#'', ''license'', ''usage'']].
           \<not> isYearMarker sampleUtilities m \<and> \<not> isEventRow m"
    by (simp add: isYearMarker_def isEventRow_def kindIndices_def)
  have kind: "stampedKind (rowIN ! 0)" by (simp add: rowIN_def stampedKind_def)
  have len: "\<forall>i \<in> set (kindIndices (rowIN ! 0)). i < length rowIN"
    by (simp add: rowIN_def kindIndices_def)
  have date: "rowIN ! (kindIndices (rowIN ! 0) ! IndexDate) = ''01/01''"
    by (simp add: rowIN_def kindIndices_def)
  have time: "tokenizeString sampleUtilities '':'' (rowIN ! (kindIndices (rowIN ! 0) ! IndexTime))
          = ''00'' # ''00'' # []"
    by (simp add: rowIN_def kindIndices_def sampleUtilities_def sampleTokenize_def)
  have next_year: "toString_int sampleUtilities (atoi sampleUtilities (m_eventYear s) + 1) = ''2023''"
    by (simp add: y sampleUtilities_def sampleAtoi_def sampleToStringInt_def digitOf_def digitChar_def)
  from new_year_rollover [OF tl mid kind len date time, of 4] pre tl y mid kind len date time next_year
  show ?thesis by blast
qed


subsection \<open>Check-out durations\<close>

declare findCheckIn.simps [simp del]

lemma eventTime_eq_Inr:
  "eventTime U events row = Inr t \<longleftrightarrow>
     row < length events \<and> 2 < length (events ! row) \<and>
     t = stringToBoostTime U (events ! row ! IndexDate) (events ! row ! IndexTime)"
  by (auto simp: eventTime_def bindE_eq_Inr vector_at2_eq_Inr)

lemma scanRow_Some:
  assumes "scanRow U events handle k = Inr (Some t)"
  shows "closes events handle k \<and> eventTime U events k = Inr t"
proof -
  from assms obtain kind checkin where
    kind: "vector_at2 events k IndexEvent = Inr kind" and
    c: "(if kind = ''IN'' then
              bindE (vector_at2 events k IndexHandle) (\<lambda>h.
              if h = handle then bindE (eventTime U events k) (\<lambda>t. Inr (Some t))
              else Inr None)
            else Inr None) = Inr checkin" and
    r: "(case checkin of
           Some t \<Rightarrow> Inr (Some t)
         | None \<Rightarrow>
             if kind = ''SHUTDOWN'' then bindE (eventTime U events k) (\<lambda>t. Inr (Some t))
             else Inr None) = Inr (Some t)"
    unfolding scanRow_def bindE_eq_Inr by blast
  show ?thesis
  proof (cases checkin)
    case None
    with r have "kind = ''SHUTDOWN''" and "eventTime U events k = Inr t"
      by (auto simp: bindE_eq_Inr split: if_splits)
    with kind show ?thesis by (simp add: closes_def)
  next
    case (Some t')
    with r have tt: "t' = t" by simp
    from c Some have "kind = ''IN''" by (auto split: if_splits)
    with c Some tt have "vector_at2 events k IndexHandle = Inr handle" and "eventTime U events k = Inr t"
      by (auto simp: bindE_eq_Inr split: if_splits)
    with kind \<open>kind = ''IN''\<close> show ?thesis by (simp add: closes_def)
  qed
qed

lemma scanRow_None:
  assumes "scanRow U events handle k = Inr None"
  shows "\<not> closes events handle k"
proof -
  from assms obtain kind checkin where
    kind: "vector_at2 events k IndexEvent = Inr kind" and
    c: "(if kind = ''IN'' then
              bindE (vector_at2 events k IndexHandle) (\<lambda>h.
              if h = handle then bindE (eventTime U events k) (\<lambda>t. Inr (Some t))
              else Inr None)
            else Inr None) = Inr checkin" and
    r: "(case checkin of
           Some t \<Rightarrow> Inr (Some t)
         | None \<Rightarrow>
             if kind = ''SHUTDOWN'' then bindE (eventTime U events k) (\<lambda>t. Inr (Some t))
             else Inr None) = Inr None"
    unfolding scanRow_def bindE_eq_Inr by blast
  from r have none: "checkin = None" and ns: "kind \<noteq> ''SHUTDOWN''"
    by (auto simp: bindE_eq_Inr split: option.splits if_splits)
  from c none have "kind = ''IN'' \<longrightarrow> vector_at2 events k IndexHandle \<noteq> Inr handle"
    by (auto simp: bindE_eq_Inr split: if_splits)
  with kind ns show ?thesis by (auto simp: closes_def)
qed

lemma findCheckIn_Some:
  "findCheckIn U events handle i = Inr (Some (t, j)) \<Longrightarrow>
     i \<le> j \<and> j < length events \<and> closes events handle j \<and> eventTime U events j = Inr t \<and>
     (\<forall>k. i \<le> k \<and> k < j \<longrightarrow> \<not> closes events handle k)"
proof (induction U events handle i rule: findCheckIn.induct)
  case (1 U events handle newRow)
  from "1.prems" have lt: "newRow < length events"
    by (subst (asm) findCheckIn.simps) (auto split: if_splits)
  from "1.prems" lt obtain res where s: "scanRow U events handle newRow = Inr res"
    by (subst (asm) findCheckIn.simps) (auto split: sum.splits)
  show ?case
  proof (cases res)
    case None
    with "1.prems" lt s have rec: "findCheckIn U events handle (Suc newRow) = Inr (Some (t, j))"
      by (subst (asm) findCheckIn.simps) simp
    note ih = "1.IH" [OF lt s None rec] and here = scanRow_None [OF s [unfolded None]]
    have "\<not> closes events handle k" if "newRow \<le> k" and "k < j" for k
    proof (cases "k = newRow")
      case True
      with here show ?thesis by simp
    next
      case False
      with that have "Suc newRow \<le> k" by simp
      with ih that show ?thesis by blast
    qed
    with ih show ?thesis by auto
  next
    case (Some t')
    with "1.prems" lt s have "t' = t" and "j = newRow"
      by (subst (asm) findCheckIn.simps, simp)+
    with scanRow_Some [OF s [unfolded Some]] lt show ?thesis by auto
  qed
qed



lemma usageDurationOf_steps:
  assumes run: "usageDurationOf U L row = Inr (product, userName, hostName, d, c)"
  shows "\<exists>handle found.
           vector_at2 (m_eventData L) row IndexHandle = Inr handle \<and>
           eventTime U (m_eventData L) row = Inr (timeOf U L row) \<and>
           findCheckIn U (m_eventData L) handle (row + 1) = Inr found \<and>
           (case found of
              Some (endTime, checkInRow) \<Rightarrow> d = endTime - timeOf U L row \<and> c = Some checkInRow
            | None \<Rightarrow> c = None \<and>
                (\<exists>e. m_endTimeRow L = Some e \<and> eventTime U (m_eventData L) e = Inr (timeOf U L e) \<and>
                   d = timeOf U L e - timeOf U L row))"
proof -
  from run obtain handle product' userName' hostName' startTime found where
    h: "vector_at2 (m_eventData L) row IndexHandle = Inr handle" and
    st: "eventTime U (m_eventData L) row = Inr startTime" and
    f: "findCheckIn U (m_eventData L) handle (row + 1) = Inr found" and
    r: "(case found of
          Some (endTime, checkInRow) \<Rightarrow>
            Inr (product', userName', hostName', endTime - startTime, Some checkInRow)
        | None \<Rightarrow>
            (case m_endTimeRow L of
               None \<Rightarrow> Inl IndeterminateRead
             | Some endRow \<Rightarrow>
                 bindE (eventTime U (m_eventData L) endRow) (\<lambda>endTime.
                 Inr (product', userName', hostName', endTime - startTime, None))))
        = Inr (product, userName, hostName, d, c)"
    unfolding usageDurationOf_def bindE_eq_Inr by blast
  from st have st': "startTime = timeOf U L row"
    by (simp add: eventTime_eq_Inr timeOf_def)
  have "case found of
              Some (endTime, checkInRow) \<Rightarrow> d = endTime - timeOf U L row \<and> c = Some checkInRow
            | None \<Rightarrow> c = None \<and>
                (\<exists>e. m_endTimeRow L = Some e \<and> eventTime U (m_eventData L) e = Inr (timeOf U L e) \<and>
                   d = timeOf U L e - timeOf U L row)"
  proof (cases found)
    case None
    with r obtain e endTime where
      "m_endTimeRow L = Some e" and "eventTime U (m_eventData L) e = Inr endTime" and
      "d = endTime - startTime" and "c = None"
      by (cases "m_endTimeRow L") (auto simp: bindE_eq_Inr)
    with None st' show ?thesis
      by (auto simp: eventTime_eq_Inr timeOf_def)
  next
    case (Some tj)
    with r st' show ?thesis by (cases tj) auto
  qed
  with h st f st' show ?thesis by blast
qed


lemma usageDurationOf_open:
  assumes run: "usageDurationOf U L row = Inr (product, userName, hostName, d, c)"
    and handle: "vector_at2 (m_eventData L) row IndexHandle = Inr handle"
    and none: "\<forall>k. row < k \<and> k < length (m_eventData L) \<longrightarrow> \<not> closes (m_eventData L) handle k"
  shows "c = None \<and> (\<exists>e. m_endTimeRow L = Some e \<and> d = timeOf U L e - timeOf U L row)"
proof -
  from usageDurationOf_steps [OF run] handle obtain found where
    f: "findCheckIn U (m_eventData L) handle (row + 1) = Inr found" and
    r: "(case found of
              Some (endTime, checkInRow) \<Rightarrow> d = endTime - timeOf U L row \<and> c = Some checkInRow
            | None \<Rightarrow> c = None \<and>
                (\<exists>e. m_endTimeRow L = Some e \<and> eventTime U (m_eventData L) e = Inr (timeOf U L e) \<and>
                   d = timeOf U L e - timeOf U L row))"
    by auto
  show ?thesis
  proof (cases found)
    case None
    with r show ?thesis by auto
  next
    case (Some tj)
    obtain t j where tj: "tj = (t, j)" by (cases tj)
    from findCheckIn_Some [OF f [unfolded Some tj]] none show ?thesis by auto
  qed
qed

lemma durationLine_eq:
  assumes "durationLine U L row d c = Inr line"
  shows "line = [stampOf L row,
                 (case c of Some r \<Rightarrow> stampOf L r | None \<Rightarrow> ''(Still checked out)''),
                 m_eventData L ! row ! IndexProduct, m_eventData L ! row ! IndexVersion,
                 m_eventData L ! row ! IndexUser, m_eventData L ! row ! IndexHost,
                 toString_duration U d]"
  using assms unfolding durationLine_def
  by (auto simp: bindE_eq_Inr vector_at2_eq_Inr stampOf_def split: option.splits)

lemma durationLoop_table:
  assumes body: "\<And>acc row acc'. body acc row = Inr acc' \<Longrightarrow>
            (if isOUT L row then \<exists>line. snd acc' = snd acc @ [line] \<and> durationEntry U L row line
             else snd acc' = snd acc)"
    and run: "durationLoop body acc rows = Inr acc'"
  shows "\<exists>lines. snd acc' = snd acc @ lines \<and>
           length lines = length (filter (isOUT L) rows) \<and>
           (\<forall>k < length lines. durationEntry U L (filter (isOUT L) rows ! k) (lines ! k))"
  using run
proof (induction rows arbitrary: acc)
  case Nil
  then show ?case by simp
next
  case (Cons row rows)
  from Cons.prems obtain acc1 where
    step: "body acc row = Inr acc1" and rest: "durationLoop body acc1 rows = Inr acc'"
    by (auto simp: bindE_eq_Inr)
  from Cons.IH [OF rest] obtain lines where
    l1: "snd acc' = snd acc1 @ lines" and
    l2: "length lines = length (filter (isOUT L) rows)" and
    l3: "\<forall>k < length lines. durationEntry U L (filter (isOUT L) rows ! k) (lines ! k)"
    by blast
  show ?case
  proof (cases "isOUT L row")
    case True
    with body [OF step] obtain line where
      a: "snd acc1 = snd acc @ [line]" and e: "durationEntry U L row line" by auto
    have "\<forall>k < length (line # lines).
            durationEntry U L (filter (isOUT L) (row # rows) ! k) ((line # lines) ! k)"
      using True e l3 by (auto simp: nth_Cons split: nat.splits)
    with a l1 l2 True show ?thesis
      by (intro exI [of _ "line # lines"]) simp
  next
    case False
    with body [OF step] have "snd acc1 = snd acc" by simp
    with l1 l2 l3 False show ?thesis by auto
  qed
qed

lemma durationHostRow_body:
  assumes "durationHostRow U L acc row = Inr acc'"
  shows "if isOUT L row then \<exists>line. snd acc' = snd acc @ [line] \<and> durationEntry U L row line
         else snd acc' = snd acc"
proof -
  from assms obtain kind where
    k: "vector_at2 (m_eventData L) row IndexEvent = Inr kind" and
    r: "(if kind = ''OUT'' then
       bindE (usageDurationOf U L row) (\<lambda>(product, userName, hostName, usageDuration, checkInRow).
       bindE (getIndex hostName (m_uniqueHosts L)) (\<lambda>i.
       bindE (getIndex product (m_uniqueProducts L)) (\<lambda>j.
       bindE (addDuration (fst acc) i j usageDuration) (\<lambda>totals.
       bindE (durationLine U L row usageDuration checkInRow) (\<lambda>line.
       Inr (totals, snd acc @ [line]))))))
     else Inr acc) = Inr acc'"
    unfolding durationHostRow_def bindE_eq_Inr by blast
  show ?thesis
  proof (cases "kind = ''OUT''")
    case True
    with k have out: "isOUT L row" by (simp add: isOUT_def)
    from r True show ?thesis
      by (auto simp: out bindE_eq_Inr durationEntry_def split: prod.splits)
  next
    case False
    with k have "\<not> isOUT L row" by (simp add: isOUT_def)
    with r False show ?thesis by simp
  qed
qed

lemma durationUserRow_body:
  assumes "durationUserRow U L acc row = Inr acc'"
  shows "if isOUT L row then \<exists>line. snd acc' = snd acc @ [line] \<and> durationEntry U L row line
         else snd acc' = snd acc"
proof -
  from assms obtain kind where
    k: "vector_at2 (m_eventData L) row IndexEvent = Inr kind" and
    r: "(if kind = ''OUT'' then
       bindE (usageDurationOf U L row) (\<lambda>(product, userName, hostName, usageDuration, checkInRow).
       bindE (getIndex userName (m_uniqueUsers L)) (\<lambda>i.
       bindE (getIndex product (m_uniqueProducts L)) (\<lambda>j.
       bindE (addDuration (fst acc) i j usageDuration) (\<lambda>totals.
       bindE (durationLine U L row usageDuration checkInRow) (\<lambda>line.
       Inr (totals, snd acc @ [line]))))))
     else Inr acc) = Inr acc'"
    unfolding durationUserRow_def bindE_eq_Inr by blast
  show ?thesis
  proof (cases "kind = ''OUT''")
    case True
    with k have out: "isOUT L row" by (simp add: isOUT_def)
    from r True show ?thesis
      by (auto simp: out bindE_eq_Inr durationEntry_def split: prod.splits)
  next
    case False
    with k have "\<not> isOUT L row" by (simp add: isOUT_def)
    with r False show ?thesis by simp
  qed
qed

lemma filter_upt_nth:
  assumes "row < n" and "P row"
  shows "length (filter P [0 ..< row]) < length (filter P [0 ..< n]) \<and>
         filter P [0 ..< n] ! length (filter P [0 ..< row]) = row"
proof -
  from assms(1) have "[0 ..< n] = [0 ..< row] @ row # [Suc row ..< n]"
    by (metis le_add1 less_imp_add_positive upt_add_eq_append upt_conv_Cons plus_nat.add_0)
  then have "filter P [0 ..< n] = filter P [0 ..< row] @ row # filter P [Suc row ..< n]"
    using assms(2) by simp
  then show ?thesis by (simp add: nth_append)
qed

lemma duration_table_entry:
  assumes run: "getUsageDurationHost U L = Inr (totals, table) \<or>
                getUsageDurationUser U L = Inr (totals, table)"
    and out: "isOUT L row"
  shows "durationEntry U L row (table ! Suc (length (filter (isOUT L) [0 ..< row])))"
proof -
  from out have lt: "row < length (m_eventData L)"
    by (simp add: isOUT_def vector_at2_eq_Inr)
  from run have "\<exists>lines. table = [durationHeader] @ lines \<and>
           length lines = length (filter (isOUT L) [0 ..< length (m_eventData L)]) \<and>
           (\<forall>k < length lines.
              durationEntry U L (filter (isOUT L) [0 ..< length (m_eventData L)] ! k) (lines ! k))"
  proof
    assume "getUsageDurationHost U L = Inr (totals, table)"
    from durationLoop_table [where body = "durationHostRow U L" and L = L and U = U,
        OF durationHostRow_body this [unfolded getUsageDurationHost_def]]
    show ?thesis by simp
  next
    assume "getUsageDurationUser U L = Inr (totals, table)"
    from durationLoop_table [where body = "durationUserRow U L" and L = L and U = U,
        OF durationUserRow_body this [unfolded getUsageDurationUser_def]]
    show ?thesis by simp
  qed
  then obtain lines where
    t: "table = durationHeader # lines" and
    len: "length lines = length (filter (isOUT L) [0 ..< length (m_eventData L)])" and
    ent: "\<forall>k < length lines.
              durationEntry U L (filter (isOUT L) [0 ..< length (m_eventData L)] ! k) (lines ! k)"
    by auto
  from filter_upt_nth [OF lt, of "isOUT L"] out
  have k: "length (filter (isOUT L) [0 ..< row]) < length lines"
    and at: "filter (isOUT L) [0 ..< length (m_eventData L)] ! length (filter (isOUT L) [0 ..< row]) = row"
    by (simp_all add: len)
  from ent k have "durationEntry U L
      (filter (isOUT L) [0 ..< length (m_eventData L)] ! length (filter (isOUT L) [0 ..< row]))
      (lines ! length (filter (isOUT L) [0 ..< row]))"
    by blast
  then show ?thesis by (simp add: at t)
qed

lemma lastTimestamped_snoc_product:
  "lastTimestamped events endRow \<Longrightarrow> rec ! 0 = ''PRODUCT'' \<Longrightarrow>
     lastTimestamped (events @ [rec]) endRow"
  by (cases endRow) (auto simp: lastTimestamped_def nth_append)

lemma lastTimestamped_snoc_other:
  "rec ! 0 \<noteq> ''PRODUCT'' \<Longrightarrow> lastTimestamped (events @ [rec]) (Some (length events))"
  by (auto simp: lastTimestamped_def)

lemma kind_of_record:
  assumes "kindIndices kind \<noteq> []"
  shows "(if stampedKind kind
          then (map ((!) r) (kindIndices kind))[IndexDate := d]
          else map ((!) r) (kindIndices kind)) ! 0 = r ! 0"
  using assms by (auto simp: kindIndices_def split: if_splits)

lemma extractRow_last:
  assumes tl: "tablesLoaded s" and inv: "lastTimestamped (m_eventData s) (m_endTimeRow s)"
    and run: "extractRow U s row r = Inr s'"
  shows "lastTimestamped (m_eventData s') (m_endTimeRow s')"
proof (cases "r \<noteq> [] \<and> kindIndices (r ! 0) \<noteq> []")
  case True
  let ?rec = "if stampedKind (r ! 0)
          then (map ((!) r) (kindIndices (r ! 0)))
                 [IndexDate := r ! (kindIndices (r ! 0) ! IndexDate) @ ''/'' @ m_eventYear s']
          else map ((!) r) (kindIndices (r ! 0))"
  from extractRow_effect [OF tl run] True have
    evs: "m_eventData s' = m_eventData s @ [?rec]" and
    e: "m_endTimeRow s' =
         (if r ! 0 = ''PRODUCT'' then m_endTimeRow s else Some (length (m_eventData s)))"
    by simp_all
  from True have k: "?rec ! 0 = r ! 0" by (intro kind_of_record) simp
  show ?thesis
  proof (cases "r ! 0 = ''PRODUCT''")
    case True
    with k have "?rec ! 0 = ''PRODUCT''" by simp
    from lastTimestamped_snoc_product [OF inv this] True show ?thesis
      unfolding evs e by simp
  next
    case False
    with k have "?rec ! 0 \<noteq> ''PRODUCT''" by simp
    from lastTimestamped_snoc_other [OF this] False show ?thesis
      unfolding evs e by simp
  qed
next
  case False
  with extractRow_effect [OF tl run] inv show ?thesis by auto
qed

lemma extractRows_last:
  "tablesLoaded s \<Longrightarrow> lastTimestamped (m_eventData s) (m_endTimeRow s) \<Longrightarrow>
     extractRows U s row rows = Inr s' \<Longrightarrow> lastTimestamped (m_eventData s') (m_endTimeRow s')"
proof (induction rows arbitrary: s row)
  case Nil
  then show ?case by simp
next
  case (Cons r rows)
  from Cons.prems(3) obtain s1 where
    step: "extractRow U s row r = Inr s1" and rest: "extractRows U s1 (Suc row) rows = Inr s'"
    by (auto simp: bindE_eq_Inr)
  from extractRow_prefix [OF Cons.prems(1) step] have tl1: "tablesLoaded s1" by blast
  from extractRow_last [OF Cons.prems(1,2) step]
  have "lastTimestamped (m_eventData s1) (m_endTimeRow s1)" .
  from Cons.IH [OF tl1 this rest] show ?case .
qed

lemma extractEvents_last:
  assumes "extractEvents U (newLogData ReportLog) rows = Inr L"
  shows "lastTimestamped (m_eventData L) (m_endTimeRow L)"
proof -
  have "lastTimestamped (m_eventData (getEventIndices (newLogData ReportLog)))
          (m_endTimeRow (getEventIndices (newLogData ReportLog)))"
    by (simp add: lastTimestamped_def getEventIndices_def newLogData_def)
  from extractRows_last [OF tablesLoaded_getEventIndices this assms [unfolded extractEvents_def]]
  show ?thesis .
qed


text \<open>
  C4. For an OUT event at \<open>row\<close> with no strictly later IN of the same handle and no
  strictly later SHUTDOWN, in the tables computed from an extracted log, the Duration
  Record is marked "(Still checked out)" and its duration is the time of the event
  \<open>m_endTimeRow\<close> minus the time of the OUT, where \<open>m_endTimeRow\<close> is the last event
  that carries a date and time.
\<close>

theorem open_checkout_measured_to_last_timestamp:
  assumes ext: "extractEvents U (newLogData ReportLog) rows = Inr L"
    and run: "getUsageDurationHost U L = Inr (totals, table) \<or>
              getUsageDurationUser U L = Inr (totals, table)"
    and out: "isOUT L row"
    and handle: "vector_at2 (m_eventData L) row IndexHandle = Inr handle"
    and none: "\<forall>k. row < k \<and> k < length (m_eventData L) \<longrightarrow> \<not> closes (m_eventData L) handle k"
  shows "\<exists>e. m_endTimeRow L = Some e \<and> lastTimestamped (m_eventData L) (Some e) \<and>
           table ! Suc (length (filter (isOUT L) [0 ..< row])) =
             [stampOf L row, ''(Still checked out)'',
              m_eventData L ! row ! IndexProduct, m_eventData L ! row ! IndexVersion,
              m_eventData L ! row ! IndexUser, m_eventData L ! row ! IndexHost,
              toString_duration U (timeOf U L e - timeOf U L row)]"
proof -
  from duration_table_entry [OF run out] obtain product userName hostName d c where
    u: "usageDurationOf U L row = Inr (product, userName, hostName, d, c)" and
    l: "durationLine U L row d c = Inr (table ! Suc (length (filter (isOUT L) [0 ..< row])))"
    unfolding durationEntry_def by blast
  from usageDurationOf_open [OF u handle none] obtain e where
    c: "c = None" and e: "m_endTimeRow L = Some e" and d: "d = timeOf U L e - timeOf U L row"
    by blast
  from extractEvents_last [OF ext] e have "lastTimestamped (m_eventData L) (Some e)" by simp
  with durationLine_eq [OF l] c d e show ?thesis by simp
qed

lemmas duration_eval =
  getUsageDurationHost_def getUsageDurationUser_def durationHostRow_def durationUserRow_def
  usageDurationOf_def durationLine_def addDuration_def eventTime_def scanRow_def
  findCheckIn.simps durationHeader_def
  vector_at_def vector_at2_def vector_set_def vector_set2_def
  sampleLog_def getEventIndices_def newLogData_def
  sampleUtilities_def sampleStringToBoostTime_def sampleTokenize_def numberAt_def
  sampleToStringDuration_def pad2_def digitOf_def digitChar_def
  isOUT_def closes_def stampOf_def timeOf_def

lemma getUsageDurationHost_sampleLog:
  "getUsageDurationHost sampleUtilities sampleLog =
     Inr ([[60], [36060], [0]],
          [durationHeader,
           [''12/31/2022 23:59'', ''01/01/2023 00:00'', ''imaris'', ''9.8'', ''alice'', ''ws01'',
            ''00:01:00''],
           [''12/31/2022 23:59'', ''(Still checked out)'', ''imaris'', ''9.8'', ''bob'', ''ws02'',
            ''10:01:00'']])"
  by (simp add: duration_eval)


theorem open_checkout_measured_to_last_timestamp_witness:
  "\<exists>totals table.
     extractEvents sampleUtilities (newLogData ReportLog) sampleRows = Inr sampleLog \<and>
     (getUsageDurationHost sampleUtilities sampleLog = Inr (totals, table) \<or>
      getUsageDurationUser sampleUtilities sampleLog = Inr (totals, table)) \<and>
     isOUT sampleLog 4 \<and>
     vector_at2 (m_eventData sampleLog) 4 IndexHandle = Inr ''42'' \<and>
     (\<forall>k. 4 < k \<and> k < length (m_eventData sampleLog) \<longrightarrow>
          \<not> closes (m_eventData sampleLog) ''42'' k) \<and>
     (\<exists>e. m_endTimeRow sampleLog = Some e \<and> lastTimestamped (m_eventData sampleLog) (Some e) \<and>
        table ! Suc (length (filter (isOUT sampleLog) [0 ..< 4])) =
          [stampOf sampleLog 4, ''(Still checked out)'',
           m_eventData sampleLog ! 4 ! IndexProduct, m_eventData sampleLog ! 4 ! IndexVersion,
           m_eventData sampleLog ! 4 ! IndexUser, m_eventData sampleLog ! 4 ! IndexHost,
           toString_duration sampleUtilities
             (timeOf sampleUtilities sampleLog e - timeOf sampleUtilities sampleLog 4)])"
proof -
  let ?totals = "[[60], [36060], [0]] :: int list list"
  let ?table = "[durationHeader,
           [''12/31/2022 23:59'', ''01/01/2023 00:00'', ''imaris'', ''9.8'', ''alice'', ''ws01'',
            ''00:01:00''],
           [''12/31/2022 23:59'', ''(Still checked out)'', ''imaris'', ''9.8'', ''bob'', ''ws02'',
            ''10:01:00'']]"
  note ext = extractEvents_sampleRows
  have run: "getUsageDurationHost sampleUtilities sampleLog = Inr (?totals, ?table) \<or>
             getUsageDurationUser sampleUtilities sampleLog = Inr (?totals, ?table)"
    using getUsageDurationHost_sampleLog by simp
  have out: "isOUT sampleLog 4" by (simp add: duration_eval)
  have handle: "vector_at2 (m_eventData sampleLog) 4 IndexHandle = Inr ''42''"
    by (simp add: duration_eval)
  have five: "\<not> closes (m_eventData sampleLog) ''42'' 5" by (simp add: duration_eval)
  have six: "\<not> closes (m_eventData sampleLog) ''42'' 6" by (simp add: duration_eval)
  have len: "length (m_eventData sampleLog) = 7" by (simp add: duration_eval)
  have none: "\<forall>k. 4 < k \<and> k < length (m_eventData sampleLog) \<longrightarrow>
          \<not> closes (m_eventData sampleLog) ''42'' k"
  proof (intro allI impI)
    fix k :: nat
    assume "4 < k \<and> k < length (m_eventData sampleLog)"
    then have "k = 5 \<or> k = 6" unfolding len by arith
    with five six show "\<not> closes (m_eventData sampleLog) ''42'' k" by auto
  qed
  from open_checkout_measured_to_last_timestamp [OF ext run out handle none]
    ext run out handle none
  show ?thesis by blast
qed

end
